theory Spec2Isabelle
  imports Complex_Main
begin

section \<open>Numbers\<close>

text \<open>
  A JavaScript number is an IEEE 754 binary64 value: a finite double, an infinity or NaN.
  Every arithmetic operation computes the exact result and rounds it to the nearest
  double, ties to the even significand; a result beyond the largest double becomes an
  infinity.  \<open>rnd\<close> rounds a real to the nearest integer, ties to even; \<open>expo x\<close> is the
  binary exponent of \<open>x\<close>, not below the exponent \<open>- 1022\<close> of the subnormal doubles; \<open>fl\<close>
  rounds to the grid of spacing \<open>2 powi (expo x - 52)\<close>.
\<close>

definition rnd :: "real \<Rightarrow> int" where
  "rnd r =
     (let f = \<lfloor>r\<rfloor>; d = r - of_int f
      in if d < 1 / 2 then f else if 1 / 2 < d then f + 1 else if even f then f else f + 1)"

definition expo :: "real \<Rightarrow> int" where
  "expo x = max \<lfloor>log 2 \<bar>x\<bar>\<rfloor> (- 1022)"

definition fl :: "real \<Rightarrow> real" where
  "fl x = (if x = 0 then 0 else of_int (rnd (x / 2 powi (expo x - 52))) * 2 powi (expo x - 52))"

text \<open>\<open>Fin x\<close> is the finite double of value \<open>x\<close>.  The two zeros are not told apart: they
  compare equal, and the only divisors in the program are sizes read from the DOM, which
  are never the negative zero.\<close>

datatype double = Fin real | PInf | NInf | NaN

type_synonym number = double

definition round_d :: "real \<Rightarrow> double" where
  "round_d x =
     (let y = fl x
      in if 2 ^ 1024 \<le> \<bar>y\<bar> then (if 0 < y then PInf else NInf) else Fin y)"

fun dneg :: "double \<Rightarrow> double" where
  "dneg (Fin a) = Fin (- a)"
| "dneg PInf = NInf"
| "dneg NInf = PInf"
| "dneg NaN = NaN"

fun dadd :: "double \<Rightarrow> double \<Rightarrow> double" where
  "dadd (Fin a) (Fin b) = round_d (a + b)"
| "dadd (Fin a) PInf = PInf"
| "dadd (Fin a) NInf = NInf"
| "dadd PInf (Fin b) = PInf"
| "dadd PInf PInf = PInf"
| "dadd PInf NInf = NaN"
| "dadd NInf (Fin b) = NInf"
| "dadd NInf PInf = NaN"
| "dadd NInf NInf = NInf"
| "dadd NaN b = NaN"
| "dadd a NaN = NaN"

definition dsub :: "double \<Rightarrow> double \<Rightarrow> double" where
  "dsub a b = dadd a (dneg b)"

fun dmul :: "double \<Rightarrow> double \<Rightarrow> double" where
  "dmul (Fin a) (Fin b) = round_d (a * b)"
| "dmul (Fin a) PInf = (if a = 0 then NaN else if 0 < a then PInf else NInf)"
| "dmul (Fin a) NInf = (if a = 0 then NaN else if 0 < a then NInf else PInf)"
| "dmul PInf (Fin b) = (if b = 0 then NaN else if 0 < b then PInf else NInf)"
| "dmul NInf (Fin b) = (if b = 0 then NaN else if 0 < b then NInf else PInf)"
| "dmul PInf PInf = PInf"
| "dmul PInf NInf = NInf"
| "dmul NInf PInf = NInf"
| "dmul NInf NInf = PInf"
| "dmul NaN b = NaN"
| "dmul a NaN = NaN"

fun ddiv :: "double \<Rightarrow> double \<Rightarrow> double" where
  "ddiv (Fin a) (Fin b) =
     (if b = 0 then (if a = 0 then NaN else if 0 < a then PInf else NInf)
      else round_d (a / b))"
| "ddiv (Fin a) PInf = Fin 0"
| "ddiv (Fin a) NInf = Fin 0"
| "ddiv PInf (Fin b) = (if 0 \<le> b then PInf else NInf)"
| "ddiv NInf (Fin b) = (if 0 \<le> b then NInf else PInf)"
| "ddiv PInf PInf = NaN"
| "ddiv PInf NInf = NaN"
| "ddiv NInf PInf = NaN"
| "ddiv NInf NInf = NaN"
| "ddiv NaN b = NaN"
| "ddiv a NaN = NaN"

text \<open>\<^verbatim>\<open>a <= b\<close>; every comparison with NaN is false.\<close>

fun dle :: "double \<Rightarrow> double \<Rightarrow> bool" where
  "dle (Fin a) (Fin b) = (a \<le> b)"
| "dle (Fin a) PInf = True"
| "dle (Fin a) NInf = False"
| "dle PInf (Fin b) = False"
| "dle PInf PInf = True"
| "dle PInf NInf = False"
| "dle NInf (Fin b) = True"
| "dle NInf PInf = True"
| "dle NInf NInf = True"
| "dle NaN b = False"
| "dle a NaN = False"

text \<open>\<^verbatim>\<open>a >= b\<close>.\<close>

definition dge :: "double \<Rightarrow> double \<Rightarrow> bool" where
  "dge a b = dle b a"

text \<open>\<^verbatim>\<open>Math.min\<close> and \<^verbatim>\<open>Math.max\<close> of two numbers: NaN if either is NaN.\<close>

definition dmin :: "double \<Rightarrow> double \<Rightarrow> double" where
  "dmin a b = (if a = NaN \<or> b = NaN then NaN else if dle a b then a else b)"

definition dmax :: "double \<Rightarrow> double \<Rightarrow> double" where
  "dmax a b = (if a = NaN \<or> b = NaN then NaN else if dle a b then b else a)"

text \<open>\<^verbatim>\<open>Math.PI\<close>, the double nearest to \<open>pi\<close>.\<close>

definition MATH_PI :: double where
  "MATH_PI = Fin (884279719003555 / 281474976710656)"

text \<open>An unsigned integer of the DOM read as a number.\<close>

definition of_uint :: "nat \<Rightarrow> double" where
  "of_uint n = Fin (real n)"

section \<open>Data model\<close>

text \<open>
  The collage generator is a single React component (\<^verbatim>\<open>App\<close> in \<^verbatim>\<open>src/App.tsx\<close>) whose
  state is a configuration, the two decoded images, the drag bookkeeping and a reference
  to the canvas element.
\<close>

text \<open>\<^verbatim>\<open>ImageTransform\<close> of \<^verbatim>\<open>types.ts\<close>; the fields \<^verbatim>\<open>x, y, scale, rotation\<close> carry the
  prefix \<open>t_\<close>.\<close>

record ImageTransform =
  t_x :: number
  t_y :: number
  t_scale :: number
  t_rotation :: number

text \<open>A \<^verbatim>\<open>File\<close> chosen in a file input; only its identity matters here.\<close>

datatype file_resource = File string

record CollageConfig =
  name :: string
  furigana :: string
  bgColor1 :: string
  bgColor2 :: string
  characterImage :: "file_resource option"
  overlayImage :: "file_resource option"
  characterTransform :: ImageTransform
  overlayTransform :: ImageTransform

text \<open>A decoded \<^verbatim>\<open>HTMLImageElement\<close>: its natural size (unsigned integers in the DOM) and
  the bitmap it shows, identified by the file it was decoded from.\<close>

record image =
  img_width :: nat
  img_height :: nat
  img_src :: file_resource

record LoadedImages =
  char :: "image option"
  overlay :: "image option"

definition INITIAL_TRANSFORM :: ImageTransform where
  "INITIAL_TRANSFORM = \<lparr>t_x = Fin 0, t_y = Fin 0, t_scale = Fin 1, t_rotation = Fin 0\<rparr>"

subsection \<open>The canvas element and its 2D context\<close>

text \<open>
  What the context holds is the browser's side of the interface: the transformation
  matrix, the path, the drawing state and the painted calls are kept with real
  coordinates.  A method of the context that is given an infinite or NaN argument
  returns without doing anything, so only finite numbers cross the interface.

  The current transformation matrix \<open>(a, b, c, d, e, f)\<close> maps \<open>(px, py)\<close> to
  \<open>(a * px + c * py + e, b * px + d * py + f)\<close>.
\<close>

record matrix =
  m_a :: real
  m_b :: real
  m_c :: real
  m_d :: real
  m_e :: real
  m_f :: real

definition identity_matrix :: matrix where
  "identity_matrix = \<lparr>m_a = 1, m_b = 0, m_c = 0, m_d = 1, m_e = 0, m_f = 0\<rparr>"

definition apply_matrix :: "matrix \<Rightarrow> real \<times> real \<Rightarrow> real \<times> real" where
  "apply_matrix m p =
     (m_a m * fst p + m_c m * snd p + m_e m, m_b m * fst p + m_d m * snd p + m_f m)"

text \<open>A rectangle \<open>(left, top, width, height)\<close> in the coordinates of the matrix that was
  current when it was added to the path.\<close>

type_synonym rect_path = "matrix \<times> real \<times> real \<times> real \<times> real"

text \<open>The drawing state that \<^verbatim>\<open>save\<close> pushes and \<^verbatim>\<open>restore\<close> pops, restricted to the
  attributes the program assigns.\<close>

record draw_state =
  transform :: matrix
  clip_region :: "rect_path list list"
  fillStyle :: string
  strokeStyle :: string
  font :: string
  lineWidth :: real
  lineJoin :: string
  textAlign :: string
  textBaseline :: string
  filter_effect :: string
  globalCompositeOperation :: string
  shadowColor :: string
  shadowBlur :: real
  shadowOffsetX :: real
  shadowOffsetY :: real

definition default_draw_state :: draw_state where
  "default_draw_state =
     \<lparr>transform = identity_matrix, clip_region = [],
      fillStyle = ''#000000'', strokeStyle = ''#000000'', font = ''10px sans-serif'',
      lineWidth = 1, lineJoin = ''miter'', textAlign = ''start'',
      textBaseline = ''alphabetic'', filter_effect = ''none'',
      globalCompositeOperation = ''source-over'', shadowColor = ''rgba(0, 0, 0, 0)'',
      shadowBlur = 0, shadowOffsetX = 0, shadowOffsetY = 0\<rparr>"

text \<open>What has been painted on the bitmap since it was last cleared: every drawing call
  with its arguments and the drawing state it was made in.  The raster the browser shows is
  a function of this list and of the bitmap's size.\<close>

datatype paint =
  FillRect draw_state real real real real
| DrawImage draw_state image real real real real
| StrokeText draw_state string real real
| FillText draw_state string real real

text \<open>The canvas element: the size of its bitmap (\<^verbatim>\<open>canvas.width\<close>, \<^verbatim>\<open>canvas.height\<close>,
  unsigned integers), the box the layout gives it (\<^verbatim>\<open>getBoundingClientRect()\<close>), whether
  \<^verbatim>\<open>getContext("2d")\<close> yields a context, and the context: drawing state, stack of saved
  states, current path and the painted bitmap.\<close>

record canvas =
  width :: nat
  height :: nat
  rect_left :: number
  rect_top :: number
  rect_width :: number
  rect_height :: number
  has_context :: bool
  state :: draw_state
  saved :: "draw_state list"
  path :: "rect_path list"
  bitmap :: "paint list"

subsection \<open>The component state\<close>

record app_state =
  config :: CollageConfig
  loadedImages :: LoadedImages
  isDragging :: bool
  dragStart :: "number \<times> number"
  initialDragTransform :: "number \<times> number"
  isHoveringChar :: bool
  canvasRef :: "canvas option"

section \<open>Coordinate mapper and hit tester\<close>

text \<open>\<^verbatim>\<open>getCanvasCoordinates\<close>: screen coordinates to canvas coordinates.\<close>

definition getCanvasCoordinates :: "app_state \<Rightarrow> number \<Rightarrow> number \<Rightarrow> number \<times> number" where
  "getCanvasCoordinates st clientX clientY =
     (case canvasRef st of
        None \<Rightarrow> (Fin 0, Fin 0)
      | Some canvas \<Rightarrow>
          (let scaleX = ddiv (of_uint (width canvas)) (rect_width canvas);
               scaleY = ddiv (of_uint (height canvas)) (rect_height canvas)
           in (dmul (dsub clientX (rect_left canvas)) scaleX,
               dmul (dsub clientY (rect_top canvas)) scaleY)))"

text \<open>\<^verbatim>\<open>isPointInCharacter\<close>: the hit test against the character's bounding box.\<close>

definition isPointInCharacter :: "app_state \<Rightarrow> number \<Rightarrow> number \<Rightarrow> bool" where
  "isPointInCharacter st px py =
     (case char (loadedImages st) of
        None \<Rightarrow> False
      | Some charImg \<Rightarrow>
          (let cx = dadd (Fin 450) (t_x (characterTransform (config st)));
               cy = dadd (Fin 600) (t_y (characterTransform (config st)));
               imgW = of_uint (img_width charImg);
               imgH = of_uint (img_height charImg);
               margin = Fin 80;
               maxCharWidth = dsub (Fin 900) (dmul margin (Fin 2));
               maxCharHeight = dsub (Fin 1200) (dmul margin (Fin 2));
               baseScale = dmin (ddiv maxCharWidth imgW) (ddiv maxCharHeight imgH);
               displayW = dmul (dmul imgW baseScale) (t_scale (characterTransform (config st)));
               displayH = dmul (dmul imgH baseScale) (t_scale (characterTransform (config st)))
           in dge px (dsub cx (ddiv displayW (Fin 2))) \<and>
              dle px (dadd cx (ddiv displayW (Fin 2))) \<and>
              dge py (dsub cy (ddiv displayH (Fin 2))) \<and>
              dle py (dadd cy (ddiv displayH (Fin 2)))))"

section \<open>Input handlers\<close>

text \<open>
  A handler runs to completion on the state of the render it was created in, and its
  \<^verbatim>\<open>setState\<close> calls are applied in order before the next event is handled; each handler
  is therefore a function from the state before the event to the state after it.  Reading
  a property of \<^verbatim>\<open>undefined\<close> throws a \<^verbatim>\<open>TypeError\<close>.
\<close>

datatype error = TypeError

text \<open>A mouse event carries \<^verbatim>\<open>clientX, clientY\<close>; a touch event carries the list
  \<^verbatim>\<open>touches\<close> of the active touch points, each with its \<^verbatim>\<open>clientX, clientY\<close>.\<close>

datatype pointer_event =
  MouseEvent number number
| TouchEvent "(number \<times> number) list"

text \<open>The block \<^verbatim>\<open>if ('touches' in e) {...} else {...}\<close> shared by \<^verbatim>\<open>handleMouseDown\<close> and
  \<^verbatim>\<open>handleMouseMove\<close>; \<^verbatim>\<open>e.touches[0]\<close> is \<^verbatim>\<open>undefined\<close> when no touch point is active.\<close>

fun clientPoint :: "pointer_event \<Rightarrow> error + number \<times> number" where
  "clientPoint (TouchEvent []) = Inl TypeError"
| "clientPoint (TouchEvent (t # ts)) = Inr t"
| "clientPoint (MouseEvent clientX clientY) = Inr (clientX, clientY)"

fun is_touch :: "pointer_event \<Rightarrow> bool" where
  "is_touch (TouchEvent ts) = True"
| "is_touch (MouseEvent clientX clientY) = False"

definition setConfig :: "(CollageConfig \<Rightarrow> CollageConfig) \<Rightarrow> app_state \<Rightarrow> app_state" where
  "setConfig f st = st\<lparr>config := f (config st)\<rparr>"

definition handleMouseDown :: "pointer_event \<Rightarrow> app_state \<Rightarrow> error + app_state" where
  "handleMouseDown e st =
     (case char (loadedImages st) of
        None \<Rightarrow> Inr st
      | Some charImg \<Rightarrow>
          (case clientPoint e of
             Inl err \<Rightarrow> Inl err
           | Inr (clientX, clientY) \<Rightarrow>
               (let (px, py) = getCanvasCoordinates st clientX clientY
                in if isPointInCharacter st px py
                   then Inr (st\<lparr>isDragging := True,
                                dragStart := (px, py),
                                initialDragTransform :=
                                  (t_x (characterTransform (config st)),
                                   t_y (characterTransform (config st)))\<rparr>)
                   else Inr st)))"

definition handleMouseMove :: "pointer_event \<Rightarrow> app_state \<Rightarrow> error + app_state" where
  "handleMouseMove e st =
     (case clientPoint e of
        Inl err \<Rightarrow> Inl err
      | Inr (clientX, clientY) \<Rightarrow>
          (let (px, py) = getCanvasCoordinates st clientX clientY;
               st1 = (if \<not> is_touch e \<and> \<not> isDragging st
                      then st\<lparr>isHoveringChar := isPointInCharacter st px py\<rparr>
                      else st)
           in if isDragging st
              then (let dx = dsub px (fst (dragStart st));
                        dy = dsub py (snd (dragStart st))
                    in Inr (setConfig (\<lambda>prev. prev\<lparr>characterTransform :=
                              (characterTransform prev)
                                \<lparr>t_x := dadd (fst (initialDragTransform st)) dx,
                                 t_y := dadd (snd (initialDragTransform st)) dy\<rparr>\<rparr>) st1))
              else Inr st1))"

definition handleMouseUp :: "app_state \<Rightarrow> app_state" where
  "handleMouseUp st = st\<lparr>isDragging := False\<rparr>"

text \<open>\<^verbatim>\<open>handleInputChange(field, value)\<close> is called with the four text and colour fields and,
  from \<^verbatim>\<open>handleFileUpload\<close>, with the two image fields.\<close>

datatype field_value =
  Name string
| Furigana string
| BgColor1 string
| BgColor2 string
| CharacterImage file_resource
| OverlayImage file_resource

fun set_field :: "field_value \<Rightarrow> CollageConfig \<Rightarrow> CollageConfig" where
  "set_field (Name v) prev = prev\<lparr>name := v\<rparr>"
| "set_field (Furigana v) prev = prev\<lparr>furigana := v\<rparr>"
| "set_field (BgColor1 v) prev = prev\<lparr>bgColor1 := v\<rparr>"
| "set_field (BgColor2 v) prev = prev\<lparr>bgColor2 := v\<rparr>"
| "set_field (CharacterImage v) prev = prev\<lparr>characterImage := Some v\<rparr>"
| "set_field (OverlayImage v) prev = prev\<lparr>overlayImage := Some v\<rparr>"

definition handleInputChange :: "field_value \<Rightarrow> app_state \<Rightarrow> app_state" where
  "handleInputChange fv st = setConfig (\<lambda>prev. set_field fv prev) st"

datatype image_field = CharacterImageField | OverlayImageField

text \<open>\<^verbatim>\<open>handleFileUpload\<close>; \<open>files\<close> is \<^verbatim>\<open>event.target.files\<close> (possibly \<^verbatim>\<open>null\<close>), and
  \<^verbatim>\<open>files?.[0]\<close> is \<^verbatim>\<open>undefined\<close> when it is null or empty.\<close>

fun first_file :: "file_resource list option \<Rightarrow> file_resource option" where
  "first_file None = None"
| "first_file (Some []) = None"
| "first_file (Some (f # fs)) = Some f"

definition handleFileUpload :: "file_resource list option \<Rightarrow> image_field \<Rightarrow> app_state \<Rightarrow> app_state" where
  "handleFileUpload files field st =
     (case first_file files of
        None \<Rightarrow> st
      | Some f \<Rightarrow>
          (let st1 = handleInputChange
                       (case field of CharacterImageField \<Rightarrow> CharacterImage f
                                    | OverlayImageField \<Rightarrow> OverlayImage f) st;
               st2 = (if field = CharacterImageField
                      then setConfig (\<lambda>prev. prev\<lparr>characterTransform := INITIAL_TRANSFORM\<rparr>) st1
                      else st1);
               st3 = (if field = OverlayImageField
                      then setConfig (\<lambda>prev. prev\<lparr>overlayTransform := INITIAL_TRANSFORM\<rparr>) st2
                      else st2)
           in st3))"

datatype target = Character | Overlay

datatype transform_key = KeyX | KeyY | KeyScale | KeyRotation

fun set_key :: "transform_key \<Rightarrow> number \<Rightarrow> ImageTransform \<Rightarrow> ImageTransform" where
  "set_key KeyX v t = t\<lparr>t_x := v\<rparr>"
| "set_key KeyY v t = t\<lparr>t_y := v\<rparr>"
| "set_key KeyScale v t = t\<lparr>t_scale := v\<rparr>"
| "set_key KeyRotation v t = t\<lparr>t_rotation := v\<rparr>"

fun handleTransformChange :: "target \<Rightarrow> transform_key \<Rightarrow> number \<Rightarrow> app_state \<Rightarrow> app_state" where
  "handleTransformChange Character key v st =
     setConfig (\<lambda>prev. prev\<lparr>characterTransform := set_key key v (characterTransform prev)\<rparr>) st"
| "handleTransformChange Overlay key v st =
     setConfig (\<lambda>prev. prev\<lparr>overlayTransform := set_key key v (overlayTransform prev)\<rparr>) st"

fun resetTransform :: "target \<Rightarrow> app_state \<Rightarrow> app_state" where
  "resetTransform Character st =
     setConfig (\<lambda>prev. prev\<lparr>characterTransform := INITIAL_TRANSFORM\<rparr>) st"
| "resetTransform Overlay st =
     setConfig (\<lambda>prev. prev\<lparr>overlayTransform := INITIAL_TRANSFORM\<rparr>) st"

section \<open>The 2D context\<close>

text \<open>The methods of \<^verbatim>\<open>CanvasRenderingContext2D\<close> that \<^verbatim>\<open>drawCanvas\<close> calls, as functions on
  the canvas.  Assigning \<^verbatim>\<open>canvas.width\<close> or \<^verbatim>\<open>canvas.height\<close> clears the bitmap and resets
  the context to its default state.\<close>

definition reset_context :: "canvas \<Rightarrow> canvas" where
  "reset_context c = c\<lparr>state := default_draw_state, saved := [], path := [], bitmap := []\<rparr>"

definition set_width :: "nat \<Rightarrow> canvas \<Rightarrow> canvas" where
  "set_width v c = reset_context (c\<lparr>width := v\<rparr>)"

definition set_height :: "nat \<Rightarrow> canvas \<Rightarrow> canvas" where
  "set_height v c = reset_context (c\<lparr>height := v\<rparr>)"

definition ctx_set :: "(draw_state \<Rightarrow> draw_state) \<Rightarrow> canvas \<Rightarrow> canvas" where
  "ctx_set f c = c\<lparr>state := f (state c)\<rparr>"

definition ctx_save :: "canvas \<Rightarrow> canvas" where
  "ctx_save c = c\<lparr>saved := state c # saved c\<rparr>"

definition ctx_restore :: "canvas \<Rightarrow> canvas" where
  "ctx_restore c = (case saved c of [] \<Rightarrow> c | s # ss \<Rightarrow> c\<lparr>state := s, saved := ss\<rparr>)"

definition mat_translate :: "real \<Rightarrow> real \<Rightarrow> matrix \<Rightarrow> matrix" where
  "mat_translate dx dy m =
     m\<lparr>m_e := m_a m * dx + m_c m * dy + m_e m, m_f := m_b m * dx + m_d m * dy + m_f m\<rparr>"

definition mat_rotate :: "real \<Rightarrow> matrix \<Rightarrow> matrix" where
  "mat_rotate angle m =
     m\<lparr>m_a := m_a m * cos angle + m_c m * sin angle,
       m_b := m_b m * cos angle + m_d m * sin angle,
       m_c := m_c m * cos angle - m_a m * sin angle,
       m_d := m_d m * cos angle - m_b m * sin angle\<rparr>"

definition mat_scale :: "real \<Rightarrow> real \<Rightarrow> matrix \<Rightarrow> matrix" where
  "mat_scale sx sy m =
     m\<lparr>m_a := m_a m * sx, m_b := m_b m * sx, m_c := m_c m * sy, m_d := m_d m * sy\<rparr>"

text \<open>What a method does with the numbers it is given: nothing unless all are finite.\<close>

fun translated :: "number \<Rightarrow> number \<Rightarrow> matrix \<Rightarrow> matrix" where
  "translated (Fin dx) (Fin dy) m = mat_translate dx dy m"
| "translated dx dy m = m"

fun rotated :: "number \<Rightarrow> matrix \<Rightarrow> matrix" where
  "rotated (Fin angle) m = mat_rotate angle m"
| "rotated angle m = m"

fun scaled :: "number \<Rightarrow> number \<Rightarrow> matrix \<Rightarrow> matrix" where
  "scaled (Fin sx) (Fin sy) m = mat_scale sx sy m"
| "scaled sx sy m = m"

fun rect_call :: "matrix \<Rightarrow> number \<Rightarrow> number \<Rightarrow> number \<Rightarrow> number \<Rightarrow> rect_path list" where
  "rect_call m (Fin rx) (Fin ry) (Fin rw) (Fin rh) = [(m, rx, ry, rw, rh)]"
| "rect_call m rx ry rw rh = []"

fun fillRect_call :: "draw_state \<Rightarrow> number \<Rightarrow> number \<Rightarrow> number \<Rightarrow> number \<Rightarrow> paint list" where
  "fillRect_call s (Fin rx) (Fin ry) (Fin rw) (Fin rh) = [FillRect s rx ry rw rh]"
| "fillRect_call s rx ry rw rh = []"

fun drawImage_call ::
  "draw_state \<Rightarrow> image \<Rightarrow> number \<Rightarrow> number \<Rightarrow> number \<Rightarrow> number \<Rightarrow> paint list" where
  "drawImage_call s img (Fin dx) (Fin dy) (Fin dw) (Fin dh) = [DrawImage s img dx dy dw dh]"
| "drawImage_call s img dx dy dw dh = []"

fun strokeText_call :: "draw_state \<Rightarrow> string \<Rightarrow> number \<Rightarrow> number \<Rightarrow> paint list" where
  "strokeText_call s txt (Fin tx) (Fin ty) = [StrokeText s txt tx ty]"
| "strokeText_call s txt tx ty = []"

fun fillText_call :: "draw_state \<Rightarrow> string \<Rightarrow> number \<Rightarrow> number \<Rightarrow> paint list" where
  "fillText_call s txt (Fin tx) (Fin ty) = [FillText s txt tx ty]"
| "fillText_call s txt tx ty = []"

definition ctx_translate :: "number \<Rightarrow> number \<Rightarrow> canvas \<Rightarrow> canvas" where
  "ctx_translate dx dy c = ctx_set (\<lambda>s. s\<lparr>transform := translated dx dy (transform s)\<rparr>) c"

definition ctx_rotate :: "number \<Rightarrow> canvas \<Rightarrow> canvas" where
  "ctx_rotate angle c = ctx_set (\<lambda>s. s\<lparr>transform := rotated angle (transform s)\<rparr>) c"

definition ctx_scale :: "number \<Rightarrow> number \<Rightarrow> canvas \<Rightarrow> canvas" where
  "ctx_scale sx sy c = ctx_set (\<lambda>s. s\<lparr>transform := scaled sx sy (transform s)\<rparr>) c"

definition ctx_beginPath :: "canvas \<Rightarrow> canvas" where
  "ctx_beginPath c = c\<lparr>path := []\<rparr>"

definition ctx_rect :: "number \<Rightarrow> number \<Rightarrow> number \<Rightarrow> number \<Rightarrow> canvas \<Rightarrow> canvas" where
  "ctx_rect rx ry rw rh c = c\<lparr>path := path c @ rect_call (transform (state c)) rx ry rw rh\<rparr>"

definition ctx_clip :: "canvas \<Rightarrow> canvas" where
  "ctx_clip c = ctx_set (\<lambda>s. s\<lparr>clip_region := clip_region s @ [path c]\<rparr>) c"

definition ctx_fillRect :: "number \<Rightarrow> number \<Rightarrow> number \<Rightarrow> number \<Rightarrow> canvas \<Rightarrow> canvas" where
  "ctx_fillRect rx ry rw rh c = c\<lparr>bitmap := bitmap c @ fillRect_call (state c) rx ry rw rh\<rparr>"

definition ctx_drawImage :: "image \<Rightarrow> number \<Rightarrow> number \<Rightarrow> number \<Rightarrow> number \<Rightarrow> canvas \<Rightarrow> canvas" where
  "ctx_drawImage img dx dy dw dh c =
     c\<lparr>bitmap := bitmap c @ drawImage_call (state c) img dx dy dw dh\<rparr>"

definition ctx_strokeText :: "string \<Rightarrow> number \<Rightarrow> number \<Rightarrow> canvas \<Rightarrow> canvas" where
  "ctx_strokeText txt tx ty c = c\<lparr>bitmap := bitmap c @ strokeText_call (state c) txt tx ty\<rparr>"

definition ctx_fillText :: "string \<Rightarrow> number \<Rightarrow> number \<Rightarrow> canvas \<Rightarrow> canvas" where
  "ctx_fillText txt tx ty c = c\<lparr>bitmap := bitmap c @ fillText_call (state c) txt tx ty\<rparr>"

section \<open>The compositor\<close>

text \<open>Steps 1 to 3 of \<^verbatim>\<open>drawCanvas\<close>: the background fill, the diagonal strip and, clipped to
  the strip, the overlay pattern.\<close>

definition drawBackground :: "CollageConfig \<Rightarrow> LoadedImages \<Rightarrow> canvas \<Rightarrow> canvas" where
  "drawBackground cfg imgs canvas =
     (let ctx = ctx_set (\<lambda>s. s\<lparr>fillStyle := bgColor1 cfg\<rparr>) canvas;
          ctx = ctx_fillRect (Fin 0) (Fin 0) (of_uint (width canvas)) (of_uint (height canvas)) ctx;
          stripAngle = ddiv (dmul (Fin (- 10)) MATH_PI) (Fin 180);
          stripHeight = Fin 300;
          stripYOffset = Fin 850;
          stripXOffset = Fin (- 100);
          ctx = ctx_save ctx;
          ctx = ctx_translate stripXOffset stripYOffset ctx;
          ctx = ctx_rotate stripAngle ctx;
          ctx = ctx_set (\<lambda>s. s\<lparr>fillStyle := bgColor2 cfg\<rparr>) ctx;
          ctx = ctx_fillRect (Fin 0) (Fin (- 200)) (Fin 1400) stripHeight ctx;
          ctx = (case overlay imgs of
                   None \<Rightarrow> ctx
                 | Some overlayImg \<Rightarrow>
                     (let ctx = ctx_beginPath ctx;
                          ctx = ctx_rect (Fin 0) (Fin (- 200)) (Fin 1400) stripHeight ctx;
                          ctx = ctx_clip ctx;
                          coverScale = dmax (ddiv (Fin 1400) (of_uint (img_width overlayImg)))
                                            (ddiv stripHeight (of_uint (img_height overlayImg)));
                          baseW = dmul (of_uint (img_width overlayImg)) coverScale;
                          baseH = dmul (of_uint (img_height overlayImg)) coverScale;
                          ctx = ctx_save ctx;
                          ctx = ctx_translate (Fin 700) (Fin (- 50)) ctx;
                          ctx = ctx_translate (t_x (overlayTransform cfg)) (t_y (overlayTransform cfg)) ctx;
                          ctx = ctx_rotate (ddiv (dmul (t_rotation (overlayTransform cfg)) MATH_PI) (Fin 180)) ctx;
                          ctx = ctx_scale (t_scale (overlayTransform cfg)) (t_scale (overlayTransform cfg)) ctx;
                          ctx = ctx_set (\<lambda>s. s\<lparr>filter_effect := ''grayscale(100%) opacity(0.5)''\<rparr>) ctx;
                          ctx = ctx_set (\<lambda>s. s\<lparr>globalCompositeOperation := ''multiply''\<rparr>) ctx;
                          ctx = ctx_drawImage overlayImg (ddiv (dneg baseW) (Fin 2)) (ddiv (dneg baseH) (Fin 2))
                                  baseW baseH ctx
                      in ctx_restore ctx))
      in ctx_restore ctx)"

text \<open>Step 4: the character.\<close>

definition drawCharacter :: "CollageConfig \<Rightarrow> LoadedImages \<Rightarrow> canvas \<Rightarrow> canvas" where
  "drawCharacter cfg imgs canvas =
     (case char imgs of
        None \<Rightarrow> canvas
      | Some charImg \<Rightarrow>
          (let margin = Fin 80;
               maxCharWidth = dsub (of_uint (width canvas)) (dmul margin (Fin 2));
               maxCharHeight = dsub (of_uint (height canvas)) (dmul margin (Fin 2));
               baseScale = dmin (ddiv maxCharWidth (of_uint (img_width charImg)))
                                (ddiv maxCharHeight (of_uint (img_height charImg)));
               baseDrawW = dmul (of_uint (img_width charImg)) baseScale;
               baseDrawH = dmul (of_uint (img_height charImg)) baseScale;
               cx = ddiv (of_uint (width canvas)) (Fin 2);
               cy = ddiv (of_uint (height canvas)) (Fin 2);
               ctx = ctx_save canvas;
               ctx = ctx_translate (dadd cx (t_x (characterTransform cfg)))
                                   (dadd cy (t_y (characterTransform cfg))) ctx;
               ctx = ctx_rotate (ddiv (dmul (t_rotation (characterTransform cfg)) MATH_PI) (Fin 180)) ctx;
               ctx = ctx_scale (t_scale (characterTransform cfg)) (t_scale (characterTransform cfg)) ctx;
               ctx = ctx_set (\<lambda>s. s\<lparr>shadowColor := ''rgba(0,0,0,0.2)''\<rparr>) ctx;
               ctx = ctx_set (\<lambda>s. s\<lparr>shadowBlur := 20\<rparr>) ctx;
               ctx = ctx_set (\<lambda>s. s\<lparr>shadowOffsetX := 5\<rparr>) ctx;
               ctx = ctx_set (\<lambda>s. s\<lparr>shadowOffsetY := 10\<rparr>) ctx;
               ctx = ctx_drawImage charImg (ddiv (dneg baseDrawW) (Fin 2)) (ddiv (dneg baseDrawH) (Fin 2))
                       baseDrawW baseDrawH ctx
           in ctx_restore ctx))"

text \<open>Step 5: the text.  A string is truthy exactly when it is not empty; the closing
  quote of a font name is written \<open>CHR 0x27\<close>.\<close>

definition drawText :: "CollageConfig \<Rightarrow> canvas \<Rightarrow> canvas" where
  "drawText cfg canvas =
     (let ctx = ctx_save canvas;
          ctx = ctx_set (\<lambda>s. s\<lparr>textAlign := ''center''\<rparr>) ctx;
          ctx = ctx_set (\<lambda>s. s\<lparr>textBaseline := ''middle''\<rparr>) ctx;
          ctx = (if furigana cfg \<noteq> []
                 then (let ctx = ctx_set (\<lambda>s. s\<lparr>font := ''bold 40px 'M PLUS Rounded 1c'' @ [CHR 0x27]\<rparr>) ctx;
                           ctx = ctx_set (\<lambda>s. s\<lparr>lineWidth := 6\<rparr>) ctx;
                           ctx = ctx_set (\<lambda>s. s\<lparr>strokeStyle := ''white''\<rparr>) ctx;
                           ctx = ctx_strokeText (furigana cfg) (ddiv (of_uint (width canvas)) (Fin 2)) (Fin 80) ctx;
                           ctx = ctx_set (\<lambda>s. s\<lparr>fillStyle := ''#555''\<rparr>) ctx
                       in ctx_fillText (furigana cfg) (ddiv (of_uint (width canvas)) (Fin 2)) (Fin 80) ctx)
                 else ctx);
          ctx = (if name cfg \<noteq> []
                 then (let ctx = ctx_set (\<lambda>s. s\<lparr>font := ''800 120px 'M PLUS Rounded 1c'' @ [CHR 0x27]\<rparr>) ctx;
                           ctx = ctx_set (\<lambda>s. s\<lparr>lineWidth := 15\<rparr>) ctx;
                           ctx = ctx_set (\<lambda>s. s\<lparr>strokeStyle := ''white''\<rparr>) ctx;
                           ctx = ctx_set (\<lambda>s. s\<lparr>lineJoin := ''round''\<rparr>) ctx;
                           ctx = ctx_strokeText (name cfg) (ddiv (of_uint (width canvas)) (Fin 2)) (Fin 180) ctx;
                           ctx = ctx_set (\<lambda>s. s\<lparr>fillStyle := ''#333''\<rparr>) ctx
                       in ctx_fillText (name cfg) (ddiv (of_uint (width canvas)) (Fin 2)) (Fin 180) ctx)
                 else ctx)
      in ctx_restore ctx)"

text \<open>\<^verbatim>\<open>drawCanvas\<close>: nothing happens without a mounted canvas or without a 2D context.\<close>

definition drawCanvas :: "app_state \<Rightarrow> app_state" where
  "drawCanvas st =
     (case canvasRef st of
        None \<Rightarrow> st
      | Some canvas \<Rightarrow>
          if \<not> has_context canvas then st
          else (let canvas = set_width 900 canvas;
                    canvas = set_height 1200 canvas;
                    canvas = drawBackground (config st) (loadedImages st) canvas;
                    canvas = drawCharacter (config st) (loadedImages st) canvas;
                    canvas = drawText (config st) canvas
                in st\<lparr>canvasRef := Some canvas\<rparr>))"

section \<open>Effects and the event loop\<close>

text \<open>
  The two image-loading effects run when \<^verbatim>\<open>config.characterImage\<close> (\<^verbatim>\<open>config.overlayImage\<close>)
  changes: without a file the decoded image is cleared at once; with a file a decode is
  started, and its completion installs the image only while that file is still the
  selected one (the \<^verbatim>\<open>active\<close> flag).
\<close>

definition imageEffects :: "app_state \<Rightarrow> app_state \<Rightarrow> app_state" where
  "imageEffects old st =
     (let st1 = (if characterImage (config st) \<noteq> characterImage (config old)
                   \<and> characterImage (config st) = None
                 then st\<lparr>loadedImages := (loadedImages st)\<lparr>char := None\<rparr>\<rparr> else st);
          st2 = (if overlayImage (config st1) \<noteq> overlayImage (config old)
                   \<and> overlayImage (config st1) = None
                 then st1\<lparr>loadedImages := (loadedImages st1)\<lparr>overlay := None\<rparr>\<rparr> else st1)
      in st2)"

definition charImageLoaded :: "image \<Rightarrow> app_state \<Rightarrow> app_state" where
  "charImageLoaded img st =
     (if characterImage (config st) = Some (img_src img)
      then st\<lparr>loadedImages := (loadedImages st)\<lparr>char := Some img\<rparr>\<rparr> else st)"

definition overlayImageLoaded :: "image \<Rightarrow> app_state \<Rightarrow> app_state" where
  "overlayImageLoaded img st =
     (if overlayImage (config st) = Some (img_src img)
      then st\<lparr>loadedImages := (loadedImages st)\<lparr>overlay := Some img\<rparr>\<rparr> else st)"

text \<open>Everything that can happen to the mounted component: the call sites of the handlers
  in the JSX and the completions of the two decodes.\<close>

datatype event =
  InputChange field_value
| FileUpload "file_resource list option" image_field
| TransformChange target transform_key number
| ResetTransform target
| MouseDown pointer_event
| MouseMove pointer_event
| MouseUp
| MouseLeave
| TouchStart pointer_event
| TouchMove pointer_event
| TouchEnd
| CharImageLoaded image
| OverlayImageLoaded image

fun handle :: "event \<Rightarrow> app_state \<Rightarrow> error + app_state" where
  "handle (InputChange fv) st = Inr (handleInputChange fv st)"
| "handle (FileUpload files field) st = Inr (handleFileUpload files field st)"
| "handle (TransformChange tg key v) st = Inr (handleTransformChange tg key v st)"
| "handle (ResetTransform tg) st = Inr (resetTransform tg st)"
| "handle (MouseDown e) st = handleMouseDown e st"
| "handle (MouseMove e) st = handleMouseMove e st"
| "handle MouseUp st = Inr (handleMouseUp st)"
| "handle MouseLeave st = Inr (handleMouseUp st)"
| "handle (TouchStart e) st = handleMouseDown e st"
| "handle (TouchMove e) st = handleMouseMove e st"
| "handle TouchEnd st = Inr (handleMouseUp st)"
| "handle (CharImageLoaded img) st = Inr (charImageLoaded img st)"
| "handle (OverlayImageLoaded img) st = Inr (overlayImageLoaded img st)"

text \<open>One turn of the event loop: the handler, then the effects.  A handler that throws
  has set no state.  \<^verbatim>\<open>drawCanvas\<close> is re-run whenever \<^verbatim>\<open>config\<close> or \<^verbatim>\<open>loadedImages\<close> was
  replaced; replacing either by an equal value redraws the bitmap that is already there,
  so the model redraws when the value has changed.\<close>

definition dispatch :: "event \<Rightarrow> app_state \<Rightarrow> app_state" where
  "dispatch ev st =
     (case handle ev st of
        Inl err \<Rightarrow> st
      | Inr st1 \<Rightarrow>
          (let st2 = imageEffects st st1
           in if config st2 \<noteq> config st \<or> loadedImages st2 \<noteq> loadedImages st
              then drawCanvas st2 else st2))"

fun run :: "event list \<Rightarrow> app_state \<Rightarrow> app_state" where
  "run [] st = st"
| "run (ev # evs) st = run evs (dispatch ev st)"

text \<open>The state after mounting: the \<^verbatim>\<open>useState\<close> initial values and the first render onto the
  canvas element.  The two default strings are the UTF-8 bytes of the Japanese
  placeholders.\<close>

definition initial_config :: CollageConfig where
  "initial_config =
     \<lparr>name = [CHR 0xE3, CHR 0x81, CHR 0xAA, CHR 0xE3, CHR 0x81, CHR 0xBE, CHR 0xE3, CHR 0x81, CHR 0x88],
      furigana = [CHR 0xE3, CHR 0x83, CHR 0x95, CHR 0xE3, CHR 0x83, CHR 0xAA,
                  CHR 0xE3, CHR 0x82, CHR 0xAC, CHR 0xE3, CHR 0x83, CHR 0x8A],
      bgColor1 = ''#ffffff'',
      bgColor2 = ''#fecdd3'',
      characterImage = None,
      overlayImage = None,
      characterTransform = INITIAL_TRANSFORM,
      overlayTransform = INITIAL_TRANSFORM\<rparr>"

definition initial_state :: "canvas \<Rightarrow> app_state" where
  "initial_state canvas =
     drawCanvas
       \<lparr>config = initial_config,
        loadedImages = \<lparr>char = None, overlay = None\<rparr>,
        isDragging = False,
        dragStart = (Fin 0, Fin 0),
        initialDragTransform = (Fin 0, Fin 0),
        isHoveringChar = False,
        canvasRef = Some canvas\<rparr>"

section \<open>The pipeline as a list of layers\<close>

text \<open>
  The ordered pipeline of the compositor, written as the list of drawing calls it amounts
  to on a freshly reset 900 by 1200 canvas: background fill, accent band, pattern layer,
  portrait layer, text layer.  Each call is listed with the drawing state it is made in.
  These definitions are the reference the imperative \<open>drawCanvas\<close> is compared with.
\<close>

definition stripAngle :: number where
  "stripAngle = ddiv (dmul (Fin (- 10)) MATH_PI) (Fin 180)"

definition strip_matrix :: matrix where
  "strip_matrix = rotated stripAngle (mat_translate (- 100) 850 identity_matrix)"

definition base_state :: "CollageConfig \<Rightarrow> draw_state" where
  "base_state cfg = default_draw_state\<lparr>fillStyle := bgColor1 cfg\<rparr>"

definition band_state :: "CollageConfig \<Rightarrow> draw_state" where
  "band_state cfg = default_draw_state\<lparr>transform := strip_matrix, fillStyle := bgColor2 cfg\<rparr>"

definition background_fill :: "CollageConfig \<Rightarrow> paint list" where
  "background_fill cfg = [FillRect (base_state cfg) 0 0 900 1200]"

definition accent_band :: "CollageConfig \<Rightarrow> paint list" where
  "accent_band cfg = [FillRect (band_state cfg) 0 (- 200) 1400 300]"

definition band_rect :: rect_path where
  "band_rect = (strip_matrix, 0, - 200, 1400, 300)"

text \<open>The base-fit scale of an image of natural size \<open>w\<close> by \<open>h\<close>,
  \<^verbatim>\<open>min((900 - 160) / w, (1200 - 160) / h)\<close>, as the program computes it.\<close>

definition baseScale_of :: "nat \<Rightarrow> nat \<Rightarrow> number" where
  "baseScale_of w h = dmin (ddiv (Fin 740) (of_uint w)) (ddiv (Fin 1040) (of_uint h))"

definition pattern_layer :: "CollageConfig \<Rightarrow> LoadedImages \<Rightarrow> paint list" where
  "pattern_layer cfg imgs =
     (case overlay imgs of
        None \<Rightarrow> []
      | Some img \<Rightarrow>
          (let coverScale = dmax (ddiv (Fin 1400) (of_uint (img_width img)))
                                 (ddiv (Fin 300) (of_uint (img_height img)));
               baseW = dmul (of_uint (img_width img)) coverScale;
               baseH = dmul (of_uint (img_height img)) coverScale;
               t = overlayTransform cfg
           in drawImage_call
                 ((band_state cfg)
                    \<lparr>clip_region := [[band_rect]],
                     transform := scaled (t_scale t) (t_scale t)
                                   (rotated (ddiv (dmul (t_rotation t) MATH_PI) (Fin 180))
                                      (translated (t_x t) (t_y t)
                                         (mat_translate 700 (- 50) strip_matrix))),
                     filter_effect := ''grayscale(100%) opacity(0.5)'',
                     globalCompositeOperation := ''multiply''\<rparr>)
                 img (ddiv (dneg baseW) (Fin 2)) (ddiv (dneg baseH) (Fin 2)) baseW baseH))"

definition portrait_layer :: "CollageConfig \<Rightarrow> LoadedImages \<Rightarrow> paint list" where
  "portrait_layer cfg imgs =
     (case char imgs of
        None \<Rightarrow> []
      | Some img \<Rightarrow>
          (let baseScale = baseScale_of (img_width img) (img_height img);
               baseDrawW = dmul (of_uint (img_width img)) baseScale;
               baseDrawH = dmul (of_uint (img_height img)) baseScale;
               t = characterTransform cfg
           in drawImage_call
                 ((base_state cfg)
                    \<lparr>transform := scaled (t_scale t) (t_scale t)
                                   (rotated (ddiv (dmul (t_rotation t) MATH_PI) (Fin 180))
                                      (translated (dadd (Fin 450) (t_x t)) (dadd (Fin 600) (t_y t))
                                         identity_matrix)),
                     shadowColor := ''rgba(0,0,0,0.2)'',
                     shadowBlur := 20,
                     shadowOffsetX := 5,
                     shadowOffsetY := 10\<rparr>)
                 img (ddiv (dneg baseDrawW) (Fin 2)) (ddiv (dneg baseDrawH) (Fin 2))
                 baseDrawW baseDrawH))"

definition text_state :: "CollageConfig \<Rightarrow> draw_state" where
  "text_state cfg = (base_state cfg)\<lparr>textAlign := ''center'', textBaseline := ''middle''\<rparr>"

definition furigana_state :: "CollageConfig \<Rightarrow> draw_state" where
  "furigana_state cfg =
     (text_state cfg)\<lparr>font := ''bold 40px 'M PLUS Rounded 1c'' @ [CHR 0x27],
                       lineWidth := 6, strokeStyle := ''white''\<rparr>"

definition furigana_text :: "CollageConfig \<Rightarrow> paint list" where
  "furigana_text cfg =
     (if furigana cfg = [] then []
      else [StrokeText (furigana_state cfg) (furigana cfg) 450 80,
            FillText ((furigana_state cfg)\<lparr>fillStyle := ''#555''\<rparr>) (furigana cfg) 450 80])"

definition name_state :: "CollageConfig \<Rightarrow> draw_state" where
  "name_state cfg =
     (if furigana cfg = [] then text_state cfg else (furigana_state cfg)\<lparr>fillStyle := ''#555''\<rparr>)
       \<lparr>font := ''800 120px 'M PLUS Rounded 1c'' @ [CHR 0x27],
        lineWidth := 15, strokeStyle := ''white'', lineJoin := ''round''\<rparr>"

definition name_text :: "CollageConfig \<Rightarrow> paint list" where
  "name_text cfg =
     (if name cfg = [] then []
      else [StrokeText (name_state cfg) (name cfg) 450 180,
            FillText ((name_state cfg)\<lparr>fillStyle := ''#333''\<rparr>) (name cfg) 450 180])"

definition text_layer :: "CollageConfig \<Rightarrow> paint list" where
  "text_layer cfg = furigana_text cfg @ name_text cfg"

definition collage :: "CollageConfig \<Rightarrow> LoadedImages \<Rightarrow> paint list" where
  "collage cfg imgs =
     background_fill cfg @ accent_band cfg @ pattern_layer cfg imgs
       @ portrait_layer cfg imgs @ text_layer cfg"

definition raster :: "app_state \<Rightarrow> (nat \<times> nat \<times> paint list) option" where
  "raster st = map_option (\<lambda>c. (width c, height c, bitmap c)) (canvasRef st)"

text \<open>The hit box as the program computes it: the four edges \<open>(left, right, top, bottom)\<close>
  of the box of width \<^verbatim>\<open>w * baseScale * scale\<close> and height \<^verbatim>\<open>h * baseScale * scale\<close> centred at
  \<^verbatim>\<open>(450 + x, 600 + y)\<close>, every operation rounded.\<close>

definition hit_box :: "ImageTransform \<Rightarrow> image \<Rightarrow> number \<times> number \<times> number \<times> number" where
  "hit_box t img =
     (let s = baseScale_of (img_width img) (img_height img);
          displayW = dmul (dmul (of_uint (img_width img)) s) (t_scale t);
          displayH = dmul (dmul (of_uint (img_height img)) s) (t_scale t);
          cx = dadd (Fin 450) (t_x t);
          cy = dadd (Fin 600) (t_y t)
      in (dsub cx (ddiv displayW (Fin 2)), dadd cx (ddiv displayW (Fin 2)),
          dsub cy (ddiv displayH (Fin 2)), dadd cy (ddiv displayH (Fin 2))))"

definition in_hit_box :: "number \<times> number \<Rightarrow> number \<times> number \<times> number \<times> number \<Rightarrow> bool" where
  "in_hit_box p box =
     (case box of (x_left, x_right, y_top, y_bottom) \<Rightarrow>
        dge (fst p) x_left \<and> dle (fst p) x_right \<and> dge (snd p) y_top \<and> dle (snd p) y_bottom)"

text \<open>The same box in exact arithmetic: the box of width \<open>bw\<close> and height \<open>bh\<close> centred at
  \<open>c\<close>, sides parallel to the axes, border included; and the exact base-fit scale.\<close>

definition in_centered_box :: "real \<times> real \<Rightarrow> real \<times> real \<Rightarrow> real \<Rightarrow> real \<Rightarrow> bool" where
  "in_centered_box p c bw bh \<longleftrightarrow> \<bar>fst p - fst c\<bar> \<le> bw / 2 \<and> \<bar>snd p - snd c\<bar> \<le> bh / 2"

definition baseScale_exact :: "real \<Rightarrow> real \<Rightarrow> real" where
  "baseScale_exact w h = min ((900 - 160) / w) ((1200 - 160) / h)"

section \<open>Observations and invariants\<close>

text \<open>What is painted on the canvas of a state (nothing without a canvas).\<close>

definition painted :: "app_state \<Rightarrow> paint list" where
  "painted st = (case canvasRef st of None \<Rightarrow> [] | Some c \<Rightarrow> bitmap c)"

text \<open>The text-drawing calls, and the \<^verbatim>\<open>textBaseline\<close> each of them is made with.\<close>

fun is_text :: "paint \<Rightarrow> bool" where
  "is_text (StrokeText s txt tx ty) = True"
| "is_text (FillText s txt tx ty) = True"
| "is_text (FillRect s rx ry rw rh) = False"
| "is_text (DrawImage s img dx dy dw dh) = False"

fun text_baselines :: "paint list \<Rightarrow> string list" where
  "text_baselines [] = []"
| "text_baselines (StrokeText s txt tx ty # ops) = textBaseline s # text_baselines ops"
| "text_baselines (FillText s txt tx ty # ops) = textBaseline s # text_baselines ops"
| "text_baselines (FillRect s rx ry rw rh # ops) = text_baselines ops"
| "text_baselines (DrawImage s img dx dy dw dh # ops) = text_baselines ops"

text \<open>The translation that moves the origin to the centre of the canvas.\<close>

definition centered_translation :: matrix where
  "centered_translation = \<lparr>m_a = 1, m_b = 0, m_c = 0, m_d = 1, m_e = 450, m_f = 600\<rparr>"

text \<open>The bitmap of a canvas that \<open>drawCanvas\<close> can draw on has the size \<open>drawCanvas\<close>
  gives it.  This holds after mounting and after every event.\<close>

definition canvas_sized :: "app_state \<Rightarrow> bool" where
  "canvas_sized st =
     (case canvasRef st of
        None \<Rightarrow> True
      | Some c \<Rightarrow> \<not> has_context c \<or> (width c = 900 \<and> height c = 1200))"

text \<open>The invariant of the drag controller: a drag is in progress only over a decoded
  character image, and a decoded character image comes from a selected file.\<close>

definition drag_inv :: "app_state \<Rightarrow> bool" where
  "drag_inv st \<longleftrightarrow>
     (\<not> isDragging st \<or> char (loadedImages st) \<noteq> None)
     \<and> (char (loadedImages st) = None \<or> characterImage (config st) \<noteq> None)"

fun is_pointer_event :: "event \<Rightarrow> bool" where
  "is_pointer_event (MouseDown e) = True"
| "is_pointer_event (MouseMove e) = True"
| "is_pointer_event MouseUp = True"
| "is_pointer_event MouseLeave = True"
| "is_pointer_event (TouchStart e) = True"
| "is_pointer_event (TouchMove e) = True"
| "is_pointer_event TouchEnd = True"
| "is_pointer_event ev = False"

section \<open>Example states\<close>

text \<open>A canvas shown at half its internal resolution, a decoded 200 by 300 portrait, and
  a state of the component holding both.\<close>

definition example_canvas :: canvas where
  "example_canvas =
     \<lparr>width = 900, height = 1200, rect_left = Fin 10, rect_top = Fin 20, rect_width = Fin 450,
      rect_height = Fin 600, has_context = True, state = default_draw_state, saved = [],
      path = [], bitmap = []\<rparr>"

definition example_image :: image where
  "example_image = \<lparr>img_width = 200, img_height = 300, img_src = File ''portrait.png''\<rparr>"

definition example_state :: app_state where
  "example_state =
     \<lparr>config = initial_config\<lparr>characterImage := Some (File ''portrait.png''),
                               characterTransform :=
                                 \<lparr>t_x = Fin 100, t_y = Fin 0, t_scale = Fin 1, t_rotation = Fin 0\<rparr>\<rparr>,
      loadedImages = \<lparr>char = Some example_image, overlay = None\<rparr>,
      isDragging = False,
      dragStart = (Fin 0, Fin 0),
      initialDragTransform = (Fin 0, Fin 0),
      isHoveringChar = False,
      canvasRef = Some example_canvas\<rparr>"

text \<open>A canvas that has been used before: another size, a changed drawing state, a saved
  state and something painted.  And the example state before any image is decoded.\<close>

definition example_canvas_used :: canvas where
  "example_canvas_used =
     \<lparr>width = 300, height = 150, rect_left = Fin 0, rect_top = Fin 0, rect_width = Fin 300,
      rect_height = Fin 400, has_context = True,
      state = default_draw_state\<lparr>fillStyle := ''#123456'', lineWidth := 3\<rparr>,
      saved = [default_draw_state], path = [],
      bitmap = [FillRect default_draw_state 1 2 3 4]\<rparr>"

definition example_state_no_image :: app_state where
  "example_state_no_image = example_state\<lparr>loadedImages := \<lparr>char = None, overlay = None\<rparr>\<rparr>"

text \<open>The example state with the identity transform and another decoded portrait: a
  2736 by 3648 photograph, and a 1440 by 1800 scan.\<close>

definition example_photo :: image where
  "example_photo = \<lparr>img_width = 2736, img_height = 3648, img_src = File ''photo.jpg''\<rparr>"

definition example_scan :: image where
  "example_scan = \<lparr>img_width = 1440, img_height = 1800, img_src = File ''scan.png''\<rparr>"

definition example_state_with :: "image \<Rightarrow> app_state" where
  "example_state_with img =
     example_state\<lparr>config := (config example_state)\<lparr>characterTransform := INITIAL_TRANSFORM\<rparr>,
                   loadedImages := \<lparr>char = Some img, overlay = None\<rparr>\<rparr>"

text \<open>The example canvas with its left edge at the double \<open>0.1\<close>.\<close>

definition example_canvas_offset :: canvas where
  "example_canvas_offset = example_canvas\<lparr>rect_left := Fin (3602879701896397 / 36028797018963968)\<rparr>"

text \<open>The example canvas shown 700 wide at the origin of the viewport, and the example
  state on that canvas.\<close>

definition example_canvas_700 :: canvas where
  "example_canvas_700 =
     example_canvas\<lparr>rect_left := Fin 0, rect_top := Fin 0, rect_width := Fin 700,
                    rect_height := Fin 1200\<rparr>"

definition example_state_700 :: app_state where
  "example_state_700 = example_state\<lparr>canvasRef := Some example_canvas_700\<rparr>"

section \<open>Rounding\<close>

lemma rnd_int [simp]: "rnd (of_int n) = n"
  by (simp add: rnd_def)

lemma rnd_floor_ceiling: "\<lfloor>r\<rfloor> \<le> rnd r" "rnd r \<le> \<lfloor>r\<rfloor> + 1"
  by (auto simp add: rnd_def Let_def)

lemma rnd_bounds: "of_int (rnd r) \<le> r + 1 / 2" "r - 1 / 2 \<le> of_int (rnd r)"
proof -
  have "of_int \<lfloor>r\<rfloor> \<le> r" "r < of_int \<lfloor>r\<rfloor> + 1" by linarith+
  then show "of_int (rnd r) \<le> r + 1 / 2" "r - 1 / 2 \<le> of_int (rnd r)"
    unfolding rnd_def Let_def by (simp_all split: if_splits) linarith+
qed

lemma rnd_err: "\<bar>of_int (rnd r) - r\<bar> \<le> 1 / 2"
  using rnd_bounds [of r] by linarith

lemma rnd_ge_int: "of_int n \<le> r \<Longrightarrow> n \<le> rnd r"
  using rnd_floor_ceiling(1) [of r] by (meson le_floor_iff order_trans)

lemma rnd_le_int: "r \<le> of_int n \<Longrightarrow> rnd r \<le> n"
proof (cases "r = of_int n")
  case True
  then show ?thesis by simp
next
  case False
  assume "r \<le> of_int n"
  with False have "r < of_int n" by simp
  then have "\<lfloor>r\<rfloor> < n" by (simp add: floor_less_iff)
  then show ?thesis using rnd_floor_ceiling(2) [of r] by linarith
qed

lemma rnd_mono: "r \<le> s \<Longrightarrow> rnd r \<le> rnd s"
proof (cases "\<lfloor>r\<rfloor> = \<lfloor>s\<rfloor>")
  case True
  assume "r \<le> s"
  then show ?thesis using True by (auto simp add: rnd_def Let_def)
next
  case False
  assume "r \<le> s"
  then have "\<lfloor>r\<rfloor> \<le> \<lfloor>s\<rfloor>" by (rule floor_mono)
  with False have "\<lfloor>r\<rfloor> + 1 \<le> \<lfloor>s\<rfloor>" by simp
  then show ?thesis using rnd_floor_ceiling(2) [of r] rnd_floor_ceiling(1) [of s] by linarith
qed

lemma rnd_minus: "rnd (- r) = - rnd r"
proof (cases "r = of_int \<lfloor>r\<rfloor>")
  case True
  then have "- r = of_int (- \<lfloor>r\<rfloor>)" by simp
  then have "rnd (- r) = - \<lfloor>r\<rfloor>" by (metis rnd_int)
  moreover have "rnd r = \<lfloor>r\<rfloor>" using True by (metis rnd_int)
  ultimately show ?thesis by simp
next
  case False
  then have lt: "of_int \<lfloor>r\<rfloor> < r" by (metis of_int_floor_le order_le_less)
  have f: "\<lfloor>- r\<rfloor> = - \<lfloor>r\<rfloor> - 1"
  proof (rule floor_unique)
    show "of_int (- \<lfloor>r\<rfloor> - 1) \<le> - r" by simp linarith
    show "- r < of_int (- \<lfloor>r\<rfloor> - 1) + 1" using lt by simp
  qed
  have e: "even (- \<lfloor>r\<rfloor> - 1) \<longleftrightarrow> odd \<lfloor>r\<rfloor>" by simp
  show ?thesis
    unfolding rnd_def Let_def f e using lt by (simp split: if_splits)
qed

lemma pow2_pos [simp]: "0 < (2::real) powi k"
  by (simp add: power_int_def)

lemma pow2_powr: "(2::real) powr real_of_int k = 2 powi k"
  by (simp add: powr_real_of_int')

lemma pow2_mono: "j \<le> k \<Longrightarrow> (2::real) powi j \<le> 2 powi k"
  by (simp add: power_int_increasing)

lemma pow2_add: "(2::real) powi (j + k) = 2 powi j * 2 powi k"
  by (simp add: power_int_add)

lemma pow2_diff: "(2::real) powi (j - k) = 2 powi j / 2 powi k"
  by (simp add: power_int_diff)

lemma floor_log2:
  assumes "x \<noteq> 0"
  shows "2 powi \<lfloor>log 2 \<bar>x\<bar>\<rfloor> \<le> \<bar>x\<bar>" "\<bar>x\<bar> < 2 powi (\<lfloor>log 2 \<bar>x\<bar>\<rfloor> + 1)"
proof -
  have "0 < \<bar>x\<bar>" using assms by simp
  then have "2 powr real_of_int \<lfloor>log 2 \<bar>x\<bar>\<rfloor> \<le> \<bar>x\<bar> \<and> \<bar>x\<bar> < 2 powr real_of_int (\<lfloor>log 2 \<bar>x\<bar>\<rfloor> + 1)"
    using floor_log_eq_powr_iff [of "\<bar>x\<bar>" 2 "\<lfloor>log 2 \<bar>x\<bar>\<rfloor>"] by simp
  then show "2 powi \<lfloor>log 2 \<bar>x\<bar>\<rfloor> \<le> \<bar>x\<bar>" "\<bar>x\<bar> < 2 powi (\<lfloor>log 2 \<bar>x\<bar>\<rfloor> + 1)"
    by (simp_all only: pow2_powr)
qed

lemma floor_log2_eq:
  assumes "2 powi e \<le> \<bar>x\<bar>" "\<bar>x\<bar> < 2 powi (e + 1)"
  shows "\<lfloor>log 2 \<bar>x\<bar>\<rfloor> = e"
proof -
  have "0 < \<bar>x\<bar>" using assms(1) pow2_pos [of e] by linarith
  moreover have "2 powr real_of_int e \<le> \<bar>x\<bar>" "\<bar>x\<bar> < 2 powr (real_of_int e + 1)"
    using assms pow2_powr [of e] pow2_powr [of "e + 1"] by simp_all
  ultimately show ?thesis
    using floor_log_eq_powr_iff [of "\<bar>x\<bar>" 2 e] by simp
qed

lemma expo_eq:
  assumes "2 powi e \<le> \<bar>x\<bar>" "\<bar>x\<bar> < 2 powi (e + 1)" "- 1022 \<le> e"
  shows "expo x = e"
  using floor_log2_eq [OF assms(1,2)] assms(3) by (simp add: expo_def)

lemma expo_ge: "- 1022 \<le> expo x"
  by (simp add: expo_def)

lemma expo_upper: "x \<noteq> 0 \<Longrightarrow> \<bar>x\<bar> < 2 powi (expo x + 1)"
proof -
  assume "x \<noteq> 0"
  then have "\<bar>x\<bar> < 2 powi (\<lfloor>log 2 \<bar>x\<bar>\<rfloor> + 1)" by (rule floor_log2(2))
  also have "\<dots> \<le> 2 powi (expo x + 1)" by (rule pow2_mono) (simp add: expo_def)
  finally show ?thesis .
qed

lemma expo_lower: "2 powi (- 1022) \<le> \<bar>x\<bar> \<Longrightarrow> 2 powi (expo x) \<le> \<bar>x\<bar>"
proof -
  assume a: "2 powi (- 1022) \<le> \<bar>x\<bar>"
  then have nz: "x \<noteq> 0" using pow2_pos [of "- 1022"] by auto
  show ?thesis
  proof (cases "\<lfloor>log 2 \<bar>x\<bar>\<rfloor> \<le> - 1022")
    case True
    then have "expo x = - 1022" by (simp add: expo_def)
    then show ?thesis using a by simp
  next
    case False
    then have "expo x = \<lfloor>log 2 \<bar>x\<bar>\<rfloor>" by (simp add: expo_def)
    then show ?thesis using floor_log2(1) [OF nz] by simp
  qed
qed

lemma expo_lower': "x \<noteq> 0 \<Longrightarrow> - 1022 < expo x \<Longrightarrow> 2 powi (expo x) \<le> \<bar>x\<bar>"
proof -
  assume nz: "x \<noteq> 0" and a: "- 1022 < expo x"
  then have e: "expo x = \<lfloor>log 2 \<bar>x\<bar>\<rfloor>" by (simp add: expo_def max_def split: if_splits)
  show ?thesis using floor_log2(1) [OF nz] e by simp
qed

lemma expo_minus [simp]: "expo (- x) = expo x"
  by (simp add: expo_def)

lemma expo_mono:
  assumes "x \<noteq> 0" "\<bar>x\<bar> \<le> \<bar>y\<bar>"
  shows "expo x \<le> expo y"
proof -
  have "0 < \<bar>x\<bar>" using assms(1) by simp
  then have "log 2 \<bar>x\<bar> \<le> log 2 \<bar>y\<bar>" using assms(2) by simp
  then have "\<lfloor>log 2 \<bar>x\<bar>\<rfloor> \<le> \<lfloor>log 2 \<bar>y\<bar>\<rfloor>" by (rule floor_mono)
  then show ?thesis by (simp add: expo_def)
qed

lemma fl_0 [simp]: "fl 0 = 0"
  by (simp add: fl_def)

lemma fl_minus: "fl (- x) = - fl x"
  by (simp add: fl_def rnd_minus)

lemma fl_eval:
  assumes "2 powi e \<le> \<bar>x\<bar>" "\<bar>x\<bar> < 2 powi (e + 1)" "- 1022 \<le> e"
  shows "fl x = of_int (rnd (x / 2 powi (e - 52))) * 2 powi (e - 52)"
proof -
  have "0 < \<bar>x\<bar>" using assms(1) pow2_pos [of e] by linarith
  then have "x \<noteq> 0" by auto
  then show ?thesis by (simp add: fl_def expo_eq [OF assms])
qed

lemma fl_eval_sub:
  assumes "x \<noteq> 0" "\<bar>x\<bar> < 2 powi (- 1022)"
  shows "fl x = of_int (rnd (x / 2 powi (- 1074))) * 2 powi (- 1074)"
proof -
  have "\<lfloor>log 2 \<bar>x\<bar>\<rfloor> < - 1022"
  proof (rule ccontr)
    assume "\<not> \<lfloor>log 2 \<bar>x\<bar>\<rfloor> < - 1022"
    then have "2 powi (- 1022) \<le> (2::real) powi \<lfloor>log 2 \<bar>x\<bar>\<rfloor>" by (intro pow2_mono) simp
    then show False using floor_log2(1) [OF assms(1)] assms(2) by linarith
  qed
  then have "expo x = - 1022" by (simp add: expo_def)
  then show ?thesis using assms(1) by (simp add: fl_def)
qed

lemma fl_exact:
  assumes "\<bar>m\<bar> < 2 ^ 53" "- 1074 \<le> k"
  shows "fl (of_int m * 2 powi k) = of_int m * 2 powi k"
proof (cases "m = 0")
  case True
  then show ?thesis by simp
next
  case False
  let ?x = "of_int m * (2::real) powi k"
  have nz: "?x \<noteq> 0" using False by simp
  have "\<bar>?x\<bar> = of_int \<bar>m\<bar> * 2 powi k" by (simp add: abs_mult)
  also have "\<dots> < 2 ^ 53 * 2 powi k"
    using assms(1) by (simp add: of_int_less_numeral_power_cancel_iff [symmetric] del: of_int_less_numeral_power_cancel_iff)
  finally have up: "\<bar>?x\<bar> < 2 powi (53 + k)" by (simp add: pow2_add)
  have "\<lfloor>log 2 \<bar>?x\<bar>\<rfloor> < 53 + k"
  proof (rule ccontr)
    assume "\<not> \<lfloor>log 2 \<bar>?x\<bar>\<rfloor> < 53 + k"
    then have "(2::real) powi (53 + k) \<le> 2 powi \<lfloor>log 2 \<bar>?x\<bar>\<rfloor>" by (intro pow2_mono) simp
    then show False using floor_log2(1) [OF nz] up by linarith
  qed
  then have le: "expo ?x - 52 \<le> k" using assms(2) by (simp add: expo_def)
  define j where "j = nat (k - (expo ?x - 52))"
  have k: "k = (expo ?x - 52) + int j" using le by (simp add: j_def)
  have "?x / 2 powi (expo ?x - 52) = of_int m * 2 ^ j"
    by (subst k) (simp add: pow2_add)
  also have "\<dots> = of_int (m * 2 ^ j)" by simp
  finally have "rnd (?x / 2 powi (expo ?x - 52)) = m * 2 ^ j" by (simp only: rnd_int)
  then have "fl ?x = of_int (m * 2 ^ j) * 2 powi (expo ?x - 52)"
    using nz by (simp add: fl_def)
  also have "\<dots> = of_int m * (2 powi int j * 2 powi (expo ?x - 52))" by simp
  also have "\<dots> = of_int m * 2 powi (int j + (expo ?x - 52))" by (simp only: pow2_add)
  also have "int j + (expo ?x - 52) = k" using k by simp
  finally show ?thesis .
qed

lemma fl_int: "\<bar>n\<bar> < 2 ^ 53 \<Longrightarrow> fl (of_int n) = of_int n"
  using fl_exact [of n 0] by simp

lemma fl_upper:
  assumes "0 < x"
  shows "fl x \<le> 2 powi (expo x + 1)"
proof -
  let ?u = "(2::real) powi (expo x - 52)"
  have "x < 2 powi (expo x + 1)" using expo_upper [of x] assms by simp
  also have "(2::real) powi (expo x + 1) = 2 ^ 53 * ?u"
    using pow2_add [of 53 "expo x - 52"] by (simp add: add.commute)
  finally have "x / ?u \<le> of_int (2 ^ 53)" by (simp add: pos_divide_le_eq)
  then have "rnd (x / ?u) \<le> 2 ^ 53" by (rule rnd_le_int)
  then have "of_int (rnd (x / ?u)) * ?u \<le> of_int (2 ^ 53) * ?u"
    by (intro mult_right_mono) (simp_all only: of_int_le_iff, simp)
  also have "of_int (2 ^ 53) * ?u = 2 powi (expo x + 1)"
    using pow2_add [of 53 "expo x - 52"] by (simp add: add.commute)
  finally show ?thesis using assms by (simp add: fl_def)
qed

lemma fl_lower:
  assumes "0 < x" "2 powi (expo x) \<le> x"
  shows "2 powi (expo x) \<le> fl x"
proof -
  let ?u = "(2::real) powi (expo x - 52)"
  have e: "(2::real) powi (expo x) = 2 ^ 52 * ?u"
    using pow2_add [of 52 "expo x - 52"] by simp
  have "of_int (2 ^ 52) \<le> x / ?u" using assms(2) by (simp add: e pos_le_divide_eq)
  then have "2 ^ 52 \<le> rnd (x / ?u)" by (rule rnd_ge_int)
  then have "of_int (2 ^ 52) * ?u \<le> of_int (rnd (x / ?u)) * ?u"
    by (intro mult_right_mono) (simp_all only: of_int_le_iff, simp)
  then show ?thesis using assms(1) by (simp add: fl_def e)
qed

lemma fl_nonneg: "0 \<le> x \<Longrightarrow> 0 \<le> fl x"
proof (cases "x = 0")
  case True
  then show ?thesis by simp
next
  case False
  assume "0 \<le> x"
  then have "of_int 0 \<le> x / 2 powi (expo x - 52)" by simp
  then have "0 \<le> rnd (x / 2 powi (expo x - 52))" by (rule rnd_ge_int)
  then show ?thesis using False by (simp add: fl_def)
qed

lemma fl_mono_pos:
  assumes "0 < x" "x \<le> y"
  shows "fl x \<le> fl y"
proof -
  have y: "0 < y" using assms by simp
  have le: "expo x \<le> expo y" using expo_mono [of x y] assms by simp
  show ?thesis
  proof (cases "expo x = expo y")
    case True
    have "x / 2 powi (expo y - 52) \<le> y / 2 powi (expo y - 52)"
      using assms(2) by (simp add: divide_right_mono)
    then have "rnd (x / 2 powi (expo y - 52)) \<le> rnd (y / 2 powi (expo y - 52))" by (rule rnd_mono)
    then have "of_int (rnd (x / 2 powi (expo y - 52))) * (2::real) powi (expo y - 52)
               \<le> of_int (rnd (y / 2 powi (expo y - 52))) * 2 powi (expo y - 52)"
      by (intro mult_right_mono) simp_all
    then show ?thesis using assms(1) y True by (simp add: fl_def)
  next
    case False
    with le have lt: "expo x + 1 \<le> expo y" by simp
    have "- 1022 < expo y" using lt expo_ge [of x] by simp
    then have "2 powi (expo y) \<le> y" using expo_lower' [of y] y by simp
    then have "2 powi (expo y) \<le> fl y" by (rule fl_lower [OF y])
    moreover have "fl x \<le> 2 powi (expo x + 1)" by (rule fl_upper [OF assms(1)])
    moreover have "(2::real) powi (expo x + 1) \<le> 2 powi (expo y)" by (rule pow2_mono [OF lt])
    ultimately show ?thesis by linarith
  qed
qed

lemma fl_mono: "x \<le> y \<Longrightarrow> fl x \<le> fl y"
proof -
  assume xy: "x \<le> y"
  consider "0 < x" | "x \<le> 0" "0 \<le> y" | "y < 0" by linarith
  then show ?thesis
  proof cases
    case 1
    then show ?thesis using xy by (rule fl_mono_pos)
  next
    case 2
    have "0 \<le> fl y" using 2(2) by (rule fl_nonneg)
    moreover have "0 \<le> fl (- x)" using 2(1) by (intro fl_nonneg) simp
    ultimately show ?thesis by (simp add: fl_minus)
  next
    case 3
    then have "fl (- y) \<le> fl (- x)" using xy by (intro fl_mono_pos) simp_all
    then show ?thesis by (simp add: fl_minus)
  qed
qed

lemma fl_err_ulp: "x \<noteq> 0 \<Longrightarrow> \<bar>fl x - x\<bar> \<le> 2 powi (expo x - 53)"
proof -
  assume nz: "x \<noteq> 0"
  let ?u = "(2::real) powi (expo x - 52)"
  have "fl x - x = (of_int (rnd (x / ?u)) - x / ?u) * ?u"
    using nz by (simp add: fl_def left_diff_distrib)
  then have "\<bar>fl x - x\<bar> = \<bar>of_int (rnd (x / ?u)) - x / ?u\<bar> * ?u"
    by (simp only: abs_mult) simp
  also have "\<dots> \<le> 1 / 2 * ?u" by (intro mult_right_mono rnd_err) simp
  also have "\<dots> = 2 powi (expo x - 53)"
    using pow2_add [of "- 1" "expo x - 52"] by (simp add: power_int_minus)
  finally show ?thesis .
qed

lemma fl_err:
  assumes "2 powi (- 1022) \<le> \<bar>x\<bar>"
  shows "\<bar>fl x - x\<bar> \<le> \<bar>x\<bar> / 2 ^ 53"
proof -
  have nz: "x \<noteq> 0" using assms pow2_pos [of "- 1022"] by auto
  have "\<bar>fl x - x\<bar> \<le> 2 powi (expo x - 53)" by (rule fl_err_ulp [OF nz])
  also have "\<dots> = 2 powi (expo x) / 2 ^ 53" by (simp add: pow2_diff)
  also have "\<dots> \<le> \<bar>x\<bar> / 2 ^ 53" using expo_lower [OF assms] by (simp add: divide_right_mono)
  finally show ?thesis .
qed

lemma fl_idem: "fl (fl x) = fl x"
proof (cases "x = 0")
  case True
  then show ?thesis by simp
next
  case False
  let ?u = "(2::real) powi (expo x - 52)"
  let ?m = "rnd (x / ?u)"
  have fx: "fl x = of_int ?m * ?u" using False by (simp add: fl_def)
  have "\<bar>x\<bar> < 2 powi (expo x + 1)" by (rule expo_upper [OF False])
  also have "(2::real) powi (expo x + 1) = 2 ^ 53 * ?u"
    using pow2_add [of 53 "expo x - 52"] by (simp add: add.commute)
  finally have "\<bar>x\<bar> / ?u \<le> 2 ^ 53" by (simp add: pos_divide_le_eq)
  moreover have "\<bar>x / ?u\<bar> = \<bar>x\<bar> / ?u" by (simp add: abs_divide)
  ultimately have "x / ?u \<le> 2 ^ 53" "- (2 ^ 53) \<le> x / ?u" by linarith+
  then have b: "x / ?u \<le> of_int (2 ^ 53)" "of_int (- (2 ^ 53)) \<le> x / ?u"
    by simp_all
  have "?m \<le> 2 ^ 53" by (rule rnd_le_int [OF b(1)])
  moreover have "- (2 ^ 53) \<le> ?m" by (rule rnd_ge_int [OF b(2)])
  ultimately consider "\<bar>?m\<bar> < 2 ^ 53" | "?m = 2 ^ 53" | "?m = - (2 ^ 53)" by linarith
  then show ?thesis
  proof cases
    case 1
    have "- 1074 \<le> expo x - 52" using expo_ge [of x] by simp
    then show ?thesis using fl_exact [OF 1] by (simp add: fx)
  next
    case 2
    have "fl x = of_int 1 * 2 powi (expo x + 1)"
      using pow2_add [of 53 "expo x - 52"] by (simp add: fx 2 add.commute)
    moreover have "fl (of_int 1 * 2 powi (expo x + 1)) = of_int 1 * 2 powi (expo x + 1)"
      using expo_ge [of x] by (intro fl_exact) simp_all
    ultimately show ?thesis by simp
  next
    case 3
    have "fl x = of_int (- 1) * 2 powi (expo x + 1)"
      using pow2_add [of 53 "expo x - 52"] by (simp add: fx 3 add.commute)
    moreover have "fl (of_int (- 1) * 2 powi (expo x + 1)) = of_int (- 1) * 2 powi (expo x + 1)"
      using expo_ge [of x] by (intro fl_exact) simp_all
    ultimately show ?thesis by simp
  qed
qed

lemma fl_half:
  assumes "2 powi (- 1021) \<le> \<bar>x\<bar>"
  shows "fl (x / 2) = fl x / 2"
proof -
  have nz: "x \<noteq> 0" using assms pow2_pos [of "- 1021"] by auto
  have "(2::real) powi (- 1022) \<le> 2 powi (- 1021)" by (rule pow2_mono) simp
  then have lo: "2 powi (- 1022) \<le> \<bar>x\<bar>" using assms by linarith
  have up: "\<bar>x\<bar> < 2 powi (expo x + 1)" by (rule expo_upper [OF nz])
  have e1: "- 1021 \<le> expo x"
  proof (rule ccontr)
    assume "\<not> - 1021 \<le> expo x"
    then have "(2::real) powi (expo x + 1) \<le> 2 powi (- 1021)" by (intro pow2_mono) simp
    then show False using up assms by linarith
  qed
  have h: "(2::real) powi (expo x - 1) = 2 powi (expo x) / 2"
    using pow2_diff [of "expo x" 1] by simp
  have h1: "(2::real) powi (expo x - 1 + 1) = 2 powi (expo x + 1) / 2"
    using pow2_diff [of "expo x + 1" 1] by simp
  have E: "expo (x / 2) = expo x - 1"
  proof (rule expo_eq)
    show "2 powi (expo x - 1) \<le> \<bar>x / 2\<bar>" using expo_lower [OF lo] by (simp add: h)
    show "\<bar>x / 2\<bar> < 2 powi (expo x - 1 + 1)" using up by (simp only: h1)
    show "- 1022 \<le> expo x - 1" using e1 by simp
  qed
  define u :: real where "u = 2 powi (expo x - 52)"
  have u: "0 < u" by (simp add: u_def)
  have u2: "(2::real) powi (expo x - 53) = u / 2"
    using pow2_diff [of "expo x - 52" 1] by (simp add: u_def)
  have "fl (x / 2) = of_int (rnd (x / u)) * (u / 2)"
    using nz by (simp add: fl_def E u2)
  moreover have "fl x = of_int (rnd (x / u)) * u"
    using nz by (simp add: fl_def u_def)
  ultimately show ?thesis by simp
qed

section \<open>Arithmetic on doubles\<close>

lemma fl_pow2: "- 1074 \<le> k \<Longrightarrow> fl (2 powi k) = 2 powi k"
  using fl_exact [of 1 k] by simp

lemma round_d_fin:
  assumes "\<bar>x\<bar> \<le> 2 ^ 1023"
  shows "round_d x = Fin (fl x)"
proof -
  define B :: real where "B = 2 powi 1023"
  have "fl B = B" unfolding B_def by (rule fl_pow2) simp
  moreover have "B < 2 ^ 1024" by (simp add: B_def)
  ultimately have B: "fl B = B" "B < 2 ^ 1024" by blast+
  have "\<bar>x\<bar> \<le> B" using assms by (simp add: B_def)
  then have "x \<le> B" "- B \<le> x" by linarith+
  then have "fl x \<le> fl B" "fl (- B) \<le> fl x" by (simp_all only: fl_mono)
  then have "fl x \<le> B" "- B \<le> fl x" by (simp_all only: fl_minus B)
  then have "\<bar>fl x\<bar> \<le> B" by linarith
  then have "\<not> 2 ^ 1024 \<le> \<bar>fl x\<bar>" using B(2) by linarith
  then show ?thesis by (simp add: round_d_def Let_def)
qed

lemma round_d_int:
  assumes "\<bar>n\<bar> < 2 ^ 53"
  shows "round_d (of_int n) = Fin (of_int n)"
proof -
  have "\<bar>real_of_int n\<bar> \<le> 2 ^ 53" using assms
    by (metis abs_of_nonneg less_imp_le of_int_abs of_int_le_numeral_power_cancel_iff)
  also have "(2::real) ^ 53 \<le> 2 ^ 1023" by simp
  finally show ?thesis using fl_int [OF assms] by (simp add: round_d_fin)
qed

lemma round_d_0 [simp]: "round_d 0 = Fin 0"
  using round_d_int [of 0] by simp

lemma round_d_1 [simp]: "round_d 1 = Fin 1"
  using round_d_int [of 1] by simp

lemma round_d_numeral [simp]:
  "(numeral n :: int) < 2 ^ 53 \<Longrightarrow> round_d (numeral n) = Fin (numeral n)"
  using round_d_int [of "numeral n"] by simp

lemma round_d_neg_numeral [simp]:
  "(numeral n :: int) < 2 ^ 53 \<Longrightarrow> round_d (- numeral n) = Fin (- numeral n)"
  using round_d_int [of "- numeral n"] by simp

lemma of_uint_numeral [simp]: "of_uint (numeral n) = Fin (numeral n)"
  and of_uint_0 [simp]: "of_uint 0 = Fin 0"
  by (simp_all add: of_uint_def)

section \<open>Basic facts about the context and the pipeline\<close>

lemma default_transform [simp]: "transform default_draw_state = identity_matrix"
  and default_clip [simp]: "clip_region default_draw_state = []"
  by (simp_all add: default_draw_state_def)

lemmas ctx_defs = ctx_set_def ctx_save_def ctx_restore_def ctx_translate_def
        ctx_rotate_def ctx_scale_def ctx_beginPath_def ctx_rect_def ctx_clip_def ctx_fillRect_def
        ctx_drawImage_def ctx_strokeText_def ctx_fillText_def

lemma drawBackground_eq:
  assumes "state c = default_draw_state" "width c = 900" "height c = 1200" "saved c = []" "path c = []"
  shows "drawBackground cfg imgs c =
     c\<lparr>state := base_state cfg,
       path := (case overlay imgs of None \<Rightarrow> [] | Some img \<Rightarrow> [band_rect]),
       bitmap := bitmap c @ background_fill cfg @ accent_band cfg @ pattern_layer cfg imgs\<rparr>"
proof (cases "overlay imgs")
  case None
  then show ?thesis using assms
    by (simp add: drawBackground_def Let_def ctx_defs base_state_def band_state_def background_fill_def
        accent_band_def pattern_layer_def band_rect_def strip_matrix_def stripAngle_def)
next
  case (Some img)
  then show ?thesis using assms
    by (simp add: drawBackground_def Let_def ctx_defs base_state_def band_state_def background_fill_def
        accent_band_def pattern_layer_def band_rect_def strip_matrix_def stripAngle_def)
qed

lemma fit_area: "dsub (Fin 900) (dmul (Fin 80) (Fin 2)) = Fin 740"
  "dsub (Fin 1200) (dmul (Fin 80) (Fin 2)) = Fin 1040"
  by (simp_all add: dsub_def)

lemma drawCharacter_eq:
  assumes "state c = base_state cfg" "width c = 900" "height c = 1200" "saved c = []"
  shows "drawCharacter cfg imgs c = c\<lparr>bitmap := bitmap c @ portrait_layer cfg imgs\<rparr>"
proof (cases "char imgs")
  case None
  then show ?thesis by (simp add: drawCharacter_def portrait_layer_def)
next
  case (Some img)
  then show ?thesis using assms
    by (simp add: drawCharacter_def Let_def ctx_defs portrait_layer_def base_state_def
        baseScale_of_def dsub_def)
qed

lemma drawText_eq:
  assumes "state c = base_state cfg" "width c = 900" "saved c = []"
  shows "drawText cfg c = c\<lparr>bitmap := bitmap c @ text_layer cfg\<rparr>"
  using assms
  by (simp add: drawText_def Let_def ctx_defs text_layer_def furigana_text_def name_text_def
      name_state_def furigana_state_def text_state_def)

lemma drawCanvas_eq:
  assumes "canvasRef st = Some c" "has_context c"
  shows "drawCanvas st =
     st\<lparr>canvasRef := Some (c\<lparr>width := 900, height := 1200, state := base_state (config st),
            saved := [],
            path := (case overlay (loadedImages st) of None \<Rightarrow> [] | Some img \<Rightarrow> [band_rect]),
            bitmap := collage (config st) (loadedImages st)\<rparr>)\<rparr>"
  using assms
  by (simp add: drawCanvas_def Let_def set_width_def set_height_def reset_context_def
      drawBackground_eq drawCharacter_eq drawText_eq collage_def)

section \<open>The base-fit scale in rounded arithmetic\<close>

lemma fl_numeral [simp]: "(numeral n :: int) < 2 ^ 53 \<Longrightarrow> fl (numeral n) = numeral n"
  using fl_int [of "numeral n"] by simp

lemma fl_1 [simp]: "fl 1 = 1"
  using fl_int [of 1] by simp

lemma fl_min: "fl (min x y) = min (fl x) (fl y)"
proof (cases "x \<le> y")
  case True
  then show ?thesis using fl_mono [of x y] by (simp add: min_def)
next
  case False
  then have "fl y \<le> fl x" by (intro fl_mono) simp
  then show ?thesis using False by (simp add: min_def)
qed

lemma NaN_absorbs [simp]:
  "dadd a NaN = NaN" "dadd NaN a = NaN" "dsub a NaN = NaN" "dsub NaN a = NaN"
  "dmul a NaN = NaN" "dmul NaN a = NaN" "ddiv a NaN = NaN" "ddiv NaN a = NaN"
  "\<not> dle a NaN" "\<not> dle NaN a" "\<not> dge a NaN" "\<not> dge NaN a"
  by (cases a; simp add: dsub_def dge_def)+

lemma dmin_Fin: "dmin (Fin a) (Fin b) = Fin (min a b)"
  by (simp add: dmin_def min_def)

text \<open>A result between two integers of at most 53 bits is finite and stays between them.\<close>

lemma round_d_between:
  assumes "of_int a \<le> x" "x \<le> of_int b" "\<bar>a\<bar> < 2 ^ 53" "\<bar>b\<bar> < 2 ^ 53"
  shows "round_d x = Fin (fl x)" "of_int a \<le> fl x" "fl x \<le> of_int b"
proof -
  show a: "of_int a \<le> fl x" using fl_mono [OF assms(1)] fl_int [OF assms(3)] by simp
  show b: "fl x \<le> of_int b" using fl_mono [OF assms(2)] fl_int [OF assms(4)] by simp
  have "\<bar>real_of_int a\<bar> \<le> 2 ^ 53" "\<bar>real_of_int b\<bar> \<le> 2 ^ 53"
    using assms(3,4) by (metis less_imp_le of_int_abs of_int_le_numeral_power_cancel_iff)+
  moreover have "(2::real) ^ 53 \<le> 2 ^ 1023" by simp
  ultimately have "\<bar>x\<bar> \<le> 2 ^ 1023" using assms(1,2) by linarith
  then show "round_d x = Fin (fl x)" by (rule round_d_fin)
qed

text \<open>The rounded scale is the exact scale rounded once; the rounded width \<open>w * s\<close> is within
  a relative error of \<open>2 powi - 51\<close> of the exact one.\<close>

lemma baseScale_exact_bounds:
  assumes "0 < w" "w < 2 ^ 32" "0 < h" "h < 2 ^ 32"
  shows "0 < baseScale_exact (real w) (real h)"
    "740 / 2 ^ 32 \<le> baseScale_exact (real w) (real h)"
    "real w * baseScale_exact (real w) (real h) \<le> 740"
    "real h * baseScale_exact (real w) (real h) \<le> 1040"
    "real w * baseScale_exact (real w) (real h) = 740 \<or> real h * baseScale_exact (real w) (real h) = 1040"
    "baseScale_exact (real w) (real h) \<le> 1040"
proof -
  have w: "1 \<le> real w" "real w < 2 ^ 32" using assms(1,2) by (simp_all add: Suc_leI)
  have h: "1 \<le> real h" "real h < 2 ^ 32" using assms(3,4) by (simp_all add: Suc_leI)
  have a: "740 / 2 ^ 32 \<le> 740 / real w" using w by (intro divide_left_mono) simp_all
  have b: "740 / 2 ^ 32 \<le> 1040 / real h"
  proof -
    have "(740::real) / 2 ^ 32 \<le> 1040 / 2 ^ 32" by simp
    also have "\<dots> \<le> 1040 / real h" using h by (intro divide_left_mono) simp_all
    finally show ?thesis .
  qed
  show 2: "740 / 2 ^ 32 \<le> baseScale_exact (real w) (real h)"
    using a b by (simp add: baseScale_exact_def)
  then show "0 < baseScale_exact (real w) (real h)" by (simp add: less_le_trans [of 0 "740 / 2 ^ 32"])
  have "baseScale_exact (real w) (real h) \<le> 740 / real w" by (simp add: baseScale_exact_def)
  then show "real w * baseScale_exact (real w) (real h) \<le> 740"
    using w by (simp add: pos_le_divide_eq mult.commute)
  have "baseScale_exact (real w) (real h) \<le> 1040 / real h" by (simp add: baseScale_exact_def)
  then show "real h * baseScale_exact (real w) (real h) \<le> 1040"
    using h by (simp add: pos_le_divide_eq mult.commute)
  show "real w * baseScale_exact (real w) (real h) = 740 \<or> real h * baseScale_exact (real w) (real h) = 1040"
    using w h by (simp add: baseScale_exact_def min_def)
  have "1040 / real h \<le> 1040" using h by (simp add: pos_divide_le_eq)
  then show "baseScale_exact (real w) (real h) \<le> 1040" by (simp add: baseScale_exact_def min_def)
qed

lemma baseScale_of_fl:
  assumes "0 < w" "0 < h"
  shows "baseScale_of w h = Fin (fl (baseScale_exact (real w) (real h)))"
proof -
  have w: "1 \<le> real w" using assms(1) by (simp add: Suc_leI)
  have h: "1 \<le> real h" using assms(2) by (simp add: Suc_leI)
  have "0 \<le> 740 / real w" "740 / real w \<le> 740" using w by (simp_all add: pos_divide_le_eq)
  then have a: "round_d (740 / real w) = Fin (fl (740 / real w))"
    using round_d_between(1) [of 0 "740 / real w" 740] by simp
  have "0 \<le> 1040 / real h" "1040 / real h \<le> 1040" using h by (simp_all add: pos_divide_le_eq)
  then have b: "round_d (1040 / real h) = Fin (fl (1040 / real h))"
    using round_d_between(1) [of 0 "1040 / real h" 1040] by simp
  show ?thesis using assms
    by (simp add: baseScale_of_def of_uint_def a b dmin_Fin fl_min baseScale_exact_def)
qed

lemma fl_fl_err:
  assumes "1 \<le> n" "n < 2 ^ 32" "740 / 2 ^ 32 \<le> s" "n * s \<le> 1040"
  shows "\<bar>fl (n * fl s) - n * s\<bar> \<le> n * s / 2 ^ 51"
    "fl (fl (n * fl s)) = fl (n * fl s)"
    "fl (fl (n * fl s) / 2) = fl (n * fl s) / 2"
    "0 \<le> n * fl s" "n * fl s \<le> n * s + 1 / 2"
proof -
  define e :: real where "e = 1 / 2 ^ 53"
  have s0: "0 < s" using assms(3) by (simp add: less_le_trans [of 0 "740 / 2 ^ 32"])
  have "(2::real) powi (- 1022) \<le> 2 powi (- 23)" by (rule pow2_mono) simp
  also have "\<dots> \<le> 740 / 2 ^ 32" by (simp add: power_int_minus)
  finally have lo: "(2::real) powi (- 1022) \<le> 740 / 2 ^ 32" .
  then have "2 powi (- 1022) \<le> \<bar>s\<bar>" using assms(3) by linarith
  then have "\<bar>fl s - s\<bar> \<le> \<bar>s\<bar> / 2 ^ 53" by (rule fl_err)
  then have A: "\<bar>fl s - s\<bar> \<le> s * e" using s0 by (simp add: e_def)
  have "\<bar>n * fl s - n * s\<bar> = n * \<bar>fl s - s\<bar>"
    using assms(1) by (simp add: abs_mult flip: right_diff_distrib)
  also have "\<dots> \<le> n * (s * e)" using A assms(1) by (intro mult_left_mono) simp_all
  finally have B: "\<bar>n * fl s - n * s\<bar> \<le> n * s * e" by (simp add: mult.assoc)
  have X: "740 / 2 ^ 32 \<le> n * s"
  proof -
    have "1 * s \<le> n * s" using assms(1) s0 by (intro mult_right_mono) simp_all
    then have "s \<le> n * s" by simp
    then show ?thesis using assms(3) by linarith
  qed
  have e: "0 < e" "e \<le> 1 / 2 ^ 53" "n * s * e \<le> n * s / 2 ^ 53" by (simp_all add: e_def)
  have Y: "740 / 2 ^ 33 \<le> n * fl s"
  proof -
    have "n * s * e \<le> n * s / 2" using X by (simp add: e_def)
    then have h: "n * s / 2 \<le> n * fl s" using B by linarith
    have "(740::real) / 2 ^ 33 = (740 / 2 ^ 32) / 2" by simp
    also have "\<dots> \<le> n * s / 2" using X by (rule divide_right_mono) simp
    finally show ?thesis using h by linarith
  qed
  have "(2::real) powi (- 1021) \<le> 2 powi (- 24)" by (rule pow2_mono) simp
  also have "\<dots> \<le> 740 / 2 ^ 33" by (simp add: power_int_minus)
  finally have lo2: "2 powi (- 1021) \<le> n * fl s" using Y by linarith
  have "(2::real) powi (- 1022) \<le> 2 powi (- 1021)" by (rule pow2_mono) simp
  then have "2 powi (- 1022) \<le> \<bar>n * fl s\<bar>" using lo2 by linarith
  then have "\<bar>fl (n * fl s) - n * fl s\<bar> \<le> \<bar>n * fl s\<bar> / 2 ^ 53" by (rule fl_err)
  moreover have "0 \<le> n * fl s" using lo2 pow2_pos [of "- 1021"] by linarith
  ultimately have C: "\<bar>fl (n * fl s) - n * fl s\<bar> \<le> n * fl s * e" by (simp add: e_def)
  have "n * fl s \<le> n * s + n * s * e" using B by linarith
  then have "n * fl s * e \<le> (n * s + n * s * e) * e" using e(1) by (intro mult_right_mono) simp_all
  also have "\<dots> = n * s * e + n * s * (e * e)" by (simp add: algebra_simps)
  finally have D: "n * fl s * e \<le> n * s * e + n * s * (e * e)" .
  have ns: "0 \<le> n * s" using assms(1) s0 by simp
  have "e * e \<le> e" by (simp add: e_def)
  then have "n * s * (e * e) \<le> n * s * e" using ns by (rule mult_left_mono)
  then have "n * fl s * e \<le> n * s * e + n * s * e" using D by linarith
  then have "\<bar>fl (n * fl s) - n * s\<bar> \<le> 3 * (n * s * e)" using B C by linarith
  also have "\<dots> \<le> n * s / 2 ^ 51" using X by (simp add: e_def)
  finally show "\<bar>fl (n * fl s) - n * s\<bar> \<le> n * s / 2 ^ 51" .
  show "fl (fl (n * fl s)) = fl (n * fl s)" by (rule fl_idem)
  define P :: real where "P = 2 powi (- 1021)"
  have "fl P = P" unfolding P_def by (rule fl_pow2) simp
  moreover have "fl P \<le> fl (n * fl s)" unfolding P_def by (rule fl_mono [OF lo2])
  ultimately have "P \<le> \<bar>fl (n * fl s)\<bar>" by linarith
  then have "2 powi (- 1021) \<le> \<bar>fl (n * fl s)\<bar>" unfolding P_def .
  then have "fl (fl (n * fl s) / 2) = fl (fl (n * fl s)) / 2" by (rule fl_half)
  then show "fl (fl (n * fl s) / 2) = fl (n * fl s) / 2" by (simp add: fl_idem)
  show "0 \<le> n * fl s" using Y by (simp add: order_trans [of 0 "740 / 2 ^ 33"])
  have "n * s * e \<le> 1040 * e" using assms(4) e(1) by (intro mult_right_mono) simp_all
  also have "\<dots> \<le> 1 / 2" by (simp add: e_def)
  finally show "n * fl s \<le> n * s + 1 / 2" using B by linarith
qed

section \<open>The hit tester\<close>

lemma isPointInCharacter_iff:
  "isPointInCharacter st px py \<longleftrightarrow>
     (case char (loadedImages st) of
        None \<Rightarrow> False
      | Some img \<Rightarrow> in_hit_box (px, py) (hit_box (characterTransform (config st)) img))"
  by (simp add: isPointInCharacter_def hit_box_def in_hit_box_def baseScale_of_def Let_def dsub_def
      split: option.split)

lemma fl_succ:
  assumes "\<bar>x\<bar> < 2 ^ 52"
  shows "x < fl (x + 1)"
proof -
  define n where "n = \<lfloor>x\<rfloor> + 1"
  have n: "x < of_int n" "of_int n \<le> x + 1" unfolding n_def by linarith+
  have "\<bar>n\<bar> < 2 ^ 53" using assms unfolding n_def by (simp add: abs_less_iff; linarith)
  then have "fl (of_int n) = of_int n" by (rule fl_int)
  then show ?thesis using fl_mono [OF n(2)] n(1) by linarith
qed

lemma fl_pred:
  assumes "\<bar>x\<bar> < 2 ^ 52"
  shows "fl (x - 1) < x"
proof -
  have "\<bar>- x\<bar> < 2 ^ 52" using assms by simp
  then have "- x < fl (- x + 1)" by (rule fl_succ)
  moreover have "fl (- x + 1) = - fl (x - 1)" using fl_minus [of "x - 1"] by simp
  ultimately show ?thesis by linarith
qed

text \<open>The hit box for the transform \<^verbatim>\<open>{x: 100, y: 0, scale: 1}\<close> and an image whose sides are
  positive 32-bit integers.\<close>

lemma hit_box_offset_100:
  assumes "0 < img_width img" "img_width img < 2 ^ 32" "0 < img_height img" "img_height img < 2 ^ 32"
  defines "s \<equiv> baseScale_exact (real (img_width img)) (real (img_height img))"
  defines "W \<equiv> fl (real (img_width img) * fl s)"
  defines "H \<equiv> fl (real (img_height img) * fl s)"
  shows "hit_box \<lparr>t_x = Fin 100, t_y = Fin 0, t_scale = Fin 1, t_rotation = r\<rparr> img
          = (Fin (fl (550 - W / 2)), Fin (fl (550 + W / 2)), Fin (fl (600 - H / 2)), Fin (fl (600 + H / 2)))"
    "0 \<le> W" "W \<le> 741" "0 \<le> H" "H \<le> 1041"
proof -
  let ?w = "real (img_width img)" and ?h = "real (img_height img)"
  note sb = baseScale_exact_bounds [OF assms(1-4), folded s_def]
  have w: "1 \<le> ?w" "?w < 2 ^ 32" using assms(1,2) by (simp_all add: Suc_leI)
  have h: "1 \<le> ?h" "?h < 2 ^ 32" using assms(3,4) by (simp_all add: Suc_leI)
  have ws: "?w * s \<le> 1040" using sb(3) by linarith
  note ew = fl_fl_err [OF w sb(2) ws, folded W_def]
  note eh = fl_fl_err [OF h sb(2) sb(4), folded H_def]
  have w1: "of_int 0 \<le> ?w * fl s" "?w * fl s \<le> of_int 741" using ew(4,5) sb(3) by simp_all
  have h1: "of_int 0 \<le> ?h * fl s" "?h * fl s \<le> of_int 1041" using eh(4,5) sb(4) by simp_all
  note rw = round_d_between [OF w1, folded W_def]
  note rh = round_d_between [OF h1, folded H_def]
  show W: "0 \<le> W" "W \<le> 741" using rw(2,3) by simp_all
  show H: "0 \<le> H" "H \<le> 1041" using rh(2,3) by simp_all
  have dw: "round_d W = Fin W"
    using round_d_between(1) [of 0 W 741] W by (simp add: ew(2))
  have dh: "round_d H = Fin H"
    using round_d_between(1) [of 0 H 1041] H by (simp add: eh(2))
  have hw: "round_d (W / 2) = Fin (W / 2)"
    using round_d_between(1) [of 0 "W / 2" 741] W by (simp add: ew(3))
  have hh: "round_d (H / 2) = Fin (H / 2)"
    using round_d_between(1) [of 0 "H / 2" 1041] H by (simp add: eh(3))
  have l: "round_d (550 - W / 2) = Fin (fl (550 - W / 2))"
    using round_d_between(1) [of 0 "550 - W / 2" 550] W by simp
  have r: "round_d (550 + W / 2) = Fin (fl (550 + W / 2))"
    using round_d_between(1) [of 0 "550 + W / 2" 1000] W by simp
  have t: "round_d (600 - H / 2) = Fin (fl (600 - H / 2))"
    using round_d_between(1) [of 0 "600 - H / 2" 600] H by simp
  have b: "round_d (600 + H / 2) = Fin (fl (600 + H / 2))"
    using round_d_between(1) [of 0 "600 + H / 2" 2000] H by simp
  have bs: "baseScale_of (img_width img) (img_height img) = Fin (fl s)"
    unfolding s_def by (rule baseScale_of_fl [OF assms(1,3)])
  show "hit_box \<lparr>t_x = Fin 100, t_y = Fin 0, t_scale = Fin 1, t_rotation = r\<rparr> img
          = (Fin (fl (550 - W / 2)), Fin (fl (550 + W / 2)), Fin (fl (600 - H / 2)), Fin (fl (600 + H / 2)))"
    by (simp add: hit_box_def Let_def bs of_uint_def dsub_def rw(1) rh(1) dw dh hw hh l r t b)
qed

text \<open>The operations of the hit test on a 200 by 300 image at the offset \<open>(100, 0)\<close>.\<close>

lemma hit_box_example_1: "round_d (37 / 10) = Fin (4165829655317709 / 1125899906842624)"
  by (subst round_d_fin, simp, subst fl_eval [of 1]) (simp_all add: rnd_def power_int_minus)

lemma hit_box_example_2: "round_d (52 / 15) = Fin (1951559838527215 / 562949953421312)"
  by (subst round_d_fin, simp, subst fl_eval [of 1]) (simp_all add: rnd_def power_int_minus)

lemma hit_box_example_3: "round_d (48788995963180375 / 70368744177664) = Fin (6098624495397547 / 8796093022208)"
  by (subst round_d_fin, simp, subst fl_eval [of 9]) (simp_all add: rnd_def power_int_minus)

lemma hit_box_example_4: "round_d (6098624495397547 / 8796093022208) = Fin (6098624495397547 / 8796093022208)"
  by (subst round_d_fin, simp, subst fl_eval [of 9]) (simp_all add: rnd_def power_int_minus)

lemma hit_box_example_5: "round_d (146366987889541125 / 140737488355328) = Fin 1040"
  by (subst round_d_fin, simp, subst fl_eval [of 10]) (simp_all add: rnd_def power_int_minus)

lemma hit_box_example_6: "round_d (6098624495397547 / 17592186044416) = Fin (6098624495397547 / 17592186044416)"
  by (subst round_d_fin, simp, subst fl_eval [of 8]) (simp_all add: rnd_def power_int_minus)

lemma hit_box_example_7: "round_d (3577077829031253 / 17592186044416) = Fin (3577077829031253 / 17592186044416)"
  by (subst round_d_fin, simp, subst fl_eval [of 7]) (simp_all add: rnd_def power_int_minus)

lemma hit_box_example_8: "round_d (15774326819826347 / 17592186044416) = Fin (3943581704956587 / 4398046511104)"
  by (subst round_d_fin, simp, subst fl_eval [of 9]) (simp_all add: rnd_def power_int_minus)

lemma hit_box_example_9: "round_d (3559485642986837 / 17592186044416) = Fin (3559485642986837 / 17592186044416)"
  by (subst round_d_fin, simp, subst fl_eval [of 7]) (simp_all add: rnd_def power_int_minus)

lemma hit_box_example_10: "round_d (3947979751467691 / 4398046511104) = Fin (3947979751467691 / 4398046511104)"
  by (subst round_d_fin, simp, subst fl_eval [of 9]) (simp_all add: rnd_def power_int_minus)

lemma hit_box_example:
  "hit_box \<lparr>t_x = Fin 100, t_y = Fin 0, t_scale = Fin 1, t_rotation = Fin 0\<rparr> example_image
     = (Fin (3577077829031253 / 17592186044416), Fin (3943581704956587 / 4398046511104), Fin 80, Fin 1120)"
  by (simp add: hit_box_def baseScale_of_def Let_def example_image_def dmin_def dsub_def hit_box_example_1 hit_box_example_2 hit_box_example_3 hit_box_example_4 hit_box_example_5 hit_box_example_6 hit_box_example_7 hit_box_example_8 hit_box_example_9 hit_box_example_10)

text \<open>
  C1, as it is stated, takes the box in exact arithmetic.  The program computes the edges of
  the box in doubles, rounding after every operation.  For the 200 by 300 image at the
  offset \<open>(100, 0)\<close> the exact right edge is \<open>550 + 1040 / 3\<close>; the computed right edge is the
  double just above it, \<open>896.6666666666667\<close>.  The canvas point with that abscissa and the
  ordinate 1120 passes the hit test and is outside the exact box.
\<close>

theorem hit_box_rounding_counterexample:
  "isPointInCharacter example_state (Fin (3943581704956587 / 4398046511104)) (Fin 1120)
   \<and> \<not> in_centered_box (3943581704956587 / 4398046511104, 1120) (450 + 100, 600 + 0)
         (200 * baseScale_exact 200 300 * 1) (300 * baseScale_exact 200 300 * 1)
   \<and> 550 + 1040 / 3 < (3943581704956587 / 4398046511104 :: real)"
proof -
  have "isPointInCharacter example_state (Fin (3943581704956587 / 4398046511104)) (Fin 1120)"
    by (simp add: isPointInCharacter_iff example_state_def hit_box_example in_hit_box_def dge_def)
  then show ?thesis by (simp add: in_centered_box_def baseScale_exact_def)
qed

lemma edge_err:
  assumes "\<bar>D - X\<bar> \<le> X / 2 ^ 51" "0 \<le> X" "X \<le> 1040" "c = 550 \<or> c = 600"
  shows "\<bar>fl (c - D / 2) - (c - X / 2)\<bar> \<le> 1 / 2 ^ 40" "\<bar>fl (c + D / 2) - (c + X / 2)\<bar> \<le> 1 / 2 ^ 40"
proof -
  define u :: real where "u = 1 / 2 ^ 41"
  have u: "0 < u" "u \<le> 1 / 2" "2 * u = 1 / 2 ^ 40" by (simp_all add: u_def)
  have "X / 2 ^ 51 \<le> 1040 / 2 ^ 51" using assms(3) by (rule divide_right_mono) simp
  also have "\<dots> \<le> 2 * u" by (simp add: u_def)
  finally have d: "\<bar>D - X\<bar> \<le> 2 * u" using assms(1) by linarith
  have D: "- 1 \<le> D" "D \<le> 1041" using d u(2) assms(2,3) by linarith+
  have lo: "29 \<le> c - D / 2" "c - D / 2 \<le> 601" "549 \<le> c + D / 2" "c + D / 2 \<le> 1121"
    using D assms(4) by auto
  have "(2::real) powi (- 1022) \<le> 2 powi 0" by (rule pow2_mono) simp
  then have one: "(2::real) powi (- 1022) \<le> 1" by simp
  have "2 powi (- 1022) \<le> \<bar>c - D / 2\<bar>" using lo one by linarith
  then have "\<bar>fl (c - D / 2) - (c - D / 2)\<bar> \<le> \<bar>c - D / 2\<bar> / 2 ^ 53" by (rule fl_err)
  also have "\<dots> \<le> 601 / 2 ^ 53" using lo by (intro divide_right_mono) simp_all
  also have "\<dots> \<le> u" by (simp add: u_def)
  finally have "\<bar>fl (c - D / 2) - (c - X / 2)\<bar> \<le> 2 * u" using d by linarith
  then show "\<bar>fl (c - D / 2) - (c - X / 2)\<bar> \<le> 1 / 2 ^ 40" by (simp only: u(3))
  have "2 powi (- 1022) \<le> \<bar>c + D / 2\<bar>" using lo one by linarith
  then have "\<bar>fl (c + D / 2) - (c + D / 2)\<bar> \<le> \<bar>c + D / 2\<bar> / 2 ^ 53" by (rule fl_err)
  also have "\<dots> \<le> 1121 / 2 ^ 53" using lo by (intro divide_right_mono) simp_all
  also have "\<dots> \<le> u" by (simp add: u_def)
  finally have "\<bar>fl (c + D / 2) - (c + X / 2)\<bar> \<le> 2 * u" using d by linarith
  then show "\<bar>fl (c + D / 2) - (c + X / 2)\<bar> \<le> 1 / 2 ^ 40" by (simp only: u(3))
qed

lemma step_outside:
  assumes "0 \<le> e" "e \<le> 2000"
  shows "dadd (Fin e) (Fin 1) = Fin (fl (e + 1))" "e < fl (e + 1)"
    "dsub (Fin e) (Fin 1) = Fin (fl (e - 1))" "fl (e - 1) < e"
proof -
  have a: "\<bar>e\<bar> < 2 ^ 52" using assms by simp
  show "e < fl (e + 1)" by (rule fl_succ [OF a])
  show "fl (e - 1) < e" by (rule fl_pred [OF a])
  show "dadd (Fin e) (Fin 1) = Fin (fl (e + 1))"
    using round_d_between(1) [of 0 "e + 1" 2001] assms by simp
  show "dsub (Fin e) (Fin 1) = Fin (fl (e - 1))"
    using round_d_between(1) [of "- 1" "e - 1" 2000] assms by (simp add: dsub_def)
qed

text \<open>
  C1, as the program computes it.  The hit test holds of a point exactly when the point
  lies, border included, between the four edges \<open>hit_box T img\<close> that the program computes
  from the character transform \<open>T\<close> and the decoded image in double arithmetic, every
  operation rounded: the edges \<open>(450 + x) \<mp> w * s * scale / 2\<close> and
  \<open>(600 + y) \<mp> h * s * scale / 2\<close> with \<open>s = min ((900 - 160) / w) ((1200 - 160) / h)\<close>.  The
  rotation of \<open>T\<close> has no influence.  For an image of size 0 by 0 the scale is infinite, the
  sizes are NaN and the test fails everywhere.  With \<open>T = {x: 100, y: 0, scale: 1}\<close> and an
  image whose sides are positive and below \<open>2 ^ 32\<close>: the point \<open>(550, 600)\<close> is inside; the
  four computed edges are finite and each is within \<open>2 powi - 40\<close> of the edge of the exact
  box; and every point whose abscissa is a computed vertical edge moved outwards by 1, or
  whose ordinate is a computed horizontal edge moved outwards by 1, is outside.
\<close>

theorem isPointInCharacter_box:
  assumes img: "char (loadedImages st) = Some img"
  defines "T \<equiv> characterTransform (config st)"
  defines "w \<equiv> real (img_width img)" and "h \<equiv> real (img_height img)"
  defines "s \<equiv> baseScale_exact w h"
  shows "(isPointInCharacter st px py \<longleftrightarrow> in_hit_box (px, py) (hit_box T img))
       \<and> isPointInCharacter (st\<lparr>config := (config st)\<lparr>characterTransform := T\<lparr>t_rotation := r\<rparr>\<rparr>\<rparr>) px py
           = isPointInCharacter st px py
       \<and> (img_width img = 0 \<and> img_height img = 0 \<longrightarrow> \<not> isPointInCharacter st px py)
       \<and> (t_x T = Fin 100 \<and> t_y T = Fin 0 \<and> t_scale T = Fin 1
            \<and> 0 < img_width img \<and> img_width img < 2 ^ 32
            \<and> 0 < img_height img \<and> img_height img < 2 ^ 32 \<longrightarrow>
            isPointInCharacter st (Fin 550) (Fin 600)
          \<and> (\<exists>x_left x_right y_top y_bottom.
                hit_box T img = (Fin x_left, Fin x_right, Fin y_top, Fin y_bottom)
              \<and> \<bar>x_left - (550 - w * s / 2)\<bar> \<le> 1 / 2 ^ 40
              \<and> \<bar>x_right - (550 + w * s / 2)\<bar> \<le> 1 / 2 ^ 40
              \<and> \<bar>y_top - (600 - h * s / 2)\<bar> \<le> 1 / 2 ^ 40
              \<and> \<bar>y_bottom - (600 + h * s / 2)\<bar> \<le> 1 / 2 ^ 40
              \<and> (\<forall>qx qy. \<not> isPointInCharacter st (dadd (Fin x_right) (Fin 1)) qy
                         \<and> \<not> isPointInCharacter st (dsub (Fin x_left) (Fin 1)) qy
                         \<and> \<not> isPointInCharacter st qx (dadd (Fin y_bottom) (Fin 1))
                         \<and> \<not> isPointInCharacter st qx (dsub (Fin y_top) (Fin 1)))))"
proof -
  have iff: "\<And>qx qy. isPointInCharacter st qx qy \<longleftrightarrow> in_hit_box (qx, qy) (hit_box T img)"
    using img by (simp add: isPointInCharacter_iff T_def)
  have 1: "isPointInCharacter st px py \<longleftrightarrow> in_hit_box (px, py) (hit_box T img)" by (rule iff)
  have 2: "isPointInCharacter (st\<lparr>config := (config st)\<lparr>characterTransform := T\<lparr>t_rotation := r\<rparr>\<rparr>\<rparr>) px py
           = isPointInCharacter st px py"
    using img by (simp add: isPointInCharacter_iff T_def hit_box_def)
  have 3: "img_width img = 0 \<and> img_height img = 0 \<longrightarrow> \<not> isPointInCharacter st px py"
  proof
    assume z: "img_width img = 0 \<and> img_height img = 0"
    have "baseScale_of 0 0 = PInf" by (simp add: baseScale_of_def dmin_def)
    then have "hit_box T img = (NaN, NaN, NaN, NaN)"
      using z by (simp add: hit_box_def Let_def)
    then show "\<not> isPointInCharacter st px py" by (simp add: 1 in_hit_box_def dge_def)
  qed
  have 4: "t_x T = Fin 100 \<and> t_y T = Fin 0 \<and> t_scale T = Fin 1
            \<and> 0 < img_width img \<and> img_width img < 2 ^ 32
            \<and> 0 < img_height img \<and> img_height img < 2 ^ 32 \<longrightarrow>
            isPointInCharacter st (Fin 550) (Fin 600)
          \<and> (\<exists>x_left x_right y_top y_bottom.
                hit_box T img = (Fin x_left, Fin x_right, Fin y_top, Fin y_bottom)
              \<and> \<bar>x_left - (550 - w * s / 2)\<bar> \<le> 1 / 2 ^ 40
              \<and> \<bar>x_right - (550 + w * s / 2)\<bar> \<le> 1 / 2 ^ 40
              \<and> \<bar>y_top - (600 - h * s / 2)\<bar> \<le> 1 / 2 ^ 40
              \<and> \<bar>y_bottom - (600 + h * s / 2)\<bar> \<le> 1 / 2 ^ 40
              \<and> (\<forall>qx qy. \<not> isPointInCharacter st (dadd (Fin x_right) (Fin 1)) qy
                         \<and> \<not> isPointInCharacter st (dsub (Fin x_left) (Fin 1)) qy
                         \<and> \<not> isPointInCharacter st qx (dadd (Fin y_bottom) (Fin 1))
                         \<and> \<not> isPointInCharacter st qx (dsub (Fin y_top) (Fin 1))))"
  proof
    assume a: "t_x T = Fin 100 \<and> t_y T = Fin 0 \<and> t_scale T = Fin 1
            \<and> 0 < img_width img \<and> img_width img < 2 ^ 32
            \<and> 0 < img_height img \<and> img_height img < 2 ^ 32"
    then have sz: "0 < img_width img" "img_width img < 2 ^ 32" "0 < img_height img"
      "img_height img < 2 ^ 32" by simp_all
    have Teq: "T = \<lparr>t_x = Fin 100, t_y = Fin 0, t_scale = Fin 1, t_rotation = t_rotation T\<rparr>"
      using a by simp
    define W where "W = fl (w * fl s)"
    define H where "H = fl (h * fl s)"
    define l where "l = fl (550 - W / 2)"
    define r where "r = fl (550 + W / 2)"
    define t where "t = fl (600 - H / 2)"
    define b where "b = fl (600 + H / 2)"
    note hb1 = hit_box_offset_100(1) [OF sz, of "t_rotation T", folded w_def h_def s_def,
        folded W_def H_def, folded l_def r_def t_def b_def, folded Teq]
    note hb = hit_box_offset_100(2-5) [OF sz, folded w_def h_def s_def, folded W_def H_def]
    note sb = baseScale_exact_bounds [OF sz, folded w_def h_def s_def]
    have wh: "1 \<le> w" "w < 2 ^ 32" "1 \<le> h" "h < 2 ^ 32"
      using sz by (simp_all add: w_def h_def Suc_leI)
    have ws: "w * s \<le> 1040" "0 \<le> w * s" "0 \<le> h * s" using sb(1,3) wh by simp_all
    have eW: "\<bar>W - w * s\<bar> \<le> w * s / 2 ^ 51"
      unfolding W_def by (rule fl_fl_err(1) [OF wh(1,2) sb(2) ws(1)])
    have eH: "\<bar>H - h * s\<bar> \<le> h * s / 2 ^ 51"
      unfolding H_def by (rule fl_fl_err(1) [OF wh(3,4) sb(2) sb(4)])
    note ex = edge_err [OF eW ws(2) ws(1), of 550, folded l_def r_def]
    note ey = edge_err [OF eH ws(3) sb(4), of 600, folded t_def b_def]
    have rng: "0 \<le> l" "l \<le> 550" "550 \<le> r" "r \<le> 2000" "0 \<le> t" "t \<le> 600" "600 \<le> b" "b \<le> 2000"
      using round_d_between(2,3) [of 0 "550 - W / 2" 550] round_d_between(2,3) [of 550 "550 + W / 2" 2000]
        round_d_between(2,3) [of 0 "600 - H / 2" 600] round_d_between(2,3) [of 600 "600 + H / 2" 2000]
        hb by (simp_all add: l_def r_def t_def b_def)
    have c: "isPointInCharacter st (Fin 550) (Fin 600)"
      using rng by (simp add: iff hb1 in_hit_box_def dge_def)
    have o: "\<forall>qx qy. \<not> isPointInCharacter st (dadd (Fin r) (Fin 1)) qy
                         \<and> \<not> isPointInCharacter st (dsub (Fin l) (Fin 1)) qy
                         \<and> \<not> isPointInCharacter st qx (dadd (Fin b) (Fin 1))
                         \<and> \<not> isPointInCharacter st qx (dsub (Fin t) (Fin 1))"
      using step_outside [of r] step_outside [of l] step_outside [of b] step_outside [of t] rng
      by (simp add: iff hb1 in_hit_box_def dge_def)
    show "isPointInCharacter st (Fin 550) (Fin 600)
          \<and> (\<exists>x_left x_right y_top y_bottom.
                hit_box T img = (Fin x_left, Fin x_right, Fin y_top, Fin y_bottom)
              \<and> \<bar>x_left - (550 - w * s / 2)\<bar> \<le> 1 / 2 ^ 40
              \<and> \<bar>x_right - (550 + w * s / 2)\<bar> \<le> 1 / 2 ^ 40
              \<and> \<bar>y_top - (600 - h * s / 2)\<bar> \<le> 1 / 2 ^ 40
              \<and> \<bar>y_bottom - (600 + h * s / 2)\<bar> \<le> 1 / 2 ^ 40
              \<and> (\<forall>qx qy. \<not> isPointInCharacter st (dadd (Fin x_right) (Fin 1)) qy
                         \<and> \<not> isPointInCharacter st (dsub (Fin x_left) (Fin 1)) qy
                         \<and> \<not> isPointInCharacter st qx (dadd (Fin y_bottom) (Fin 1))
                         \<and> \<not> isPointInCharacter st qx (dsub (Fin y_top) (Fin 1))))"
      using c hb1 ex ey o by blast
  qed
  from 1 2 3 4 show ?thesis by blast
qed

theorem isPointInCharacter_box_witness:
  "char (loadedImages example_state) = Some example_image
   \<and> t_x (characterTransform (config example_state)) = Fin 100
   \<and> t_y (characterTransform (config example_state)) = Fin 0
   \<and> t_scale (characterTransform (config example_state)) = Fin 1
   \<and> 0 < img_width example_image \<and> img_width example_image < 2 ^ 32
   \<and> 0 < img_height example_image \<and> img_height example_image < 2 ^ 32
   \<and> hit_box (characterTransform (config example_state)) example_image
        = (Fin (3577077829031253 / 17592186044416), Fin (3943581704956587 / 4398046511104), Fin 80, Fin 1120)
   \<and> isPointInCharacter example_state (Fin 550) (Fin 600)
   \<and> \<not> isPointInCharacter example_state (dadd (Fin (3943581704956587 / 4398046511104)) (Fin 1)) (Fin 600)
   \<and> \<not> isPointInCharacter example_state (dsub (Fin (3577077829031253 / 17592186044416)) (Fin 1)) (Fin 600)
   \<and> \<not> isPointInCharacter example_state (Fin 550) (dadd (Fin 1120) (Fin 1))
   \<and> \<not> isPointInCharacter example_state (Fin 550) (dsub (Fin 80) (Fin 1))"
proof -
  have h: "char (loadedImages example_state) = Some example_image"
    by (simp add: example_state_def)
  have T: "characterTransform (config example_state)
             = \<lparr>t_x = Fin 100, t_y = Fin 0, t_scale = Fin 1, t_rotation = Fin 0\<rparr>"
    by (simp add: example_state_def)
  have sz: "0 < img_width example_image" "img_width example_image < 2 ^ 32"
    "0 < img_height example_image" "img_height example_image < 2 ^ 32"
    by (simp_all add: example_image_def)
  have hb: "hit_box (characterTransform (config example_state)) example_image
        = (Fin (3577077829031253 / 17592186044416), Fin (3943581704956587 / 4398046511104), Fin 80, Fin 1120)"
    by (simp only: T hit_box_example)
  let ?T = "characterTransform (config example_state)"
  have ante: "t_x ?T = Fin 100 \<and> t_y ?T = Fin 0 \<and> t_scale ?T = Fin 1
            \<and> 0 < img_width example_image \<and> img_width example_image < 2 ^ 32
            \<and> 0 < img_height example_image \<and> img_height example_image < 2 ^ 32"
    using sz by (simp add: T)
  note c4 = isPointInCharacter_box [OF h, of "Fin 550" "Fin 600" "Fin 0",
      THEN conjunct2, THEN conjunct2, THEN conjunct2, THEN mp, OF ante]
  from c4 obtain xl xr yt yb where
    e: "hit_box ?T example_image = (Fin xl, Fin xr, Fin yt, Fin yb)"
    and o: "\<forall>qx qy. \<not> isPointInCharacter example_state (dadd (Fin xr) (Fin 1)) qy
                  \<and> \<not> isPointInCharacter example_state (dsub (Fin xl) (Fin 1)) qy
                  \<and> \<not> isPointInCharacter example_state qx (dadd (Fin yb) (Fin 1))
                  \<and> \<not> isPointInCharacter example_state qx (dsub (Fin yt) (Fin 1))"
    by blast
  have eq: "xl = 3577077829031253 / 17592186044416" "xr = 3943581704956587 / 4398046511104" "yt = 80" "yb = 1120"
    using e [unfolded hb] by blast+
  have c: "isPointInCharacter example_state (Fin 550) (Fin 600)" using c4 by blast
  have "\<not> isPointInCharacter example_state (dadd (Fin (3943581704956587 / 4398046511104)) (Fin 1)) (Fin 600)"
    "\<not> isPointInCharacter example_state (dsub (Fin (3577077829031253 / 17592186044416)) (Fin 1)) (Fin 600)"
    "\<not> isPointInCharacter example_state (Fin 550) (dadd (Fin 1120) (Fin 1))"
    "\<not> isPointInCharacter example_state (Fin 550) (dsub (Fin 80) (Fin 1))"
    using o unfolding eq by blast+
  then show ?thesis using h ante hb c by blast
qed

section \<open>The compositor: what is painted\<close>

lemma drawCanvas_frame:
  "config (drawCanvas st) = config st"
  "loadedImages (drawCanvas st) = loadedImages st"
  "isDragging (drawCanvas st) = isDragging st"
  "dragStart (drawCanvas st) = dragStart st"
  "initialDragTransform (drawCanvas st) = initialDragTransform st"
  "isHoveringChar (drawCanvas st) = isHoveringChar st"
  by (simp_all add: drawCanvas_def Let_def split: option.split)

lemma drawCanvas_only_canvas: "drawCanvas st = st\<lparr>canvasRef := canvasRef (drawCanvas st)\<rparr>"
  by (simp add: drawCanvas_def Let_def split: option.split)

lemma raster_drawCanvas:
  assumes "canvasRef st = Some c" "has_context c"
  shows "raster (drawCanvas st) = Some (900, 1200, collage (config st) (loadedImages st))"
  using assms by (simp add: raster_def drawCanvas_eq)

lemma painted_drawCanvas:
  assumes "canvasRef st = Some c" "has_context c"
  shows "painted (drawCanvas st) = collage (config st) (loadedImages st)"
  using assms by (simp add: painted_def drawCanvas_eq)

lemma layers_ignore_character_transform:
  "background_fill (cfg\<lparr>characterTransform := t\<rparr>) = background_fill cfg"
  "accent_band (cfg\<lparr>characterTransform := t\<rparr>) = accent_band cfg"
  "pattern_layer (cfg\<lparr>characterTransform := t\<rparr>) imgs = pattern_layer cfg imgs"
  "text_layer (cfg\<lparr>characterTransform := t\<rparr>) = text_layer cfg"
  by (simp_all add: background_fill_def accent_band_def pattern_layer_def text_layer_def
      furigana_text_def name_text_def name_state_def furigana_state_def text_state_def
      base_state_def band_state_def Let_def split: option.split)

lemma layers_ignore_overlay_transform:
  "background_fill (cfg\<lparr>overlayTransform := t\<rparr>) = background_fill cfg"
  "accent_band (cfg\<lparr>overlayTransform := t\<rparr>) = accent_band cfg"
  "portrait_layer (cfg\<lparr>overlayTransform := t\<rparr>) imgs = portrait_layer cfg imgs"
  "text_layer (cfg\<lparr>overlayTransform := t\<rparr>) = text_layer cfg"
  by (simp_all add: background_fill_def accent_band_def portrait_layer_def text_layer_def
      furigana_text_def name_text_def name_state_def furigana_state_def text_state_def
      base_state_def band_state_def Let_def split: option.split)

lemma absent_layers:
  "overlay imgs = None \<Longrightarrow> pattern_layer cfg imgs = []"
  "char imgs = None \<Longrightarrow> portrait_layer cfg imgs = []"
  by (simp_all add: pattern_layer_def portrait_layer_def)

text \<open>
  C4.  Two runs of \<open>drawCanvas\<close> with the same configuration and the same decoded images, on
  canvases that may differ in size, drawing state, saved states, path and painted
  content, leave the same raster: a 900 by 1200 bitmap holding exactly the layers of the
  pipeline for that configuration and those images; the drawing state, the saved states
  and the path they end with are the same too.  Running \<open>drawCanvas\<close> a second time
  changes nothing.  (Both canvases are mounted and give a 2D context; without either,
  \<open>drawCanvas\<close> returns at once.)
\<close>

theorem drawCanvas_deterministic:
  assumes "canvasRef st1 = Some c1" "has_context c1"
    and "canvasRef st2 = Some c2" "has_context c2"
    and "config st1 = config st2" "loadedImages st1 = loadedImages st2"
  shows "raster (drawCanvas st1) = raster (drawCanvas st2)
       \<and> raster (drawCanvas st1) = Some (900, 1200, collage (config st1) (loadedImages st1))
       \<and> (\<exists>c1' c2'. canvasRef (drawCanvas st1) = Some c1' \<and> canvasRef (drawCanvas st2) = Some c2'
             \<and> state c1' = state c2' \<and> saved c1' = saved c2' \<and> path c1' = path c2')
       \<and> drawCanvas (drawCanvas st1) = drawCanvas st1"
proof -
  have "drawCanvas (drawCanvas st1) = drawCanvas st1"
    using assms(1,2) by (simp add: drawCanvas_eq)
  moreover have "\<exists>c1' c2'. canvasRef (drawCanvas st1) = Some c1' \<and> canvasRef (drawCanvas st2) = Some c2'
             \<and> state c1' = state c2' \<and> saved c1' = saved c2' \<and> path c1' = path c2'"
    using assms by (simp add: drawCanvas_eq)
  ultimately show ?thesis using assms by (simp add: raster_drawCanvas)
qed

theorem drawCanvas_deterministic_witness:
  "canvasRef example_state = Some example_canvas \<and> has_context example_canvas
   \<and> canvasRef (example_state\<lparr>canvasRef := Some example_canvas_used\<rparr>) = Some example_canvas_used
   \<and> has_context example_canvas_used
   \<and> bitmap example_canvas_used \<noteq> bitmap example_canvas
   \<and> raster (drawCanvas example_state)
       = raster (drawCanvas (example_state\<lparr>canvasRef := Some example_canvas_used\<rparr>))
   \<and> drawCanvas (drawCanvas example_state) = drawCanvas example_state"
  using drawCanvas_deterministic [of example_state example_canvas
           "example_state\<lparr>canvasRef := Some example_canvas_used\<rparr>" example_canvas_used]
  by (simp add: example_state_def example_canvas_def example_canvas_used_def)

text \<open>
  C5.  On a mounted canvas with a 2D context: when both decoded images are absent, what is
  painted is the background fill, then the accent band, then the text layer, and nothing
  else, whatever the two transforms are.  More generally a layer whose decoded image is
  absent contributes nothing and its transform has no effect.  \<open>drawCanvas\<close> has no error
  result.
\<close>

theorem absent_layers_skipped:
  assumes "canvasRef st = Some c" "has_context c"
  shows "(char (loadedImages st) = None \<and> overlay (loadedImages st) = None \<longrightarrow>
            painted (drawCanvas st)
              = background_fill (config st) @ accent_band (config st) @ text_layer (config st)
          \<and> (\<forall>t1 t2. painted (drawCanvas (st\<lparr>config := (config st)\<lparr>characterTransform := t1,
                                                                     overlayTransform := t2\<rparr>\<rparr>))
                       = painted (drawCanvas st)))
       \<and> (char (loadedImages st) = None \<longrightarrow>
            painted (drawCanvas st)
              = background_fill (config st) @ accent_band (config st)
                @ pattern_layer (config st) (loadedImages st) @ text_layer (config st)
          \<and> (\<forall>t. painted (drawCanvas (st\<lparr>config := (config st)\<lparr>characterTransform := t\<rparr>\<rparr>))
                    = painted (drawCanvas st)))
       \<and> (overlay (loadedImages st) = None \<longrightarrow>
            painted (drawCanvas st)
              = background_fill (config st) @ accent_band (config st)
                @ portrait_layer (config st) (loadedImages st) @ text_layer (config st)
          \<and> (\<forall>t. painted (drawCanvas (st\<lparr>config := (config st)\<lparr>overlayTransform := t\<rparr>\<rparr>))
                    = painted (drawCanvas st)))"
  using assms
  by (simp add: painted_drawCanvas collage_def absent_layers
      layers_ignore_character_transform layers_ignore_overlay_transform)

theorem absent_layers_skipped_witness:
  "canvasRef example_state_no_image = Some example_canvas \<and> has_context example_canvas
   \<and> char (loadedImages example_state_no_image) = None
   \<and> overlay (loadedImages example_state_no_image) = None
   \<and> painted (drawCanvas example_state_no_image)
       = background_fill (config example_state_no_image) @ accent_band (config example_state_no_image)
         @ text_layer (config example_state_no_image)
   \<and> painted (drawCanvas (example_state_no_image\<lparr>config := (config example_state_no_image)
          \<lparr>characterTransform := \<lparr>t_x = Fin 7, t_y = Fin 8, t_scale = Fin 2, t_rotation = Fin 90\<rparr>,
           overlayTransform := \<lparr>t_x = Fin 1, t_y = Fin 2, t_scale = Fin 3, t_rotation = Fin 45\<rparr>\<rparr>\<rparr>))
       = painted (drawCanvas example_state_no_image)"
  using absent_layers_skipped [of example_state_no_image example_canvas]
  by (simp add: example_state_no_image_def example_state_def example_canvas_def)

section \<open>The portrait under the identity transform\<close>

text \<open>The operations of the base fit on images of 200 by 300, 2736 by 3648 and 1440 by 1800.\<close>

lemma fit_200_300_1: "round_d (37 / 10) = Fin (4165829655317709 / 1125899906842624)"
  by (subst round_d_fin, simp, subst fl_eval [of 1]) (simp_all add: rnd_def power_int_minus)

lemma fit_200_300_2: "round_d (52 / 15) = Fin (1951559838527215 / 562949953421312)"
  by (subst round_d_fin, simp, subst fl_eval [of 1]) (simp_all add: rnd_def power_int_minus)

lemma fit_200_300_3: "round_d (48788995963180375 / 70368744177664) = Fin (6098624495397547 / 8796093022208)"
  by (subst round_d_fin, simp, subst fl_eval [of 9]) (simp_all add: rnd_def power_int_minus)

lemma fit_200_300_4: "round_d (146366987889541125 / 140737488355328) = Fin 1040"
  by (subst round_d_fin, simp, subst fl_eval [of 10]) (simp_all add: rnd_def power_int_minus)

lemma fit_200_300_5: "round_d (- (6098624495397547 / 17592186044416)) = Fin (- (6098624495397547 / 17592186044416))"
  by (subst round_d_fin, simp, subst fl_eval [of 8]) (simp_all add: rnd_def power_int_minus)

lemma fit_2736_3648_1: "round_d (185 / 684) = Fin (2436157693168251 / 9007199254740992)"
  by (subst round_d_fin, simp, subst fl_eval [of "- 2"]) (simp_all add: rnd_def power_int_minus)

lemma fit_2736_3648_2: "round_d (65 / 228) = Fin (2567841892798967 / 9007199254740992)"
  by (subst round_d_fin, simp, subst fl_eval [of "- 2"]) (simp_all add: rnd_def power_int_minus)

lemma fit_2736_3648_3: "round_d (416582965531770921 / 562949953421312) = Fin (6509108836433921 / 8796093022208)"
  by (subst round_d_fin, simp, subst fl_eval [of 9]) (simp_all add: rnd_def power_int_minus)

lemma fit_2736_3648_4: "round_d (138860988510590307 / 140737488355328) = Fin (4339405890955947 / 4398046511104)"
  by (subst round_d_fin, simp, subst fl_eval [of 9]) (simp_all add: rnd_def power_int_minus)

lemma fit_2736_3648_5: "round_d (- (6509108836433921 / 17592186044416)) = Fin (- (6509108836433921 / 17592186044416))"
  by (subst round_d_fin, simp, subst fl_eval [of 8]) (simp_all add: rnd_def power_int_minus)

lemma fit_2736_3648_6: "round_d (- (4339405890955947 / 8796093022208)) = Fin (- (4339405890955947 / 8796093022208))"
  by (subst round_d_fin, simp, subst fl_eval [of 8]) (simp_all add: rnd_def power_int_minus)

lemma fit_1440_1800_1: "round_d (37 / 72) = Fin (1157174904254919 / 2251799813685248)"
  by (subst round_d_fin, simp, subst fl_eval [of "- 1"]) (simp_all add: rnd_def power_int_minus)

lemma fit_1440_1800_2: "round_d (26 / 45) = Fin (2602079784702953 / 4503599627370496)"
  by (subst round_d_fin, simp, subst fl_eval [of "- 1"]) (simp_all add: rnd_def power_int_minus)

lemma fit_1440_1800_3: "round_d (52072870691471355 / 70368744177664) = Fin (6509108836433919 / 8796093022208)"
  by (subst round_d_fin, simp, subst fl_eval [of 9]) (simp_all add: rnd_def power_int_minus)

lemma fit_1440_1800_4: "round_d (260364353457356775 / 281474976710656) = Fin (8136386045542399 / 8796093022208)"
  by (subst round_d_fin, simp, subst fl_eval [of 9]) (simp_all add: rnd_def power_int_minus)

lemma fit_1440_1800_5: "round_d (- (6509108836433919 / 17592186044416)) = Fin (- (6509108836433919 / 17592186044416))"
  by (subst round_d_fin, simp, subst fl_eval [of 8]) (simp_all add: rnd_def power_int_minus)

lemma fit_1440_1800_6: "round_d (- (8136386045542399 / 17592186044416)) = Fin (- (8136386045542399 / 17592186044416))"
  by (subst round_d_fin, simp, subst fl_eval [of 8]) (simp_all add: rnd_def power_int_minus)

lemma fit_200_300:
  "baseScale_of 200 300 = Fin (1951559838527215 / 562949953421312)"
  "dmul (Fin 200) (Fin (1951559838527215 / 562949953421312)) = Fin (6098624495397547 / 8796093022208)"
  "dmul (Fin 300) (Fin (1951559838527215 / 562949953421312)) = Fin (1040)"
  by (simp_all add: baseScale_of_def dmin_def fit_200_300_1 fit_200_300_2 fit_200_300_3 fit_200_300_4 fit_200_300_5)

lemma fit_2736_3648:
  "baseScale_of 2736 3648 = Fin (2436157693168251 / 9007199254740992)"
  "dmul (Fin 2736) (Fin (2436157693168251 / 9007199254740992)) = Fin (6509108836433921 / 8796093022208)"
  "dmul (Fin 3648) (Fin (2436157693168251 / 9007199254740992)) = Fin (4339405890955947 / 4398046511104)"
  by (simp_all add: baseScale_of_def dmin_def fit_2736_3648_1 fit_2736_3648_2 fit_2736_3648_3 fit_2736_3648_4 fit_2736_3648_5 fit_2736_3648_6)

lemma fit_1440_1800:
  "baseScale_of 1440 1800 = Fin (1157174904254919 / 2251799813685248)"
  "dmul (Fin 1440) (Fin (1157174904254919 / 2251799813685248)) = Fin (6509108836433919 / 8796093022208)"
  "dmul (Fin 1800) (Fin (1157174904254919 / 2251799813685248)) = Fin (8136386045542399 / 8796093022208)"
  by (simp_all add: baseScale_of_def dmin_def fit_1440_1800_1 fit_1440_1800_2 fit_1440_1800_3 fit_1440_1800_4 fit_1440_1800_5 fit_1440_1800_6)

lemma portrait_layer_identity:
  assumes "char imgs = Some img" "characterTransform cfg = INITIAL_TRANSFORM"
    and "dmul (of_uint (img_width img)) (baseScale_of (img_width img) (img_height img)) = Fin W"
    and "dmul (of_uint (img_height img)) (baseScale_of (img_width img) (img_height img)) = Fin H"
    and "round_d (- (W / 2)) = Fin (- (W / 2))" "round_d (- (H / 2)) = Fin (- (H / 2))"
  shows "portrait_layer cfg imgs =
     [DrawImage ((base_state cfg)\<lparr>transform := centered_translation,
                    shadowColor := ''rgba(0,0,0,0.2)'', shadowBlur := 20,
                    shadowOffsetX := 5, shadowOffsetY := 10\<rparr>)
        img (- W / 2) (- H / 2) W H]"
  using assms(1,2,5,6)
  by (simp add: portrait_layer_def Let_def INITIAL_TRANSFORM_def assms(3,4) MATH_PI_def mat_scale_def
      mat_rotate_def mat_translate_def identity_matrix_def centered_translation_def)

lemma painted_example_state_with:
  "painted (drawCanvas (example_state_with img))
     = background_fill (config (example_state_with img)) @ accent_band (config (example_state_with img))
       @ portrait_layer (config (example_state_with img)) \<lparr>char = Some img, overlay = None\<rparr>
       @ text_layer (config (example_state_with img))"
proof -
  have "painted (drawCanvas (example_state_with img))
          = collage (config (example_state_with img)) (loadedImages (example_state_with img))"
    by (rule painted_drawCanvas [of _ example_canvas])
       (simp_all add: example_state_with_def example_state_def example_canvas_def)
  then show ?thesis by (simp add: collage_def absent_layers example_state_with_def)
qed

text \<open>
  C6, as it is stated, takes the drawn size in exact arithmetic.  The program computes the
  scale and the two sides in doubles.  A 2736 by 3648 photograph under the identity
  transform is drawn \<open>740.0000000000001\<close> wide: wider than the available 740, its left edge
  at less than 80.  A 1440 by 1800 scan is drawn \<open>739.9999999999999\<close> by \<open>924.9999999999999\<close>:
  neither side fills the available area exactly.
\<close>

theorem base_fit_rounding_counterexample:
  "DrawImage ((base_state (config (example_state_with example_photo)))
                 \<lparr>transform := centered_translation, shadowColor := ''rgba(0,0,0,0.2)'',
                  shadowBlur := 20, shadowOffsetX := 5, shadowOffsetY := 10\<rparr>)
       example_photo
       (- (6509108836433921 / 8796093022208) / 2) (- (4339405890955947 / 4398046511104) / 2)
       (6509108836433921 / 8796093022208) (4339405890955947 / 4398046511104)
     \<in> set (painted (drawCanvas (example_state_with example_photo)))
   \<and> (740 :: real) < 6509108836433921 / 8796093022208
   \<and> fst (apply_matrix centered_translation
             (- (6509108836433921 / 8796093022208) / 2, - (4339405890955947 / 4398046511104) / 2)) < 80
   \<and> DrawImage ((base_state (config (example_state_with example_scan)))
                 \<lparr>transform := centered_translation, shadowColor := ''rgba(0,0,0,0.2)'',
                  shadowBlur := 20, shadowOffsetX := 5, shadowOffsetY := 10\<rparr>)
       example_scan
       (- (6509108836433919 / 8796093022208) / 2) (- (8136386045542399 / 8796093022208) / 2)
       (6509108836433919 / 8796093022208) (8136386045542399 / 8796093022208)
     \<in> set (painted (drawCanvas (example_state_with example_scan)))
   \<and> (6509108836433919 / 8796093022208 :: real) < 740
   \<and> (8136386045542399 / 8796093022208 :: real) < 1040"
proof -
  have t: "\<And>img. characterTransform (config (example_state_with img)) = INITIAL_TRANSFORM"
    by (simp add: example_state_with_def)
  have "portrait_layer (config (example_state_with example_photo)) \<lparr>char = Some example_photo, overlay = None\<rparr>
      = [DrawImage ((base_state (config (example_state_with example_photo)))
                 \<lparr>transform := centered_translation, shadowColor := ''rgba(0,0,0,0.2)'',
                  shadowBlur := 20, shadowOffsetX := 5, shadowOffsetY := 10\<rparr>)
       example_photo
       (- (6509108836433921 / 8796093022208) / 2) (- (4339405890955947 / 4398046511104) / 2)
       (6509108836433921 / 8796093022208) (4339405890955947 / 4398046511104)]"
    by (rule portrait_layer_identity [OF _ t])
       (simp_all add: example_photo_def fit_2736_3648 fit_2736_3648_3 fit_2736_3648_4 fit_2736_3648_5
          fit_2736_3648_6)
  then have 1: "DrawImage ((base_state (config (example_state_with example_photo)))
                 \<lparr>transform := centered_translation, shadowColor := ''rgba(0,0,0,0.2)'',
                  shadowBlur := 20, shadowOffsetX := 5, shadowOffsetY := 10\<rparr>)
       example_photo
       (- (6509108836433921 / 8796093022208) / 2) (- (4339405890955947 / 4398046511104) / 2)
       (6509108836433921 / 8796093022208) (4339405890955947 / 4398046511104)
     \<in> set (painted (drawCanvas (example_state_with example_photo)))"
    by (simp only: painted_example_state_with set_append list.set Un_iff insert_iff simp_thms)
  have "portrait_layer (config (example_state_with example_scan)) \<lparr>char = Some example_scan, overlay = None\<rparr>
      = [DrawImage ((base_state (config (example_state_with example_scan)))
                 \<lparr>transform := centered_translation, shadowColor := ''rgba(0,0,0,0.2)'',
                  shadowBlur := 20, shadowOffsetX := 5, shadowOffsetY := 10\<rparr>)
       example_scan
       (- (6509108836433919 / 8796093022208) / 2) (- (8136386045542399 / 8796093022208) / 2)
       (6509108836433919 / 8796093022208) (8136386045542399 / 8796093022208)]"
    by (rule portrait_layer_identity [OF _ t])
       (simp_all add: example_scan_def fit_1440_1800 fit_1440_1800_3 fit_1440_1800_4 fit_1440_1800_5
          fit_1440_1800_6)
  then have 2: "DrawImage ((base_state (config (example_state_with example_scan)))
                 \<lparr>transform := centered_translation, shadowColor := ''rgba(0,0,0,0.2)'',
                  shadowBlur := 20, shadowOffsetX := 5, shadowOffsetY := 10\<rparr>)
       example_scan
       (- (6509108836433919 / 8796093022208) / 2) (- (8136386045542399 / 8796093022208) / 2)
       (6509108836433919 / 8796093022208) (8136386045542399 / 8796093022208)
     \<in> set (painted (drawCanvas (example_state_with example_scan)))"
    by (simp only: painted_example_state_with set_append list.set Un_iff insert_iff simp_thms)
  have 3: "(740 :: real) < 6509108836433921 / 8796093022208"
    "fst (apply_matrix centered_translation
             (- (6509108836433921 / 8796093022208) / 2, - (4339405890955947 / 4398046511104) / 2)) < 80"
    "(6509108836433919 / 8796093022208 :: real) < 740"
    "(8136386045542399 / 8796093022208 :: real) < 1040"
    by (simp_all add: apply_matrix_def centered_translation_def)
  from 1 2 3 show ?thesis by blast
qed

lemma fit_sizes:
  assumes "0 < img_width img" "img_width img < 2 ^ 32" "0 < img_height img" "img_height img < 2 ^ 32"
  defines "w \<equiv> real (img_width img)" and "h \<equiv> real (img_height img)"
  defines "s \<equiv> baseScale_exact w h"
  defines "W \<equiv> fl (w * fl s)" and "H \<equiv> fl (h * fl s)"
  shows "baseScale_of (img_width img) (img_height img) = Fin (fl s)"
    "dmul (of_uint (img_width img)) (baseScale_of (img_width img) (img_height img)) = Fin W"
    "dmul (of_uint (img_height img)) (baseScale_of (img_width img) (img_height img)) = Fin H"
    "round_d (- (W / 2)) = Fin (- (W / 2))" "round_d (- (H / 2)) = Fin (- (H / 2))"
    "\<bar>fl s - s\<bar> \<le> s / 2 ^ 53"
    "\<bar>W - w * s\<bar> \<le> w * s / 2 ^ 51" "\<bar>H - h * s\<bar> \<le> h * s / 2 ^ 51"
    "0 < w * s" "w * s \<le> 740" "0 < h * s" "h * s \<le> 1040" "w * s = 740 \<or> h * s = 1040"
proof -
  note sb = baseScale_exact_bounds [OF assms(1-4), folded w_def h_def s_def]
  have w: "1 \<le> w" "w < 2 ^ 32" using assms(1,2) by (simp_all add: w_def Suc_leI)
  have h: "1 \<le> h" "h < 2 ^ 32" using assms(3,4) by (simp_all add: h_def Suc_leI)
  have ws: "w * s \<le> 1040" using sb(3) by linarith
  note ew = fl_fl_err [OF w sb(2) ws, folded W_def]
  note eh = fl_fl_err [OF h sb(2) sb(4), folded H_def]
  have w1: "of_int 0 \<le> w * fl s" "w * fl s \<le> of_int 741" using ew(4,5) sb(3) by simp_all
  have h1: "of_int 0 \<le> h * fl s" "h * fl s \<le> of_int 1041" using eh(4,5) sb(4) by simp_all
  note rw = round_d_between [OF w1, folded W_def]
  note rh = round_d_between [OF h1, folded H_def]
  show bs: "baseScale_of (img_width img) (img_height img) = Fin (fl s)"
    unfolding s_def w_def h_def by (rule baseScale_of_fl [OF assms(1,3)])
  show "dmul (of_uint (img_width img)) (baseScale_of (img_width img) (img_height img)) = Fin W"
    using rw(1) by (simp add: bs of_uint_def w_def)
  show "dmul (of_uint (img_height img)) (baseScale_of (img_width img) (img_height img)) = Fin H"
    using rh(1) by (simp add: bs of_uint_def h_def)
  have "of_int (- 741) \<le> - (W / 2)" "- (W / 2) \<le> of_int 0" using rw(2,3) by simp_all
  then have "round_d (- (W / 2)) = Fin (fl (- (W / 2)))" by (rule round_d_between(1)) simp_all
  then show "round_d (- (W / 2)) = Fin (- (W / 2))" by (simp add: fl_minus ew(3))
  have "of_int (- 1041) \<le> - (H / 2)" "- (H / 2) \<le> of_int 0" using rh(2,3) by simp_all
  then have "round_d (- (H / 2)) = Fin (fl (- (H / 2)))" by (rule round_d_between(1)) simp_all
  then show "round_d (- (H / 2)) = Fin (- (H / 2))" by (simp add: fl_minus eh(3))
  have "(2::real) powi (- 1022) \<le> 2 powi (- 23)" by (rule pow2_mono) simp
  also have "\<dots> \<le> 740 / 2 ^ 32" by (simp add: power_int_minus)
  finally have "(2::real) powi (- 1022) \<le> \<bar>s\<bar>" using sb(2) by linarith
  then have "\<bar>fl s - s\<bar> \<le> \<bar>s\<bar> / 2 ^ 53" by (rule fl_err)
  then show "\<bar>fl s - s\<bar> \<le> s / 2 ^ 53" using sb(1) by simp
  show "\<bar>W - w * s\<bar> \<le> w * s / 2 ^ 51" by (rule ew(1))
  show "\<bar>H - h * s\<bar> \<le> h * s / 2 ^ 51" by (rule eh(1))
  show "0 < w * s" "0 < h * s" using sb(1) w h by simp_all
  show "w * s \<le> 740" "h * s \<le> 1040" "w * s = 740 \<or> h * s = 1040" by (rule sb)+
qed

text \<open>
  C6, as the program computes it.  On a mounted canvas with a 2D context, with a decoded
  character image whose sides \<open>w\<close> and \<open>h\<close> are positive and below \<open>2 ^ 32\<close>, and the identity
  transform, the character is drawn by one \<open>drawImage\<close> call between the layers below and
  the text, under the pure translation to \<open>(450, 600)\<close>, with destination rectangle
  \<open>(- W / 2, - H / 2, W, H)\<close>: on the canvas the rectangle from \<open>(450 - W / 2, 600 - H / 2)\<close>
  to \<open>(450 + W / 2, 600 + H / 2)\<close>, centred at \<open>(450, 600)\<close>.  Here the scale is the exact
  \<open>s = min ((900 - 160) / w) ((1200 - 160) / h)\<close> rounded to a double, and \<open>W\<close> and \<open>H\<close> are
  the products of \<open>w\<close> and \<open>h\<close> with that double, rounded: each is within the relative error
  \<open>2 powi - 51\<close> of \<open>w * s\<close> and \<open>h * s\<close>.  So the aspect ratio is kept, the rectangle stays
  inside the margin of 80, and \<open>W\<close> is 740 or \<open>H\<close> is 1040, each up to an error below
  \<open>2 powi - 40\<close>, not exactly.  A 200 by 300 image gives the scale \<open>3.466666666666667\<close>,
  \<open>H = 1040\<close> and \<open>W = 693.3333333333334\<close>.
\<close>

theorem identity_transform_fit:
  assumes cv: "canvasRef st = Some c" "has_context c"
    and img: "char (loadedImages st) = Some img"
    and sz: "0 < img_width img" "img_width img < 2 ^ 32" "0 < img_height img" "img_height img < 2 ^ 32"
    and t: "characterTransform (config st) = INITIAL_TRANSFORM"
  defines "w \<equiv> real (img_width img)" and "h \<equiv> real (img_height img)"
  defines "s \<equiv> baseScale_exact w h"
  defines "W \<equiv> fl (w * fl s)" and "H \<equiv> fl (h * fl s)"
  shows "painted (drawCanvas st) =
           background_fill (config st) @ accent_band (config st)
           @ pattern_layer (config st) (loadedImages st)
           @ [DrawImage ((base_state (config st))\<lparr>transform := centered_translation,
                            shadowColor := ''rgba(0,0,0,0.2)'', shadowBlur := 20,
                            shadowOffsetX := 5, shadowOffsetY := 10\<rparr>)
                img (- W / 2) (- H / 2) W H]
           @ text_layer (config st)
       \<and> apply_matrix centered_translation (- W / 2, - H / 2) = (450 - W / 2, 600 - H / 2)
       \<and> apply_matrix centered_translation (- W / 2 + W, - H / 2 + H) = (450 + W / 2, 600 + H / 2)
       \<and> baseScale_of (img_width img) (img_height img) = Fin (fl s)
       \<and> \<bar>fl s - s\<bar> \<le> s / 2 ^ 53
       \<and> \<bar>W - w * s\<bar> \<le> w * s / 2 ^ 51 \<and> \<bar>H - h * s\<bar> \<le> h * s / 2 ^ 51
       \<and> \<bar>W * h - H * w\<bar> \<le> w * h * s / 2 ^ 50
       \<and> 80 - 1 / 2 ^ 40 \<le> 450 - W / 2 \<and> 450 + W / 2 \<le> 900 - 80 + 1 / 2 ^ 40
       \<and> 80 - 1 / 2 ^ 40 \<le> 600 - H / 2 \<and> 600 + H / 2 \<le> 1200 - 80 + 1 / 2 ^ 40
       \<and> (\<bar>W - (900 - 160)\<bar> \<le> 1 / 2 ^ 40 \<or> \<bar>H - (1200 - 160)\<bar> \<le> 1 / 2 ^ 40)
       \<and> (img_width img = 200 \<and> img_height img = 300 \<longrightarrow>
            fl s = 1951559838527215 / 562949953421312
          \<and> W = 6098624495397547 / 8796093022208 \<and> H = 1040 \<and> 693 < W \<and> W < 694)"
proof -
  note f = fit_sizes [OF sz, folded w_def h_def, folded s_def, folded W_def H_def]
  have 1: "painted (drawCanvas st) =
           background_fill (config st) @ accent_band (config st)
           @ pattern_layer (config st) (loadedImages st)
           @ [DrawImage ((base_state (config st))\<lparr>transform := centered_translation,
                            shadowColor := ''rgba(0,0,0,0.2)'', shadowBlur := 20,
                            shadowOffsetX := 5, shadowOffsetY := 10\<rparr>)
                img (- W / 2) (- H / 2) W H]
           @ text_layer (config st)"
    using cv by (simp add: painted_drawCanvas collage_def portrait_layer_identity [OF img t f(2-5)])
  have 2: "apply_matrix centered_translation (- W / 2, - H / 2) = (450 - W / 2, 600 - H / 2)"
    "apply_matrix centered_translation (- W / 2 + W, - H / 2 + H) = (450 + W / 2, 600 + H / 2)"
    by (simp_all add: apply_matrix_def centered_translation_def)
  define u :: real where "u = 1 / 2 ^ 41"
  have u: "2 * u = 1 / 2 ^ 40" "0 < u" by (simp_all add: u_def)
  have wh: "0 < w" "0 < h" using sz by (simp_all add: w_def h_def)
  have "w * s / 2 ^ 51 \<le> 740 / 2 ^ 51" using f(10) by (rule divide_right_mono) simp
  also have "\<dots> \<le> u" by (simp add: u_def)
  finally have eW: "\<bar>W - w * s\<bar> \<le> u" using f(7) by linarith
  have "h * s / 2 ^ 51 \<le> 1040 / 2 ^ 51" using f(12) by (rule divide_right_mono) simp
  also have "\<dots> \<le> 2 * u" by (simp add: u_def)
  finally have eH: "\<bar>H - h * s\<bar> \<le> 2 * u" using f(8) by linarith
  have 3: "\<bar>W * h - H * w\<bar> \<le> w * h * s / 2 ^ 50"
  proof -
    have "W * h - H * w = (W - w * s) * h - (H - h * s) * w" by (simp add: algebra_simps)
    then have "\<bar>W * h - H * w\<bar> \<le> \<bar>(W - w * s) * h\<bar> + \<bar>(H - h * s) * w\<bar>" by linarith
    also have "\<dots> = \<bar>W - w * s\<bar> * h + \<bar>H - h * s\<bar> * w" using wh by (simp add: abs_mult)
    also have "\<dots> \<le> (w * s / 2 ^ 51) * h + (h * s / 2 ^ 51) * w"
      using f(7,8) wh by (intro add_mono mult_right_mono) simp_all
    also have "\<dots> = w * h * s / 2 ^ 50" by simp
    finally show ?thesis .
  qed
  have 4: "80 - 2 * u \<le> 450 - W / 2" "450 + W / 2 \<le> 900 - 80 + 2 * u"
    "80 - 2 * u \<le> 600 - H / 2" "600 + H / 2 \<le> 1200 - 80 + 2 * u"
    using eW eH f(10,12) u(2) by linarith+
  have 5: "\<bar>W - (900 - 160)\<bar> \<le> 2 * u \<or> \<bar>H - (1200 - 160)\<bar> \<le> 2 * u"
    using f(13) eW eH u(2) by auto
  have 6: "img_width img = 200 \<and> img_height img = 300 \<longrightarrow>
            fl s = 1951559838527215 / 562949953421312
          \<and> W = 6098624495397547 / 8796093022208 \<and> H = 1040 \<and> 693 < W \<and> W < 694"
  proof
    assume a: "img_width img = 200 \<and> img_height img = 300"
    have "Fin (fl s) = Fin (1951559838527215 / 562949953421312)"
      using f(1) fit_200_300(1) a by simp
    then have s: "fl s = 1951559838527215 / 562949953421312" by (simp only: double.inject)
    have "Fin W = Fin (6098624495397547 / 8796093022208)"
      using f(2) a by (simp add: fit_200_300 fit_200_300_3)
    then have W: "W = 6098624495397547 / 8796093022208" by (simp only: double.inject)
    have "Fin H = Fin 1040"
      using f(3) a by (simp add: fit_200_300 fit_200_300_4)
    then have H: "H = 1040" by (simp only: double.inject)
    have "693 < W" "W < 694" by (simp_all add: W)
    then show "fl s = 1951559838527215 / 562949953421312
          \<and> W = 6098624495397547 / 8796093022208 \<and> H = 1040 \<and> 693 < W \<and> W < 694"
      using s W H by blast
  qed
  from 1 2 f(1,6,7,8) 3 4 [unfolded u(1)] 5 [unfolded u(1)] 6 show ?thesis by blast
qed

theorem identity_transform_fit_witness:
  "canvasRef (example_state_with example_image) = Some example_canvas
   \<and> has_context example_canvas
   \<and> char (loadedImages (example_state_with example_image)) = Some example_image
   \<and> 0 < img_width example_image \<and> img_width example_image < 2 ^ 32
   \<and> 0 < img_height example_image \<and> img_height example_image < 2 ^ 32
   \<and> characterTransform (config (example_state_with example_image)) = INITIAL_TRANSFORM
   \<and> img_width example_image = 200 \<and> img_height example_image = 300
   \<and> baseScale_of (img_width example_image) (img_height example_image)
        = Fin (1951559838527215 / 562949953421312)
   \<and> DrawImage ((base_state (config (example_state_with example_image)))
                 \<lparr>transform := centered_translation, shadowColor := ''rgba(0,0,0,0.2)'',
                  shadowBlur := 20, shadowOffsetX := 5, shadowOffsetY := 10\<rparr>)
       example_image
       (- (6098624495397547 / 8796093022208) / 2) (- 1040 / 2)
       (6098624495397547 / 8796093022208) 1040
     \<in> set (painted (drawCanvas (example_state_with example_image)))"
proof -
  let ?st = "example_state_with example_image"
  have h: "canvasRef ?st = Some example_canvas" "has_context example_canvas"
    "char (loadedImages ?st) = Some example_image"
    "0 < img_width example_image" "img_width example_image < 2 ^ 32"
    "0 < img_height example_image" "img_height example_image < 2 ^ 32"
    "characterTransform (config ?st) = INITIAL_TRANSFORM"
    by (simp_all add: example_state_with_def example_state_def example_canvas_def example_image_def)
  have e: "img_width example_image = 200 \<and> img_height example_image = 300"
    by (simp add: example_image_def)
  note fit = identity_transform_fit [OF h]
  note six = fit [THEN conjunct2, THEN conjunct2, THEN conjunct2, THEN conjunct2, THEN conjunct2,
      THEN conjunct2, THEN conjunct2, THEN conjunct2, THEN conjunct2, THEN conjunct2,
      THEN conjunct2, THEN conjunct2, THEN conjunct2, THEN mp, OF e]
  have s: "fl (baseScale_exact (real (img_width example_image)) (real (img_height example_image)))
             = 1951559838527215 / 562949953421312"
    using six by blast
  have W: "fl (real (img_width example_image)
               * fl (baseScale_exact (real (img_width example_image)) (real (img_height example_image))))
             = 6098624495397547 / 8796093022208"
    using six by blast
  have H: "fl (real (img_height example_image)
               * fl (baseScale_exact (real (img_width example_image)) (real (img_height example_image))))
             = 1040"
    using six by blast
  have b: "baseScale_of (img_width example_image) (img_height example_image)
        = Fin (1951559838527215 / 562949953421312)"
    using fit [THEN conjunct2, THEN conjunct2, THEN conjunct2, THEN conjunct1] unfolding s .
  have p: "painted (drawCanvas ?st) =
           background_fill (config ?st) @ accent_band (config ?st)
           @ pattern_layer (config ?st) (loadedImages ?st)
           @ [DrawImage ((base_state (config ?st))\<lparr>transform := centered_translation,
                            shadowColor := ''rgba(0,0,0,0.2)'', shadowBlur := 20,
                            shadowOffsetX := 5, shadowOffsetY := 10\<rparr>)
                example_image (- (6098624495397547 / 8796093022208) / 2) (- 1040 / 2)
                (6098624495397547 / 8796093022208) 1040]
           @ text_layer (config ?st)"
    using fit [THEN conjunct1] unfolding W H .
  have "DrawImage ((base_state (config ?st))
                 \<lparr>transform := centered_translation, shadowColor := ''rgba(0,0,0,0.2)'',
                  shadowBlur := 20, shadowOffsetX := 5, shadowOffsetY := 10\<rparr>)
       example_image
       (- (6098624495397547 / 8796093022208) / 2) (- 1040 / 2)
       (6098624495397547 / 8796093022208) 1040
     \<in> set (painted (drawCanvas ?st))"
    by (simp only: p set_append list.set Un_iff insert_iff simp_thms)
  then show ?thesis using h e b by blast
qed

lemma drawImage_call_no_text: "list_all (\<lambda>op. \<not> is_text op) (drawImage_call s img dx dy dw dh)"
  by (cases "(s, img, dx, dy, dw, dh)" rule: drawImage_call.cases) simp_all

lemma text_baselines_append: "text_baselines (xs @ ys) = text_baselines xs @ text_baselines ys"
  by (induction xs rule: text_baselines.induct) simp_all

lemma text_baselines_drawImage_call: "text_baselines (drawImage_call s img dx dy dw dh) = []"
  by (cases "(s, img, dx, dy, dw, dh)" rule: drawImage_call.cases) simp_all

lemma no_text_before:
  "list_all (\<lambda>op. \<not> is_text op) (background_fill cfg)"
  "list_all (\<lambda>op. \<not> is_text op) (accent_band cfg)"
  "list_all (\<lambda>op. \<not> is_text op) (pattern_layer cfg imgs)"
  "list_all (\<lambda>op. \<not> is_text op) (portrait_layer cfg imgs)"
  by (simp_all add: background_fill_def accent_band_def pattern_layer_def portrait_layer_def Let_def
      drawImage_call_no_text split: option.split)

lemma text_states:
  "textAlign (furigana_state cfg) = ''center''" "textBaseline (furigana_state cfg) = ''middle''"
  "strokeStyle (furigana_state cfg) = ''white''" "lineWidth (furigana_state cfg) = 6"
  "textAlign (name_state cfg) = ''center''" "textBaseline (name_state cfg) = ''middle''"
  "strokeStyle (name_state cfg) = ''white''" "lineWidth (name_state cfg) = 15"
  "lineJoin (name_state cfg) = ''round''"
  by (simp_all add: furigana_state_def name_state_def text_state_def)

text \<open>
  C7, as the code has it.  On a mounted canvas with a 2D context the text is painted last:
  what is painted is the layers below, none of which is a text call, then the furigana
  calls, then the name calls.  A string that is empty contributes no call.  A furigana that
  is not empty is stroked and then filled at \<open>(450, 80)\<close>, the stroke white and 6 wide, the
  fill \<open>#555\<close>; a name that is not empty is stroked and then filled at \<open>(450, 180)\<close>, the
  stroke white and 15 wide, the fill \<open>#333\<close>.  All four calls are made with
  \<open>textAlign = center\<close> and \<open>textBaseline = middle\<close>: the strings are centred on \<open>x = 450\<close>
  and vertically centred on \<open>y = 80\<close> and \<open>y = 180\<close>, not anchored by their top edge.
\<close>

theorem text_layer_last:
  assumes "canvasRef st = Some c" "has_context c"
  defines "cfg \<equiv> config st"
  defines "below \<equiv> background_fill cfg @ accent_band cfg @ pattern_layer cfg (loadedImages st)
                     @ portrait_layer cfg (loadedImages st)"
  shows "painted (drawCanvas st) = below @ furigana_text cfg @ name_text cfg
       \<and> list_all (\<lambda>op. \<not> is_text op) below
       \<and> furigana_text cfg =
           (if furigana cfg = [] then []
            else [StrokeText (furigana_state cfg) (furigana cfg) 450 80,
                  FillText ((furigana_state cfg)\<lparr>fillStyle := ''#555''\<rparr>) (furigana cfg) 450 80])
       \<and> name_text cfg =
           (if name cfg = [] then []
            else [StrokeText (name_state cfg) (name cfg) 450 180,
                  FillText ((name_state cfg)\<lparr>fillStyle := ''#333''\<rparr>) (name cfg) 450 180])
       \<and> textAlign (furigana_state cfg) = ''center'' \<and> textAlign (name_state cfg) = ''center''
       \<and> textBaseline (furigana_state cfg) = ''middle'' \<and> textBaseline (name_state cfg) = ''middle''
       \<and> strokeStyle (furigana_state cfg) = ''white'' \<and> strokeStyle (name_state cfg) = ''white''
       \<and> lineWidth (furigana_state cfg) = 6 \<and> lineWidth (name_state cfg) = 15"
  using assms(1,2) unfolding below_def
  by (simp add: painted_drawCanvas collage_def text_layer_def no_text_before text_states
      furigana_text_def name_text_def cfg_def)

theorem text_layer_last_witness:
  "canvasRef example_state = Some example_canvas \<and> has_context example_canvas
   \<and> furigana (config example_state) \<noteq> [] \<and> name (config example_state) \<noteq> []
   \<and> painted (drawCanvas example_state)
       = (background_fill (config example_state) @ accent_band (config example_state)
          @ pattern_layer (config example_state) (loadedImages example_state)
          @ portrait_layer (config example_state) (loadedImages example_state))
         @ [StrokeText (furigana_state (config example_state)) (furigana (config example_state)) 450 80,
            FillText ((furigana_state (config example_state))\<lparr>fillStyle := ''#555''\<rparr>)
              (furigana (config example_state)) 450 80]
         @ [StrokeText (name_state (config example_state)) (name (config example_state)) 450 180,
            FillText ((name_state (config example_state))\<lparr>fillStyle := ''#333''\<rparr>)
              (name (config example_state)) 450 180]
   \<and> furigana ((config example_state)\<lparr>furigana := []\<rparr>) = []
   \<and> furigana_text ((config example_state)\<lparr>furigana := []\<rparr>) = []"
proof -
  have h: "canvasRef example_state = Some example_canvas" "has_context example_canvas"
    by (simp_all add: example_state_def example_canvas_def)
  have n: "furigana (config example_state) \<noteq> []" "name (config example_state) \<noteq> []"
    by (simp_all add: example_state_def initial_config_def)
  have h2: "canvasRef (example_state\<lparr>config := (config example_state)\<lparr>furigana := []\<rparr>\<rparr>)
              = Some example_canvas"
    using h(1) by simp
  show ?thesis
    using h n text_layer_last [OF h] text_layer_last [OF h2 h(2)] by simp
qed

text \<open>
  C7, as it is stated, asks for top-anchored text.  In the rendering of the example state
  all four text calls are made with the baseline \<open>middle\<close>, none with \<open>top\<close>.
\<close>

theorem text_baseline_counterexample:
  "text_baselines (painted (drawCanvas example_state)) = [''middle'', ''middle'', ''middle'', ''middle'']
   \<and> ''top'' \<notin> set (text_baselines (painted (drawCanvas example_state)))"
proof -
  have "painted (drawCanvas example_state)
          = collage (config example_state) (loadedImages example_state)"
    by (rule painted_drawCanvas [of _ example_canvas]) (simp_all add: example_state_def example_canvas_def)
  then show ?thesis
    by (simp add: collage_def background_fill_def accent_band_def pattern_layer_def portrait_layer_def
        text_layer_def furigana_text_def name_text_def text_states Let_def
        text_baselines_append text_baselines_drawImage_call
        example_state_def initial_config_def)
qed

text \<open>
  C8.  \<open>drawCanvas\<close> returns the state it was given with at most the canvas replaced: the
  configuration, with all its fields, and both decoded images are the same afterwards.
\<close>

theorem drawCanvas_reads_only:
  "config (drawCanvas st) = config st
   \<and> loadedImages (drawCanvas st) = loadedImages st
   \<and> drawCanvas st = st\<lparr>canvasRef := canvasRef (drawCanvas st)\<rparr>"
  using drawCanvas_frame(1,2) drawCanvas_only_canvas by blast

section \<open>File upload\<close>

text \<open>
  C9.  A file-input change event whose first file is \<open>f\<close> installs \<open>f\<close> as the image of the
  layer it is for and sets that layer's transform to \<open>{x: 0, y: 0, scale: 1, rotation: 0}\<close>;
  every other field of the configuration and every other part of the state is as before.
  An event with no file list or an empty one changes nothing.
\<close>

theorem handleFileUpload_resets:
  "handleFileUpload (Some (f # fs)) CharacterImageField st =
      st\<lparr>config := (config st)\<lparr>characterImage := Some f,
                                 characterTransform := \<lparr>t_x = Fin 0, t_y = Fin 0, t_scale = Fin 1, t_rotation = Fin 0\<rparr>\<rparr>\<rparr>
   \<and> handleFileUpload (Some (f # fs)) OverlayImageField st =
      st\<lparr>config := (config st)\<lparr>overlayImage := Some f,
                                 overlayTransform := \<lparr>t_x = Fin 0, t_y = Fin 0, t_scale = Fin 1, t_rotation = Fin 0\<rparr>\<rparr>\<rparr>
   \<and> handleFileUpload None field st = st
   \<and> handleFileUpload (Some []) field st = st"
  by (simp add: handleFileUpload_def handleInputChange_def setConfig_def INITIAL_TRANSFORM_def Let_def)

section \<open>Event loop and drag controller\<close>

lemma canvas_sized_drawCanvas: "canvas_sized (drawCanvas st)"
  by (simp add: canvas_sized_def drawCanvas_def Let_def set_width_def set_height_def
      reset_context_def drawBackground_eq drawCharacter_eq drawText_eq split: option.split)

lemma getCanvasCoordinates_drawCanvas:
  "canvas_sized st \<Longrightarrow> getCanvasCoordinates (drawCanvas st) cx cy = getCanvasCoordinates st cx cy"
proof (cases "canvasRef st")
  case None
  then show ?thesis by (simp add: drawCanvas_def)
next
  case (Some c)
  assume sized: "canvas_sized st"
  show ?thesis
  proof (cases "has_context c")
    case True
    then show ?thesis using Some sized
      by (simp add: canvas_sized_def getCanvasCoordinates_def drawCanvas_eq)
  next
    case False
    then show ?thesis using Some by (simp add: drawCanvas_def)
  qed
qed

lemma getCanvasCoordinates_cong:
  "canvasRef st' = canvasRef st \<Longrightarrow> getCanvasCoordinates st' cx cy = getCanvasCoordinates st cx cy"
  by (simp add: getCanvasCoordinates_def)

lemma isPointInCharacter_cong:
  "config st' = config st \<Longrightarrow> loadedImages st' = loadedImages st \<Longrightarrow>
   isPointInCharacter st' px py = isPointInCharacter st px py"
  by (cases "char (loadedImages st)") (simp_all add: isPointInCharacter_def)

lemma isPointInCharacter_loaded:
  "isPointInCharacter st px py \<Longrightarrow> char (loadedImages st) \<noteq> None"
  by (cases "char (loadedImages st)") (simp_all add: isPointInCharacter_def)

lemma dispatch_down:
  assumes "clientPoint e = Inr c" "getCanvasCoordinates st (fst c) (snd c) = p"
    "isPointInCharacter st (fst p) (snd p)"
  shows "dispatch (MouseDown e) st =
     st\<lparr>isDragging := True, dragStart := p,
        initialDragTransform := (t_x (characterTransform (config st)), t_y (characterTransform (config st)))\<rparr>"
proof -
  obtain img where img: "char (loadedImages st) = Some img"
    using isPointInCharacter_loaded [OF assms(3)] by auto
  have h: "handleMouseDown e st = Inr (st\<lparr>isDragging := True, dragStart := p,
        initialDragTransform := (t_x (characterTransform (config st)), t_y (characterTransform (config st)))\<rparr>)"
    using assms img by (cases c; cases p) (simp add: handleMouseDown_def)
  show ?thesis by (simp add: dispatch_def h imageEffects_def)
qed

lemma dispatch_up:
  "dispatch MouseUp st = st\<lparr>isDragging := False\<rparr>"
  "dispatch MouseLeave st = st\<lparr>isDragging := False\<rparr>"
  "dispatch TouchEnd st = st\<lparr>isDragging := False\<rparr>"
  by (simp_all add: dispatch_def handleMouseUp_def imageEffects_def)

lemma dispatch_touch:
  "dispatch (TouchStart e) st = dispatch (MouseDown e) st"
  "dispatch (TouchMove e) st = dispatch (MouseMove e) st"
  by (simp_all add: dispatch_def)

lemma dispatch_move:
  assumes "isDragging st" "clientPoint e = Inr c" "getCanvasCoordinates st (fst c) (snd c) = q"
  defines "cfg' \<equiv> (config st)\<lparr>characterTransform := (characterTransform (config st))
                     \<lparr>t_x := dadd (fst (initialDragTransform st)) (dsub (fst q) (fst (dragStart st))),
                      t_y := dadd (snd (initialDragTransform st)) (dsub (snd q) (snd (dragStart st)))\<rparr>\<rparr>"
  shows "dispatch (MouseMove e) st = st\<lparr>config := cfg'\<rparr>
       \<or> dispatch (MouseMove e) st = drawCanvas (st\<lparr>config := cfg'\<rparr>)"
proof -
  have h: "handleMouseMove e st = Inr (st\<lparr>config := cfg'\<rparr>)"
    using assms(1-3) by (cases c; cases q) (simp add: handleMouseMove_def setConfig_def cfg'_def Let_def)
  have "imageEffects st (st\<lparr>config := cfg'\<rparr>) = st\<lparr>config := cfg'\<rparr>"
    by (simp add: imageEffects_def cfg'_def)
  then show ?thesis by (simp add: dispatch_def h Let_def)
qed

lemma canvas_sized_cong: "canvasRef st' = canvasRef st \<Longrightarrow> canvas_sized st' = canvas_sized st"
  by (simp add: canvas_sized_def)

lemma dispatch_move_fields:
  assumes "canvas_sized st" "isDragging st" "clientPoint e = Inr c"
    "getCanvasCoordinates st (fst c) (snd c) = q"
  defines "st' \<equiv> dispatch (MouseMove e) st"
  shows "config st' = (config st)\<lparr>characterTransform := (characterTransform (config st))
                     \<lparr>t_x := dadd (fst (initialDragTransform st)) (dsub (fst q) (fst (dragStart st))),
                      t_y := dadd (snd (initialDragTransform st)) (dsub (snd q) (snd (dragStart st)))\<rparr>\<rparr>"
    "isDragging st'" "dragStart st' = dragStart st"
    "initialDragTransform st' = initialDragTransform st"
    "loadedImages st' = loadedImages st"
    "canvas_sized st'"
    "getCanvasCoordinates st' cx cy = getCanvasCoordinates st cx cy"
proof -
  let ?u = "st\<lparr>config := (config st)\<lparr>characterTransform := (characterTransform (config st))
                     \<lparr>t_x := dadd (fst (initialDragTransform st)) (dsub (fst q) (fst (dragStart st))),
                      t_y := dadd (snd (initialDragTransform st)) (dsub (snd q) (snd (dragStart st)))\<rparr>\<rparr>\<rparr>"
  have d: "st' = ?u \<or> st' = drawCanvas ?u"
    unfolding st'_def using dispatch_move [OF assms(2-4)] .
  have su: "canvas_sized ?u" using assms(1) by (simp add: canvas_sized_def)
  have gu: "getCanvasCoordinates ?u cx cy = getCanvasCoordinates st cx cy"
    by (simp add: getCanvasCoordinates_def)
  show "config st' = (config st)\<lparr>characterTransform := (characterTransform (config st))
                     \<lparr>t_x := dadd (fst (initialDragTransform st)) (dsub (fst q) (fst (dragStart st))),
                      t_y := dadd (snd (initialDragTransform st)) (dsub (snd q) (snd (dragStart st)))\<rparr>\<rparr>"
    using d by (auto simp add: drawCanvas_frame)
  show "isDragging st'" using d assms(2) by (auto simp add: drawCanvas_frame)
  show "dragStart st' = dragStart st" using d by (auto simp add: drawCanvas_frame)
  show "initialDragTransform st' = initialDragTransform st" using d by (auto simp add: drawCanvas_frame)
  show "loadedImages st' = loadedImages st" using d by (auto simp add: drawCanvas_frame)
  show "canvas_sized st'" using d su by (auto simp add: canvas_sized_drawCanvas)
  show "getCanvasCoordinates st' cx cy = getCanvasCoordinates st cx cy"
    using d su gu by (auto simp add: getCanvasCoordinates_drawCanvas)
qed

lemma isPointInCharacter_no_image:
  "char (loadedImages st) = None \<Longrightarrow> \<not> isPointInCharacter st px py"
  by (simp add: isPointInCharacter_def)

lemma handleMouseDown_no_image:
  "char (loadedImages st) = None \<Longrightarrow> handleMouseDown e st = Inr st"
  by (simp add: handleMouseDown_def)

lemma handleMouseDown_cases:
  "handleMouseDown e st = Inr st1 \<Longrightarrow>
     st1 = st \<or> (char (loadedImages st) \<noteq> None \<and>
                 (\<exists>p. st1 = st\<lparr>isDragging := True, dragStart := p,
                    initialDragTransform := (t_x (characterTransform (config st)),
                                             t_y (characterTransform (config st)))\<rparr>))"
  by (auto simp add: handleMouseDown_def Let_def split: option.splits sum.splits prod.splits if_splits)

lemma handleMouseMove_cases:
  "handleMouseMove e st = Inr st1 \<Longrightarrow>
     (\<not> isDragging st \<and> (\<exists>b. st1 = st\<lparr>isHoveringChar := b\<rparr> \<or> st1 = st))
     \<or> (isDragging st \<and> (\<exists>t. st1 = st\<lparr>config := (config st)\<lparr>characterTransform := t\<rparr>\<rparr>))"
  by (auto simp add: handleMouseMove_def Let_def setConfig_def split: sum.splits prod.splits if_splits)

lemma handle_inv:
  assumes "handle ev st = Inr st1"
  shows "canvasRef st1 = canvasRef st
       \<and> (characterImage (config st) \<noteq> None \<longrightarrow> characterImage (config st1) \<noteq> None)
       \<and> (drag_inv st \<longrightarrow> drag_inv st1)"
proof (cases ev)
  case (InputChange fv)
  then show ?thesis using assms
    by (cases fv) (auto simp add: handleInputChange_def setConfig_def drag_inv_def)
next
  case (FileUpload files field)
  then show ?thesis using assms
    by (cases field)
       (auto simp add: handleFileUpload_def handleInputChange_def setConfig_def Let_def drag_inv_def
             split: option.splits)
next
  case (TransformChange tg key v)
  then show ?thesis using assms by (cases tg) (auto simp add: setConfig_def drag_inv_def)
next
  case (ResetTransform tg)
  then show ?thesis using assms by (cases tg) (auto simp add: setConfig_def drag_inv_def)
next
  case (MouseDown e)
  then show ?thesis using assms handleMouseDown_cases [of e st st1] by (auto simp add: drag_inv_def)
next
  case (MouseMove e)
  then show ?thesis using assms handleMouseMove_cases [of e st st1] by (auto simp add: drag_inv_def)
next
  case (TouchStart e)
  then show ?thesis using assms handleMouseDown_cases [of e st st1] by (auto simp add: drag_inv_def)
next
  case (TouchMove e)
  then show ?thesis using assms handleMouseMove_cases [of e st st1] by (auto simp add: drag_inv_def)
next
  case (CharImageLoaded img)
  then show ?thesis using assms by (auto simp add: charImageLoaded_def drag_inv_def split: if_splits)
next
  case (OverlayImageLoaded img)
  then show ?thesis using assms by (auto simp add: overlayImageLoaded_def drag_inv_def split: if_splits)
qed (use assms in \<open>auto simp add: handleMouseUp_def drag_inv_def\<close>)

lemma imageEffects_fields:
  "config (imageEffects old st) = config st"
  "isDragging (imageEffects old st) = isDragging st"
  "canvasRef (imageEffects old st) = canvasRef st"
  by (simp_all add: imageEffects_def Let_def)

lemma imageEffects_char:
  "characterImage (config st) \<noteq> None \<or> characterImage (config old) = None \<Longrightarrow>
   char (loadedImages (imageEffects old st)) = char (loadedImages st)"
  by (auto simp add: imageEffects_def Let_def)

lemma drag_inv_cong:
  "config st' = config st \<Longrightarrow> isDragging st' = isDragging st \<Longrightarrow>
   char (loadedImages st') = char (loadedImages st) \<Longrightarrow> drag_inv st' = drag_inv st"
  by (simp add: drag_inv_def)

lemma drag_inv_dispatch: "drag_inv st \<Longrightarrow> drag_inv (dispatch ev st)"
proof (cases "handle ev st")
  case (Inl err)
  assume "drag_inv st"
  then show ?thesis using Inl by (simp add: dispatch_def)
next
  case (Inr st1)
  assume inv: "drag_inv st"
  note h = handle_inv [OF Inr]
  have c: "char (loadedImages (imageEffects st st1)) = char (loadedImages st1)"
    using h by (intro imageEffects_char) auto
  have i: "drag_inv (imageEffects st st1)"
    using h inv c by (simp add: drag_inv_cong [of "imageEffects st st1" st1] imageEffects_fields)
  then have "drag_inv (drawCanvas (imageEffects st st1))"
    by (simp add: drag_inv_cong [of "drawCanvas (imageEffects st st1)" "imageEffects st st1"] drawCanvas_frame)
  then show ?thesis using i Inr by (simp add: dispatch_def Let_def)
qed

lemma drag_inv_initial: "drag_inv (initial_state c0)"
  by (simp add: initial_state_def drag_inv_def drawCanvas_frame)

lemma drag_inv_run: "drag_inv st \<Longrightarrow> drag_inv (run evs st)"
  by (induction evs arbitrary: st) (simp_all add: drag_inv_dispatch)

lemma dispatch_down_no_image:
  "char (loadedImages st) = None \<Longrightarrow> dispatch (MouseDown e) st = st"
  by (simp add: dispatch_def handleMouseDown_no_image imageEffects_def)

lemma dispatch_pointer_idle:
  assumes "char (loadedImages st) = None" "\<not> isDragging st" "is_pointer_event ev"
  shows "\<not> isDragging (dispatch ev st) \<and> config (dispatch ev st) = config st
       \<and> loadedImages (dispatch ev st) = loadedImages st"
proof -
  have m: "\<And>e. \<not> isDragging (dispatch (MouseMove e) st) \<and> config (dispatch (MouseMove e) st) = config st
       \<and> loadedImages (dispatch (MouseMove e) st) = loadedImages st"
  proof -
    fix e
    show "\<not> isDragging (dispatch (MouseMove e) st) \<and> config (dispatch (MouseMove e) st) = config st
       \<and> loadedImages (dispatch (MouseMove e) st) = loadedImages st"
    proof (cases "handleMouseMove e st")
      case (Inl err)
      then show ?thesis using assms(2) by (simp add: dispatch_def)
    next
      case (Inr st1)
      then show ?thesis using assms(2) handleMouseMove_cases [OF Inr]
        by (auto simp add: dispatch_def imageEffects_def)
    qed
  qed
  show ?thesis
    using assms m
    by (cases ev) (simp_all add: dispatch_down_no_image dispatch_up dispatch_touch)
qed

text \<open>The size invariant of the canvas holds after mounting and after every event.\<close>

lemma canvas_sized_dispatch: "canvas_sized st \<Longrightarrow> canvas_sized (dispatch ev st)"
proof (cases "handle ev st")
  case (Inl err)
  assume "canvas_sized st"
  then show ?thesis using Inl by (simp add: dispatch_def)
next
  case (Inr st1)
  assume "canvas_sized st"
  then have "canvas_sized (imageEffects st st1)"
    using handle_inv [OF Inr]
    by (simp add: canvas_sized_cong [of "imageEffects st st1" st] imageEffects_fields)
  then show ?thesis using Inr by (simp add: dispatch_def Let_def canvas_sized_drawCanvas)
qed

lemma canvas_sized_initial: "canvas_sized (initial_state c0)"
  by (simp add: initial_state_def canvas_sized_drawCanvas)

lemma canvas_sized_run: "canvas_sized st \<Longrightarrow> canvas_sized (run evs st)"
  by (induction evs arbitrary: st) (simp_all add: canvas_sized_dispatch)

section \<open>The coordinate mapper\<close>

text \<open>The operations of the mapper on the canvas with its left edge at \<open>0.1\<close>, for the pointer
  at 8 and at 18.\<close>

lemma map_offset_1: "round_d (284627496449815347 / 36028797018963968) = Fin (4447304632028365 / 562949953421312)"
  by (subst round_d_fin, simp, subst fl_eval [of 2]) (simp_all add: rnd_def power_int_minus)

lemma map_offset_2: "round_d (4447304632028365 / 281474976710656) = Fin (4447304632028365 / 281474976710656)"
  by (subst round_d_fin, simp, subst fl_eval [of 3]) (simp_all add: rnd_def power_int_minus)

lemma map_offset_3: "round_d (644915466639455027 / 36028797018963968) = Fin (2519201041560371 / 140737488355328)"
  by (subst round_d_fin, simp, subst fl_eval [of 4]) (simp_all add: rnd_def power_int_minus)

lemma map_offset_4: "round_d (2519201041560371 / 70368744177664) = Fin (2519201041560371 / 70368744177664)"
  by (subst round_d_fin, simp, subst fl_eval [of 5]) (simp_all add: rnd_def power_int_minus)

lemma map_offset_5: "round_d (5629499534213119 / 281474976710656) = Fin (5629499534213119 / 281474976710656)"
  by (subst round_d_fin, simp, subst fl_eval [of 4]) (simp_all add: rnd_def power_int_minus)

text \<open>
  C3, as it is stated, takes the formula in exact arithmetic.  The program evaluates it in
  doubles.  On a canvas shown at half its internal resolution whose left edge is at \<open>0.1\<close>,
  the pointer at 8 maps to \<open>15.8\<close> and the pointer at 18 to \<open>35.8\<close>: neither is the exact value
  of the formula, and the two differ by \<open>19.999999999999996\<close>, not by 20.
\<close>

theorem mapper_rounding_counterexample:
  "canvasRef (example_state\<lparr>canvasRef := Some example_canvas_offset\<rparr>) = Some example_canvas_offset
   \<and> width example_canvas_offset = 900 \<and> rect_width example_canvas_offset = Fin (900 / 2)
   \<and> rect_left example_canvas_offset = Fin (3602879701896397 / 36028797018963968)
   \<and> fst (getCanvasCoordinates (example_state\<lparr>canvasRef := Some example_canvas_offset\<rparr>) (Fin 8) (Fin 20))
        = Fin (4447304632028365 / 281474976710656)
   \<and> fst (getCanvasCoordinates (example_state\<lparr>canvasRef := Some example_canvas_offset\<rparr>) (Fin 18) (Fin 20))
        = Fin (2519201041560371 / 70368744177664)
   \<and> (4447304632028365 / 281474976710656 :: real) \<noteq> (8 - 3602879701896397 / 36028797018963968) * (900 / 450)
   \<and> (2519201041560371 / 70368744177664 :: real) - 4447304632028365 / 281474976710656 \<noteq> 20
   \<and> dsub (Fin (2519201041560371 / 70368744177664)) (Fin (4447304632028365 / 281474976710656)) = Fin (5629499534213119 / 281474976710656)
   \<and> (5629499534213119 / 281474976710656 :: real) < 20"
  by (simp add: getCanvasCoordinates_def example_state_def example_canvas_offset_def example_canvas_def
      dsub_def map_offset_1 map_offset_2 map_offset_3 map_offset_4 map_offset_5)

text \<open>Numbers on the grid of spacing \<open>1 / 2 ^ g\<close>: below \<open>2 ^ 53\<close> grid steps they are doubles,
  and sums and differences that stay in that range are computed exactly.\<close>

lemma round_d_grid:
  assumes "\<bar>n\<bar> < 2 ^ 53" "g \<le> 1074"
  shows "round_d (of_int n / 2 ^ g) = Fin (of_int n / 2 ^ g)"
proof -
  have e: "real_of_int n / 2 ^ g = of_int n * 2 powi (- int g)"
    by (simp add: power_int_minus divide_inverse)
  have f: "fl (of_int n / 2 ^ g) = of_int n / 2 ^ g"
    unfolding e using assms by (intro fl_exact) simp_all
  have "\<bar>real_of_int n\<bar> / 2 ^ g \<le> \<bar>real_of_int n\<bar> / 1"
    by (intro divide_left_mono) simp_all
  moreover have "\<bar>real_of_int n\<bar> \<le> 2 ^ 53" using assms(1)
    by (metis less_imp_le of_int_abs of_int_le_numeral_power_cancel_iff)
  moreover have "(2::real) ^ 53 \<le> 2 ^ 1023" by simp
  ultimately have "\<bar>real_of_int n / 2 ^ g\<bar> \<le> 2 ^ 1023" by (simp add: abs_divide)
  then show ?thesis by (simp add: round_d_fin f)
qed

lemma half_resolution_step:
  assumes "g \<le> 40" "\<bar>i\<bar> < 2 ^ 50" "\<bar>j\<bar> < 2 ^ 50"
  defines "x \<equiv> real_of_int i / 2 ^ g" and "l \<equiv> real_of_int j / 2 ^ g"
  shows "dmul (dsub (Fin x) (Fin l)) (Fin 2) = Fin (2 * (x - l))"
    "dmul (dsub (Fin (x + 10)) (Fin l)) (Fin 2) = Fin (2 * (x - l) + 20)"
proof -
  have g: "g \<le> 1074" using assms(1) by simp
  have p: "(2::int) ^ g \<le> 2 ^ 40" using assms(1) by (intro power_increasing) simp_all
  have d: "x - l = of_int (i - j) / 2 ^ g" by (simp add: x_def l_def diff_divide_distrib)
  have d2: "(x - l) * 2 = of_int (2 * (i - j)) / 2 ^ g" by (simp add: d)
  have s: "x + 10 - l = of_int (i + 10 * 2 ^ g - j) / 2 ^ g"
    by (simp add: x_def l_def diff_divide_distrib add_divide_distrib)
  have s2: "(x + 10 - l) * 2 = of_int (2 * (i + 10 * 2 ^ g - j)) / 2 ^ g" by (simp add: s)
  define P :: int where "P = 2 ^ g"
  have P: "0 \<le> P" "P \<le> 2 ^ 40" unfolding P_def using p by simp_all
  have b: "\<bar>i - j\<bar> < 2 ^ 53" "\<bar>2 * (i - j)\<bar> < 2 ^ 53"
    "\<bar>i + 10 * 2 ^ g - j\<bar> < 2 ^ 53" "\<bar>2 * (i + 10 * 2 ^ g - j)\<bar> < 2 ^ 53"
    unfolding P_def [symmetric] using assms(2,3) P by simp_all
  have "round_d (x - l) = Fin (x - l)"
    using round_d_grid [OF b(1) g] unfolding d .
  then have "dsub (Fin x) (Fin l) = Fin (x - l)" by (simp add: dsub_def)
  moreover have "round_d ((x - l) * 2) = Fin ((x - l) * 2)"
    using round_d_grid [OF b(2) g] unfolding d2 .
  ultimately show "dmul (dsub (Fin x) (Fin l)) (Fin 2) = Fin (2 * (x - l))"
    by (simp add: mult.commute)
  have "round_d (x + 10 - l) = Fin (x + 10 - l)"
    using round_d_grid [OF b(3) g] unfolding s .
  then have "dsub (Fin (x + 10)) (Fin l) = Fin (x + 10 - l)" by (simp add: dsub_def)
  moreover have "round_d ((x + 10 - l) * 2) = Fin ((x + 10 - l) * 2)"
    using round_d_grid [OF b(4) g] unfolding s2 .
  ultimately show "dmul (dsub (Fin (x + 10)) (Fin l)) (Fin 2) = Fin (2 * (x - l) + 20)"
    by (simp add: algebra_simps)
qed

lemma dmul_not_finite:
  "dmul d PInf \<noteq> Fin x" "dmul d NaN \<noteq> Fin x"
  by (cases d; simp)+

text \<open>
  C3, as the program computes it.  Without a mounted canvas the mapper returns \<open>(0, 0)\<close>.
  With a mounted canvas whose bitmap is 900 by 1200 it returns
  \<open>((pointerX - left) * (900 / width), (pointerY - top) * (1200 / height))\<close> evaluated in
  double arithmetic, each of the three operations rounded; the result type has no error
  value, and for bounds of width zero the abscissa it returns is an infinity or NaN.  On
  a canvas displayed at half its internal resolution, when the pointer and the edges of
  the bounds are multiples of \<open>1 / 2 ^ g\<close> (\<open>g\<close> at most 40) of fewer than \<open>2 ^ 50\<close> steps, the
  result is the exact value of the formula and a pointer step of 10 maps to a step of 20.
  The bitmap size 900 by 1200 is what \<open>drawCanvas\<close> leaves on every canvas it draws on, and
  it leaves the bounds alone; so in every state the mounted component reaches, on a canvas
  with a 2D context, the mapper returns the value of the rounded formula.
\<close>

theorem getCanvasCoordinates_maps:
  "(canvasRef st = None \<longrightarrow> getCanvasCoordinates st pointerX pointerY = (Fin 0, Fin 0))
   \<and> (\<forall>c. canvasRef st = Some c \<and> width c = 900 \<and> height c = 1200 \<longrightarrow>
         getCanvasCoordinates st pointerX pointerY =
           (dmul (dsub pointerX (rect_left c)) (ddiv (Fin 900) (rect_width c)),
            dmul (dsub pointerY (rect_top c)) (ddiv (Fin 1200) (rect_height c))))
   \<and> (\<forall>c. canvasRef st = Some c \<and> rect_width c = Fin 0 \<longrightarrow>
         (\<forall>x. fst (getCanvasCoordinates st pointerX pointerY) \<noteq> Fin x))
   \<and> (\<forall>c g i j k m. canvasRef st = Some c \<and> width c = 900 \<and> height c = 1200
           \<and> rect_width c = Fin (900 / 2) \<and> rect_height c = Fin (1200 / 2)
           \<and> rect_left c = Fin (real_of_int j / 2 ^ g) \<and> rect_top c = Fin (real_of_int m / 2 ^ g)
           \<and> g \<le> 40 \<and> \<bar>i\<bar> < 2 ^ 50 \<and> \<bar>j\<bar> < 2 ^ 50 \<and> \<bar>k\<bar> < 2 ^ 50 \<and> \<bar>m\<bar> < 2 ^ 50 \<longrightarrow>
         (let x = real_of_int i / 2 ^ g; y = real_of_int k / 2 ^ g;
              l = real_of_int j / 2 ^ g; t = real_of_int m / 2 ^ g
          in getCanvasCoordinates st (Fin x) (Fin y) = (Fin (2 * (x - l)), Fin (2 * (y - t)))
           \<and> getCanvasCoordinates st (Fin (x + 10)) (Fin y)
               = (Fin (2 * (x - l) + 20), Fin (2 * (y - t)))
           \<and> getCanvasCoordinates st (Fin x) (Fin (y + 10))
               = (Fin (2 * (x - l)), Fin (2 * (y - t) + 20))))
   \<and> (\<forall>c. canvasRef st = Some c \<and> has_context c \<longrightarrow>
         (\<exists>c'. canvasRef (drawCanvas st) = Some c' \<and> width c' = 900 \<and> height c' = 1200
             \<and> rect_left c' = rect_left c \<and> rect_top c' = rect_top c
             \<and> rect_width c' = rect_width c \<and> rect_height c' = rect_height c))
   \<and> (\<forall>c. canvasRef (run evs (initial_state c0)) = Some c \<and> has_context c \<longrightarrow>
         getCanvasCoordinates (run evs (initial_state c0)) pointerX pointerY =
           (dmul (dsub pointerX (rect_left c)) (ddiv (Fin 900) (rect_width c)),
            dmul (dsub pointerY (rect_top c)) (ddiv (Fin 1200) (rect_height c))))"
proof -
  have 1: "canvasRef st = None \<longrightarrow> getCanvasCoordinates st pointerX pointerY = (Fin 0, Fin 0)"
    by (simp add: getCanvasCoordinates_def)
  have 2: "\<forall>c. canvasRef st = Some c \<and> width c = 900 \<and> height c = 1200 \<longrightarrow>
         getCanvasCoordinates st pointerX pointerY =
           (dmul (dsub pointerX (rect_left c)) (ddiv (Fin 900) (rect_width c)),
            dmul (dsub pointerY (rect_top c)) (ddiv (Fin 1200) (rect_height c)))"
    by (simp add: getCanvasCoordinates_def Let_def)
  have 3: "\<forall>c. canvasRef st = Some c \<and> rect_width c = Fin 0 \<longrightarrow>
         (\<forall>x. fst (getCanvasCoordinates st pointerX pointerY) \<noteq> Fin x)"
    by (simp add: getCanvasCoordinates_def Let_def of_uint_def dmul_not_finite)
  have 4: "\<forall>c g i j k m. canvasRef st = Some c \<and> width c = 900 \<and> height c = 1200
           \<and> rect_width c = Fin (900 / 2) \<and> rect_height c = Fin (1200 / 2)
           \<and> rect_left c = Fin (real_of_int j / 2 ^ g) \<and> rect_top c = Fin (real_of_int m / 2 ^ g)
           \<and> g \<le> 40 \<and> \<bar>i\<bar> < 2 ^ 50 \<and> \<bar>j\<bar> < 2 ^ 50 \<and> \<bar>k\<bar> < 2 ^ 50 \<and> \<bar>m\<bar> < 2 ^ 50 \<longrightarrow>
         (let x = real_of_int i / 2 ^ g; y = real_of_int k / 2 ^ g;
              l = real_of_int j / 2 ^ g; t = real_of_int m / 2 ^ g
          in getCanvasCoordinates st (Fin x) (Fin y) = (Fin (2 * (x - l)), Fin (2 * (y - t)))
           \<and> getCanvasCoordinates st (Fin (x + 10)) (Fin y)
               = (Fin (2 * (x - l) + 20), Fin (2 * (y - t)))
           \<and> getCanvasCoordinates st (Fin x) (Fin (y + 10))
               = (Fin (2 * (x - l)), Fin (2 * (y - t) + 20)))"
  proof (intro allI impI)
    fix c :: canvas and g :: nat and i j k m :: int
    assume a: "canvasRef st = Some c \<and> width c = 900 \<and> height c = 1200
           \<and> rect_width c = Fin (900 / 2) \<and> rect_height c = Fin (1200 / 2)
           \<and> rect_left c = Fin (real_of_int j / 2 ^ g) \<and> rect_top c = Fin (real_of_int m / 2 ^ g)
           \<and> g \<le> 40 \<and> \<bar>i\<bar> < 2 ^ 50 \<and> \<bar>j\<bar> < 2 ^ 50 \<and> \<bar>k\<bar> < 2 ^ 50 \<and> \<bar>m\<bar> < 2 ^ 50"
    then have b: "g \<le> 40" "\<bar>i\<bar> < 2 ^ 50" "\<bar>j\<bar> < 2 ^ 50" "\<bar>k\<bar> < 2 ^ 50" "\<bar>m\<bar> < 2 ^ 50"
      by simp_all
    have s: "ddiv (Fin 900) (rect_width c) = Fin 2" "ddiv (Fin 1200) (rect_height c) = Fin 2"
      using a by simp_all
    have g: "\<And>px py. getCanvasCoordinates st px py =
           (dmul (dsub px (rect_left c)) (Fin 2), dmul (dsub py (rect_top c)) (Fin 2))"
      using a by (simp add: getCanvasCoordinates_def Let_def)
    have l: "rect_left c = Fin (real_of_int j / 2 ^ g)" "rect_top c = Fin (real_of_int m / 2 ^ g)"
      using a by simp_all
    show "let x = real_of_int i / 2 ^ g; y = real_of_int k / 2 ^ g;
              l = real_of_int j / 2 ^ g; t = real_of_int m / 2 ^ g
          in getCanvasCoordinates st (Fin x) (Fin y) = (Fin (2 * (x - l)), Fin (2 * (y - t)))
           \<and> getCanvasCoordinates st (Fin (x + 10)) (Fin y)
               = (Fin (2 * (x - l) + 20), Fin (2 * (y - t)))
           \<and> getCanvasCoordinates st (Fin x) (Fin (y + 10))
               = (Fin (2 * (x - l)), Fin (2 * (y - t) + 20))"
      unfolding Let_def g l
      by (simp only: half_resolution_step [OF b(1,2,3)] half_resolution_step [OF b(1,4,5)] simp_thms)
  qed
  have 5: "\<forall>c. canvasRef st = Some c \<and> has_context c \<longrightarrow>
         (\<exists>c'. canvasRef (drawCanvas st) = Some c' \<and> width c' = 900 \<and> height c' = 1200
             \<and> rect_left c' = rect_left c \<and> rect_top c' = rect_top c
             \<and> rect_width c' = rect_width c \<and> rect_height c' = rect_height c)"
    by (auto simp add: drawCanvas_eq)
  have "canvas_sized (run evs (initial_state c0))"
    by (simp add: canvas_sized_run canvas_sized_initial)
  then have 6: "\<forall>c. canvasRef (run evs (initial_state c0)) = Some c \<and> has_context c \<longrightarrow>
         getCanvasCoordinates (run evs (initial_state c0)) pointerX pointerY =
           (dmul (dsub pointerX (rect_left c)) (ddiv (Fin 900) (rect_width c)),
            dmul (dsub pointerY (rect_top c)) (ddiv (Fin 1200) (rect_height c)))"
    by (auto simp add: canvas_sized_def getCanvasCoordinates_def Let_def)
  from 1 2 3 4 5 6 show ?thesis by blast
qed

theorem getCanvasCoordinates_maps_witness:
  "canvasRef example_state = Some example_canvas \<and> width example_canvas = 900
   \<and> height example_canvas = 1200
   \<and> rect_width example_canvas = Fin (900 / 2) \<and> rect_height example_canvas = Fin (1200 / 2)
   \<and> rect_left example_canvas = Fin (real_of_int 10 / 2 ^ 0)
   \<and> rect_top example_canvas = Fin (real_of_int 20 / 2 ^ 0)
   \<and> has_context example_canvas
   \<and> getCanvasCoordinates example_state (Fin 110) (Fin 70) = (Fin 200, Fin 100)
   \<and> getCanvasCoordinates example_state (Fin (110 + 10)) (Fin 70) = (Fin 220, Fin 100)
   \<and> getCanvasCoordinates example_state (Fin 110) (Fin (70 + 10)) = (Fin 200, Fin 120)
   \<and> canvasRef (example_state\<lparr>canvasRef := None\<rparr>) = None
   \<and> getCanvasCoordinates (example_state\<lparr>canvasRef := None\<rparr>) (Fin 110) (Fin 70) = (Fin 0, Fin 0)
   \<and> has_context example_canvas_used \<and> width example_canvas_used = 300
   \<and> rect_width example_canvas_used = Fin 300 \<and> rect_height example_canvas_used = Fin 400
   \<and> getCanvasCoordinates (run [MouseUp] (initial_state example_canvas_used)) (Fin 110) (Fin 70)
        = (Fin 330, Fin 210)"
proof -
  let ?c = "example_canvas_used\<lparr>width := 900, height := 1200, state := base_state initial_config,
               saved := [], path := [],
               bitmap := collage initial_config \<lparr>char = None, overlay = None\<rparr>\<rparr>"
  have i: "initial_state example_canvas_used = \<lparr>config = initial_config,
        loadedImages = \<lparr>char = None, overlay = None\<rparr>,
        isDragging = False, dragStart = (Fin 0, Fin 0), initialDragTransform = (Fin 0, Fin 0),
        isHoveringChar = False, canvasRef = Some ?c\<rparr>"
    by (simp add: initial_state_def drawCanvas_eq example_canvas_used_def)
  have r: "canvasRef (run [MouseUp] (initial_state example_canvas_used)) = Some ?c"
    by (simp add: dispatch_up i)
  have p: "has_context ?c"
    "rect_left ?c = Fin 0" "rect_top ?c = Fin 0" "rect_width ?c = Fin 300" "rect_height ?c = Fin 400"
    by (simp_all add: example_canvas_used_def)
  have "getCanvasCoordinates (run [MouseUp] (initial_state example_canvas_used)) (Fin 110) (Fin 70) =
           (dmul (dsub (Fin 110) (rect_left ?c)) (ddiv (Fin 900) (rect_width ?c)),
            dmul (dsub (Fin 70) (rect_top ?c)) (ddiv (Fin 1200) (rect_height ?c)))"
    using getCanvasCoordinates_maps [of example_state "Fin 110" "Fin 70" "[MouseUp]" example_canvas_used]
      r p(1)
    by blast
  then have g: "getCanvasCoordinates (run [MouseUp] (initial_state example_canvas_used)) (Fin 110) (Fin 70)
                  = (Fin 330, Fin 210)"
    by (simp add: p dsub_def)
  have e: "canvasRef example_state = Some example_canvas \<and> width example_canvas = 900
      \<and> height example_canvas = 1200
      \<and> rect_width example_canvas = Fin (900 / 2) \<and> rect_height example_canvas = Fin (1200 / 2)
      \<and> rect_left example_canvas = Fin (real_of_int 10 / 2 ^ 0)
      \<and> rect_top example_canvas = Fin (real_of_int 20 / 2 ^ 0)
      \<and> (0::nat) \<le> 40 \<and> \<bar>110 :: int\<bar> < 2 ^ 50 \<and> \<bar>10 :: int\<bar> < 2 ^ 50 \<and> \<bar>70 :: int\<bar> < 2 ^ 50
      \<and> \<bar>20 :: int\<bar> < 2 ^ 50"
    by (simp add: example_state_def example_canvas_def)
  have h: "let x = real_of_int 110 / 2 ^ 0; y = real_of_int 70 / 2 ^ 0;
              l = real_of_int 10 / 2 ^ 0; t = real_of_int 20 / 2 ^ 0
          in getCanvasCoordinates example_state (Fin x) (Fin y) = (Fin (2 * (x - l)), Fin (2 * (y - t)))
           \<and> getCanvasCoordinates example_state (Fin (x + 10)) (Fin y)
               = (Fin (2 * (x - l) + 20), Fin (2 * (y - t)))
           \<and> getCanvasCoordinates example_state (Fin x) (Fin (y + 10))
               = (Fin (2 * (x - l)), Fin (2 * (y - t) + 20))"
    using getCanvasCoordinates_maps [of example_state "Fin 110" "Fin 70" "[]" example_canvas] e
    by blast
  have n: "getCanvasCoordinates (example_state\<lparr>canvasRef := None\<rparr>) (Fin 110) (Fin 70) = (Fin 0, Fin 0)"
    using getCanvasCoordinates_maps [of "example_state\<lparr>canvasRef := None\<rparr>" "Fin 110" "Fin 70" "[]"
        example_canvas]
    by simp
  show ?thesis
    using g h n e by (simp add: example_canvas_used_def example_canvas_def)
qed

section \<open>Drag sessions\<close>

lemma drag_once:
  assumes sized: "canvas_sized st"
    and down: "clientPoint e1 = Inr c1" "getCanvasCoordinates st (fst c1) (snd c1) = p"
      "isPointInCharacter st (fst p) (snd p)"
    and move: "clientPoint e2 = Inr c2" "getCanvasCoordinates st (fst c2) (snd c2) = q"
  defines "st1 \<equiv> dispatch (MouseDown e1) st"
  defines "st2 \<equiv> dispatch (MouseMove e2) st1"
  shows "config st2 = (config st)\<lparr>characterTransform := (characterTransform (config st))
            \<lparr>t_x := dadd (t_x (characterTransform (config st))) (dsub (fst q) (fst p)),
             t_y := dadd (t_y (characterTransform (config st))) (dsub (snd q) (snd p))\<rparr>\<rparr>"
    "isDragging st2" "dragStart st2 = p"
    "initialDragTransform st2 = (t_x (characterTransform (config st)), t_y (characterTransform (config st)))"
    "loadedImages st2 = loadedImages st" "canvas_sized st2"
    "getCanvasCoordinates st2 cx cy = getCanvasCoordinates st cx cy"
proof -
  have st1: "st1 = st\<lparr>isDragging := True, dragStart := p,
        initialDragTransform := (t_x (characterTransform (config st)), t_y (characterTransform (config st)))\<rparr>"
    unfolding st1_def by (rule dispatch_down [OF down])
  have s1: "canvas_sized st1" using sized by (simp add: st1 canvas_sized_def)
  have d1: "isDragging st1" by (simp add: st1)
  have g1: "getCanvasCoordinates st1 (fst c2) (snd c2) = q"
    using move(2) by (simp add: st1 getCanvasCoordinates_def)
  note m = dispatch_move_fields [OF s1 d1 move(1) g1, folded st2_def]
  show "config st2 = (config st)\<lparr>characterTransform := (characterTransform (config st))
            \<lparr>t_x := dadd (t_x (characterTransform (config st))) (dsub (fst q) (fst p)),
             t_y := dadd (t_y (characterTransform (config st))) (dsub (snd q) (snd p))\<rparr>\<rparr>"
    using m(1) by (simp add: st1)
  show "isDragging st2" by (rule m(2))
  show "dragStart st2 = p" using m(3) by (simp add: st1)
  show "initialDragTransform st2 = (t_x (characterTransform (config st)), t_y (characterTransform (config st)))"
    using m(4) by (simp add: st1)
  show "loadedImages st2 = loadedImages st" using m(5) by (simp add: st1)
  show "canvas_sized st2" by (rule m(6))
  show "getCanvasCoordinates st2 cx cy = getCanvasCoordinates st cx cy"
    using m(7) [of cx cy] by (simp add: st1 getCanvasCoordinates_def)
qed

text \<open>On a common grid the displacement and the new offset are computed exactly.\<close>

lemma grid_drag:
  assumes "g \<le> 1074" "\<bar>a\<bar> < 2 ^ 51" "\<bar>i\<bar> < 2 ^ 50" "\<bar>j\<bar> < 2 ^ 50"
  shows "dadd (Fin (real_of_int a / 2 ^ g))
              (dsub (Fin (real_of_int j / 2 ^ g)) (Fin (real_of_int i / 2 ^ g)))
           = Fin (real_of_int (a + (j - i)) / 2 ^ g)"
proof -
  have b: "\<bar>j - i\<bar> < 2 ^ 53" "\<bar>a + (j - i)\<bar> < 2 ^ 53" using assms(2-4) by simp_all
  have d: "real_of_int j / 2 ^ g - real_of_int i / 2 ^ g = real_of_int (j - i) / 2 ^ g"
    by (simp add: diff_divide_distrib)
  have s: "real_of_int a / 2 ^ g + real_of_int (j - i) / 2 ^ g = real_of_int (a + (j - i)) / 2 ^ g"
    by (simp add: add_divide_distrib diff_divide_distrib)
  have "round_d (real_of_int j / 2 ^ g - real_of_int i / 2 ^ g) = Fin (real_of_int (j - i) / 2 ^ g)"
    using round_d_grid [OF b(1) assms(1)] unfolding d .
  then have 1: "dsub (Fin (real_of_int j / 2 ^ g)) (Fin (real_of_int i / 2 ^ g))
                 = Fin (real_of_int (j - i) / 2 ^ g)"
    by (simp add: dsub_def)
  have 2: "round_d (real_of_int a / 2 ^ g + real_of_int (j - i) / 2 ^ g)
             = Fin (real_of_int (a + (j - i)) / 2 ^ g)"
    using round_d_grid [OF b(2) assms(1)] unfolding s .
  show ?thesis unfolding 1 dadd.simps 2 ..
qed

text \<open>
  C2, as the program computes it.  Let the pointer go down on a point \<open>p\<close> inside the hit
  region while the character offset is \<open>(ax, ay)\<close>: the controller is then dragging, with
  anchor point \<open>p\<close> and anchor offset \<open>(ax, ay)\<close>.  A move to the point \<open>q\<close> sets the offset
  to \<open>(ax + (qx - px), ay + (qy - py))\<close> in double arithmetic, the difference rounded and
  then the sum rounded, for every \<open>q\<close> (nothing is clamped), and leaves scale, rotation
  and the rest of the configuration alone; a further move does the same from the same
  anchor.  Pointer-up, pointer-leave and touch-end end the drag and keep the offset.  A
  second drag, from a point \<open>p'\<close> inside the moved hit region to \<open>q'\<close>, starts from the
  offset the first one left and adds its own rounded displacement.  When the anchor
  offset and the points are multiples of \<open>1 / 2 ^ g\<close> of fewer than \<open>2 ^ 49\<close> steps, every one
  of these operations is exact: the first drag ends at exactly \<open>ax + (qx - px)\<close>, the
  second at exactly \<open>ax + (qx - px) + (qx' - px')\<close>, and the same for the ordinates.  Touch
  events act as mouse events do.  Points are canvas points, as \<open>getCanvasCoordinates\<close>
  gives them; that mapping is the same throughout.  The session starts in a state whose
  canvas has the size \<open>drawCanvas\<close> gives it (\<open>canvas_sized\<close>), as every state after
  mounting has.
\<close>

theorem drag_session:
  assumes sized: "canvas_sized st0"
    and down: "clientPoint e1 = Inr c1" "getCanvasCoordinates st0 (fst c1) (snd c1) = p"
      "isPointInCharacter st0 (fst p) (snd p)"
    and move: "clientPoint e2 = Inr c2" "getCanvasCoordinates st0 (fst c2) (snd c2) = q"
  defines "ax \<equiv> t_x (characterTransform (config st0))"
  defines "ay \<equiv> t_y (characterTransform (config st0))"
  defines "nx \<equiv> dadd ax (dsub (fst q) (fst p))"
  defines "ny \<equiv> dadd ay (dsub (snd q) (snd p))"
  defines "st1 \<equiv> dispatch (MouseDown e1) st0"
  defines "st2 \<equiv> dispatch (MouseMove e2) st1"
  defines "st3 \<equiv> dispatch MouseUp st2"
  shows "st1 = st0\<lparr>isDragging := True, dragStart := p, initialDragTransform := (ax, ay)\<rparr>
       \<and> isDragging st2 \<and> dragStart st2 = p \<and> initialDragTransform st2 = (ax, ay)
       \<and> config st2 = (config st0)\<lparr>characterTransform :=
                          (characterTransform (config st0))\<lparr>t_x := nx, t_y := ny\<rparr>\<rparr>
       \<and> loadedImages st2 = loadedImages st0
       \<and> (\<forall>cx cy. getCanvasCoordinates st2 cx cy = getCanvasCoordinates st0 cx cy)
       \<and> (\<forall>e c q2. clientPoint e = Inr c \<and> getCanvasCoordinates st2 (fst c) (snd c) = q2 \<longrightarrow>
             config (dispatch (MouseMove e) st2) = (config st0)\<lparr>characterTransform :=
                (characterTransform (config st0))
                   \<lparr>t_x := dadd ax (dsub (fst q2) (fst p)), t_y := dadd ay (dsub (snd q2) (snd p))\<rparr>\<rparr>)
       \<and> st3 = st2\<lparr>isDragging := False\<rparr>
       \<and> dispatch MouseLeave st2 = st3 \<and> dispatch TouchEnd st2 = st3
       \<and> dispatch (TouchStart e1) st0 = st1 \<and> dispatch (TouchMove e2) st1 = st2
       \<and> (\<forall>e3 c3 p' e4 c4 q'.
             clientPoint e3 = Inr c3 \<and> getCanvasCoordinates st3 (fst c3) (snd c3) = p'
             \<and> isPointInCharacter st3 (fst p') (snd p')
             \<and> clientPoint e4 = Inr c4 \<and> getCanvasCoordinates st3 (fst c4) (snd c4) = q' \<longrightarrow>
             config (dispatch (MouseMove e4) (dispatch (MouseDown e3) st3))
               = (config st0)\<lparr>characterTransform := (characterTransform (config st0))
                    \<lparr>t_x := dadd nx (dsub (fst q') (fst p')),
                     t_y := dadd ny (dsub (snd q') (snd p'))\<rparr>\<rparr>)
       \<and> (\<forall>g a i j i' j'. ax = Fin (real_of_int a / 2 ^ g)
             \<and> fst p = Fin (real_of_int i / 2 ^ g) \<and> fst q = Fin (real_of_int j / 2 ^ g)
             \<and> g \<le> 1074 \<and> \<bar>a\<bar> < 2 ^ 49 \<and> \<bar>i\<bar> < 2 ^ 49 \<and> \<bar>j\<bar> < 2 ^ 49
             \<and> \<bar>i'\<bar> < 2 ^ 49 \<and> \<bar>j'\<bar> < 2 ^ 49 \<longrightarrow>
             nx = Fin (real_of_int a / 2 ^ g + (real_of_int j / 2 ^ g - real_of_int i / 2 ^ g))
           \<and> dadd nx (dsub (Fin (real_of_int j' / 2 ^ g)) (Fin (real_of_int i' / 2 ^ g)))
                = Fin (real_of_int a / 2 ^ g + (real_of_int j / 2 ^ g - real_of_int i / 2 ^ g)
                        + (real_of_int j' / 2 ^ g - real_of_int i' / 2 ^ g)))
       \<and> (\<forall>g a i j i' j'. ay = Fin (real_of_int a / 2 ^ g)
             \<and> snd p = Fin (real_of_int i / 2 ^ g) \<and> snd q = Fin (real_of_int j / 2 ^ g)
             \<and> g \<le> 1074 \<and> \<bar>a\<bar> < 2 ^ 49 \<and> \<bar>i\<bar> < 2 ^ 49 \<and> \<bar>j\<bar> < 2 ^ 49
             \<and> \<bar>i'\<bar> < 2 ^ 49 \<and> \<bar>j'\<bar> < 2 ^ 49 \<longrightarrow>
             ny = Fin (real_of_int a / 2 ^ g + (real_of_int j / 2 ^ g - real_of_int i / 2 ^ g))
           \<and> dadd ny (dsub (Fin (real_of_int j' / 2 ^ g)) (Fin (real_of_int i' / 2 ^ g)))
                = Fin (real_of_int a / 2 ^ g + (real_of_int j / 2 ^ g - real_of_int i / 2 ^ g)
                        + (real_of_int j' / 2 ^ g - real_of_int i' / 2 ^ g)))"
proof -
  have 1: "st1 = st0\<lparr>isDragging := True, dragStart := p, initialDragTransform := (ax, ay)\<rparr>"
    unfolding st1_def ax_def ay_def by (rule dispatch_down [OF down])
  note once = drag_once [OF sized down move, folded st1_def, folded st2_def, folded ax_def ay_def,
      folded nx_def ny_def]
  have 2: "isDragging st2 \<and> dragStart st2 = p \<and> initialDragTransform st2 = (ax, ay)
       \<and> config st2 = (config st0)\<lparr>characterTransform :=
                          (characterTransform (config st0))\<lparr>t_x := nx, t_y := ny\<rparr>\<rparr>
       \<and> loadedImages st2 = loadedImages st0
       \<and> (\<forall>cx cy. getCanvasCoordinates st2 cx cy = getCanvasCoordinates st0 cx cy)"
    using once(1-5,7) by simp
  have 3: "\<forall>e c q2. clientPoint e = Inr c \<and> getCanvasCoordinates st2 (fst c) (snd c) = q2 \<longrightarrow>
             config (dispatch (MouseMove e) st2) = (config st0)\<lparr>characterTransform :=
                (characterTransform (config st0))
                   \<lparr>t_x := dadd ax (dsub (fst q2) (fst p)), t_y := dadd ay (dsub (snd q2) (snd p))\<rparr>\<rparr>"
  proof (intro allI impI, elim conjE)
    fix e c q2
    assume a: "clientPoint e = Inr c" "getCanvasCoordinates st2 (fst c) (snd c) = q2"
    show "config (dispatch (MouseMove e) st2) = (config st0)\<lparr>characterTransform :=
                (characterTransform (config st0))
                   \<lparr>t_x := dadd ax (dsub (fst q2) (fst p)), t_y := dadd ay (dsub (snd q2) (snd p))\<rparr>\<rparr>"
      using dispatch_move_fields(1) [OF once(6) once(2) a] once(1,3,4) by simp
  qed
  have 4: "st3 = st2\<lparr>isDragging := False\<rparr>" "dispatch MouseLeave st2 = st3" "dispatch TouchEnd st2 = st3"
    by (simp_all add: st3_def dispatch_up)
  have 5: "dispatch (TouchStart e1) st0 = st1" "dispatch (TouchMove e2) st1 = st2"
    by (simp_all add: st1_def st2_def dispatch_touch)
  have 6: "\<forall>e3 c3 p' e4 c4 q'.
             clientPoint e3 = Inr c3 \<and> getCanvasCoordinates st3 (fst c3) (snd c3) = p'
             \<and> isPointInCharacter st3 (fst p') (snd p')
             \<and> clientPoint e4 = Inr c4 \<and> getCanvasCoordinates st3 (fst c4) (snd c4) = q' \<longrightarrow>
             config (dispatch (MouseMove e4) (dispatch (MouseDown e3) st3))
               = (config st0)\<lparr>characterTransform := (characterTransform (config st0))
                    \<lparr>t_x := dadd nx (dsub (fst q') (fst p')),
                     t_y := dadd ny (dsub (snd q') (snd p'))\<rparr>\<rparr>"
  proof (intro allI impI, elim conjE)
    fix e3 c3 p' e4 c4 q'
    assume a: "clientPoint e3 = Inr c3" "getCanvasCoordinates st3 (fst c3) (snd c3) = p'"
      "isPointInCharacter st3 (fst p') (snd p')" "clientPoint e4 = Inr c4"
      "getCanvasCoordinates st3 (fst c4) (snd c4) = q'"
    have s3: "canvas_sized st3" using once(6) by (simp add: 4(1) canvas_sized_def)
    have c3: "config st3 = config st2" by (simp add: 4(1))
    show "config (dispatch (MouseMove e4) (dispatch (MouseDown e3) st3))
               = (config st0)\<lparr>characterTransform := (characterTransform (config st0))
                    \<lparr>t_x := dadd nx (dsub (fst q') (fst p')),
                     t_y := dadd ny (dsub (snd q') (snd p'))\<rparr>\<rparr>"
      using drag_once(1) [OF s3 a] by (simp add: c3 once(1))
  qed
  have grid: "\<And>u v w g a i j i' j'. u = Fin (real_of_int a / 2 ^ g)
             \<and> v = Fin (real_of_int i / 2 ^ g) \<and> w = Fin (real_of_int j / 2 ^ g)
             \<and> g \<le> 1074 \<and> \<bar>a\<bar> < 2 ^ 49 \<and> \<bar>i\<bar> < 2 ^ 49 \<and> \<bar>j\<bar> < 2 ^ 49
             \<and> \<bar>i'\<bar> < 2 ^ 49 \<and> \<bar>j'\<bar> < 2 ^ 49 \<Longrightarrow>
             dadd u (dsub w v)
               = Fin (real_of_int a / 2 ^ g + (real_of_int j / 2 ^ g - real_of_int i / 2 ^ g))
           \<and> dadd (dadd u (dsub w v)) (dsub (Fin (real_of_int j' / 2 ^ g)) (Fin (real_of_int i' / 2 ^ g)))
                = Fin (real_of_int a / 2 ^ g + (real_of_int j / 2 ^ g - real_of_int i / 2 ^ g)
                        + (real_of_int j' / 2 ^ g - real_of_int i' / 2 ^ g))"
  proof -
    fix u v w :: double and g :: nat and a i j i' j' :: int
    assume h: "u = Fin (real_of_int a / 2 ^ g)
             \<and> v = Fin (real_of_int i / 2 ^ g) \<and> w = Fin (real_of_int j / 2 ^ g)
             \<and> g \<le> 1074 \<and> \<bar>a\<bar> < 2 ^ 49 \<and> \<bar>i\<bar> < 2 ^ 49 \<and> \<bar>j\<bar> < 2 ^ 49
             \<and> \<bar>i'\<bar> < 2 ^ 49 \<and> \<bar>j'\<bar> < 2 ^ 49"
    then have hs: "g \<le> 1074" "\<bar>a\<bar> < 2 ^ 49" "\<bar>i\<bar> < 2 ^ 49" "\<bar>j\<bar> < 2 ^ 49"
      "\<bar>i'\<bar> < 2 ^ 49" "\<bar>j'\<bar> < 2 ^ 49"
      by blast+
    have b: "g \<le> 1074" "\<bar>a\<bar> < 2 ^ 51" "\<bar>i\<bar> < 2 ^ 50" "\<bar>j\<bar> < 2 ^ 50"
      "\<bar>a + (j - i)\<bar> < 2 ^ 51" "\<bar>i'\<bar> < 2 ^ 50" "\<bar>j'\<bar> < 2 ^ 50"
      using hs by simp_all
    have f: "dadd u (dsub w v) = Fin (real_of_int (a + (j - i)) / 2 ^ g)"
      using grid_drag [OF b(1-4)] h by simp
    have s: "dadd (Fin (real_of_int (a + (j - i)) / 2 ^ g))
                  (dsub (Fin (real_of_int j' / 2 ^ g)) (Fin (real_of_int i' / 2 ^ g)))
               = Fin (real_of_int (a + (j - i) + (j' - i')) / 2 ^ g)"
      by (rule grid_drag [OF b(1) b(5) b(6,7)])
    have e1: "real_of_int (a + (j - i)) / 2 ^ g
               = real_of_int a / 2 ^ g + (real_of_int j / 2 ^ g - real_of_int i / 2 ^ g)"
      by (simp add: add_divide_distrib diff_divide_distrib)
    have e2: "real_of_int (a + (j - i) + (j' - i')) / 2 ^ g
               = real_of_int a / 2 ^ g + (real_of_int j / 2 ^ g - real_of_int i / 2 ^ g)
                   + (real_of_int j' / 2 ^ g - real_of_int i' / 2 ^ g)"
      by (simp add: add_divide_distrib diff_divide_distrib)
    show "dadd u (dsub w v)
               = Fin (real_of_int a / 2 ^ g + (real_of_int j / 2 ^ g - real_of_int i / 2 ^ g))
           \<and> dadd (dadd u (dsub w v)) (dsub (Fin (real_of_int j' / 2 ^ g)) (Fin (real_of_int i' / 2 ^ g)))
                = Fin (real_of_int a / 2 ^ g + (real_of_int j / 2 ^ g - real_of_int i / 2 ^ g)
                        + (real_of_int j' / 2 ^ g - real_of_int i' / 2 ^ g))"
      using f s unfolding e1 e2 by simp
  qed
  have 7: "\<forall>g a i j i' j'. ax = Fin (real_of_int a / 2 ^ g)
             \<and> fst p = Fin (real_of_int i / 2 ^ g) \<and> fst q = Fin (real_of_int j / 2 ^ g)
             \<and> g \<le> 1074 \<and> \<bar>a\<bar> < 2 ^ 49 \<and> \<bar>i\<bar> < 2 ^ 49 \<and> \<bar>j\<bar> < 2 ^ 49
             \<and> \<bar>i'\<bar> < 2 ^ 49 \<and> \<bar>j'\<bar> < 2 ^ 49 \<longrightarrow>
             nx = Fin (real_of_int a / 2 ^ g + (real_of_int j / 2 ^ g - real_of_int i / 2 ^ g))
           \<and> dadd nx (dsub (Fin (real_of_int j' / 2 ^ g)) (Fin (real_of_int i' / 2 ^ g)))
                = Fin (real_of_int a / 2 ^ g + (real_of_int j / 2 ^ g - real_of_int i / 2 ^ g)
                        + (real_of_int j' / 2 ^ g - real_of_int i' / 2 ^ g))"
    unfolding nx_def using grid by blast
  have 8: "\<forall>g a i j i' j'. ay = Fin (real_of_int a / 2 ^ g)
             \<and> snd p = Fin (real_of_int i / 2 ^ g) \<and> snd q = Fin (real_of_int j / 2 ^ g)
             \<and> g \<le> 1074 \<and> \<bar>a\<bar> < 2 ^ 49 \<and> \<bar>i\<bar> < 2 ^ 49 \<and> \<bar>j\<bar> < 2 ^ 49
             \<and> \<bar>i'\<bar> < 2 ^ 49 \<and> \<bar>j'\<bar> < 2 ^ 49 \<longrightarrow>
             ny = Fin (real_of_int a / 2 ^ g + (real_of_int j / 2 ^ g - real_of_int i / 2 ^ g))
           \<and> dadd ny (dsub (Fin (real_of_int j' / 2 ^ g)) (Fin (real_of_int i' / 2 ^ g)))
                = Fin (real_of_int a / 2 ^ g + (real_of_int j / 2 ^ g - real_of_int i / 2 ^ g)
                        + (real_of_int j' / 2 ^ g - real_of_int i' / 2 ^ g))"
    unfolding ny_def using grid by blast
  from 1 2 3 4 5 6 7 8 show ?thesis by blast
qed

text \<open>The operations of two drags on the canvas shown 700 wide: from the pointer at 200 to
  the pointer at 523, and back.\<close>

lemma drag_700_1: "round_d (9 / 7) = Fin (5790342378047781 / 4503599627370496)"
  by (subst round_d_fin, simp, subst fl_eval [of 0]) (simp_all add: rnd_def power_int_minus)

lemma drag_700_2: "round_d (144758559451194525 / 562949953421312) = Fin (4523704982849829 / 17592186044416)"
  by (subst round_d_fin, simp, subst fl_eval [of 8]) (simp_all add: rnd_def power_int_minus)

lemma drag_700_3: "round_d (3028349063718989463 / 4503599627370496) = Fin (5914744265076151 / 8796093022208)"
  by (subst round_d_fin, simp, subst fl_eval [of 9]) (simp_all add: rnd_def power_int_minus)

lemma drag_700_4: "round_d (37 / 10) = Fin (4165829655317709 / 1125899906842624)"
  by (subst round_d_fin, simp, subst fl_eval [of 1]) (simp_all add: rnd_def power_int_minus)

lemma drag_700_5: "round_d (52 / 15) = Fin (1951559838527215 / 562949953421312)"
  by (subst round_d_fin, simp, subst fl_eval [of 1]) (simp_all add: rnd_def power_int_minus)

lemma drag_700_6: "round_d (48788995963180375 / 70368744177664) = Fin (6098624495397547 / 8796093022208)"
  by (subst round_d_fin, simp, subst fl_eval [of 9]) (simp_all add: rnd_def power_int_minus)

lemma drag_700_7: "round_d (6098624495397547 / 8796093022208) = Fin (6098624495397547 / 8796093022208)"
  by (subst round_d_fin, simp, subst fl_eval [of 9]) (simp_all add: rnd_def power_int_minus)

lemma drag_700_8: "round_d (146366987889541125 / 140737488355328) = Fin 1040"
  by (subst round_d_fin, simp, subst fl_eval [of 10]) (simp_all add: rnd_def power_int_minus)

lemma drag_700_9: "round_d (6098624495397547 / 17592186044416) = Fin (6098624495397547 / 17592186044416)"
  by (subst round_d_fin, simp, subst fl_eval [of 8]) (simp_all add: rnd_def power_int_minus)

lemma drag_700_10: "round_d (3577077829031253 / 17592186044416) = Fin (3577077829031253 / 17592186044416)"
  by (subst round_d_fin, simp, subst fl_eval [of 7]) (simp_all add: rnd_def power_int_minus)

lemma drag_700_11: "round_d (15774326819826347 / 17592186044416) = Fin (3943581704956587 / 4398046511104)"
  by (subst round_d_fin, simp, subst fl_eval [of 9]) (simp_all add: rnd_def power_int_minus)

lemma drag_700_12: "round_d (7305783547302473 / 17592186044416) = Fin (7305783547302473 / 17592186044416)"
  by (subst round_d_fin, simp, subst fl_eval [of 8]) (simp_all add: rnd_def power_int_minus)

lemma drag_700_13: "round_d (9065002151744073 / 17592186044416) = Fin (1133125268968009 / 2199023255552)"
  by (subst round_d_fin, simp, subst fl_eval [of 9]) (simp_all add: rnd_def power_int_minus)

lemma drag_700_14: "round_d (2122685733966409 / 2199023255552) = Fin (2122685733966409 / 2199023255552)"
  by (subst round_d_fin, simp, subst fl_eval [of 9]) (simp_all add: rnd_def power_int_minus)

lemma drag_700_15: "round_d (10882861376333725 / 17592186044416) = Fin (2720715344083431 / 4398046511104)"
  by (subst round_d_fin, simp, subst fl_eval [of 9]) (simp_all add: rnd_def power_int_minus)

lemma drag_700_16: "round_d (23080110367128819 / 17592186044416) = Fin (5770027591782205 / 4398046511104)"
  by (subst round_d_fin, simp, subst fl_eval [of 10]) (simp_all add: rnd_def power_int_minus)

lemma drag_700_17: "round_d (- (7305783547302473 / 17592186044416)) = Fin (- (7305783547302473 / 17592186044416))"
  by (subst round_d_fin, simp, subst fl_eval [of 8]) (simp_all add: rnd_def power_int_minus)

lemma drag_700_18: "round_d (1759218604441599 / 17592186044416) = Fin (1759218604441599 / 17592186044416)"
  by (subst round_d_fin, simp, subst fl_eval [of 6]) (simp_all add: rnd_def power_int_minus)

lemma hit_box_moved:
  "hit_box \<lparr>t_x = Fin (1133125268968009 / 2199023255552), t_y = Fin 0, t_scale = Fin 1, t_rotation = Fin 0\<rparr> example_image = (Fin (2720715344083431 / 4398046511104), Fin (5770027591782205 / 4398046511104), Fin 80, Fin 1120)"
  by (simp add: hit_box_def baseScale_of_def Let_def example_image_def dmin_def dsub_def drag_700_1 drag_700_2 drag_700_3 drag_700_4 drag_700_5 drag_700_6 drag_700_7 drag_700_8 drag_700_9 drag_700_10 drag_700_11 drag_700_12 drag_700_13 drag_700_14 drag_700_15 drag_700_16 drag_700_17 drag_700_18)

text \<open>
  C2, as it is stated, has the offset set to exactly \<open>ax + \<Delta>x\<close> and no drift on re-dragging.
  The program computes the canvas points, the displacement and the new offset in doubles.
  On a canvas shown 700 wide, with the offset \<open>(100, 0)\<close>, a drag from the pointer at 200 to
  the pointer at 523 goes from the canvas abscissa \<open>257.14285714285717\<close> to
  \<open>672.4285714285714\<close> and leaves the offset \<open>515.2857142857142\<close>, which is not 100 plus the
  difference of the two; a second drag from the pointer at 523 back to the pointer at 200
  leaves the offset \<open>99.99999999999994\<close>, not 100.
\<close>

theorem drag_rounding_counterexample:
  "getCanvasCoordinates example_state_700 (Fin 200) (Fin 600) = (Fin (4523704982849829 / 17592186044416), Fin 600)
   \<and> getCanvasCoordinates example_state_700 (Fin 523) (Fin 600) = (Fin (5914744265076151 / 8796093022208), Fin 600)
   \<and> isPointInCharacter example_state_700 (fst (Fin (4523704982849829 / 17592186044416), Fin 600)) (snd (Fin (4523704982849829 / 17592186044416), Fin 600))
   \<and> characterTransform (config example_state_700) = \<lparr>t_x = Fin 100, t_y = Fin 0, t_scale = Fin 1, t_rotation = Fin 0\<rparr>
   \<and> characterTransform (config (run [MouseDown (MouseEvent (Fin 200) (Fin 600)),
                                         MouseMove (MouseEvent (Fin 523) (Fin 600))] example_state_700))
       = \<lparr>t_x = Fin (1133125268968009 / 2199023255552), t_y = Fin 0, t_scale = Fin 1, t_rotation = Fin 0\<rparr>
   \<and> (1133125268968009 / 2199023255552 :: real) \<noteq> 100 + ((5914744265076151 / 8796093022208) - (4523704982849829 / 17592186044416))
   \<and> \<not> isDragging (run [MouseDown (MouseEvent (Fin 200) (Fin 600)),
                          MouseMove (MouseEvent (Fin 523) (Fin 600)), MouseUp] example_state_700)
   \<and> isPointInCharacter (run [MouseDown (MouseEvent (Fin 200) (Fin 600)),
                          MouseMove (MouseEvent (Fin 523) (Fin 600)), MouseUp] example_state_700)
         (fst (Fin (5914744265076151 / 8796093022208), Fin 600)) (snd (Fin (5914744265076151 / 8796093022208), Fin 600))
   \<and> characterTransform (config (run [MouseDown (MouseEvent (Fin 200) (Fin 600)),
                          MouseMove (MouseEvent (Fin 523) (Fin 600)), MouseUp,
                          MouseDown (MouseEvent (Fin 523) (Fin 600)),
                          MouseMove (MouseEvent (Fin 200) (Fin 600))] example_state_700))
       = \<lparr>t_x = Fin (1759218604441599 / 17592186044416), t_y = Fin 0, t_scale = Fin 1, t_rotation = Fin 0\<rparr>
   \<and> (1759218604441599 / 17592186044416 :: real) \<noteq> 100"
proof -
  let ?e1 = "MouseEvent (Fin 200) (Fin 600)" and ?e2 = "MouseEvent (Fin 523) (Fin 600)"
  let ?st2 = "dispatch (MouseMove ?e2) (dispatch (MouseDown ?e1) example_state_700)"
  let ?st3 = "dispatch MouseUp ?st2"
  have ce: "characterTransform (config example_state_700) = \<lparr>t_x = Fin 100, t_y = Fin 0, t_scale = Fin 1, t_rotation = Fin 0\<rparr>"
    by (simp add: example_state_700_def example_state_def)
  have li: "char (loadedImages example_state_700) = Some example_image"
    by (simp add: example_state_700_def example_state_def)
  have ge: "getCanvasCoordinates example_state_700 (Fin 200) (Fin 600) = (Fin (4523704982849829 / 17592186044416), Fin 600)"
    "getCanvasCoordinates example_state_700 (Fin 523) (Fin 600) = (Fin (5914744265076151 / 8796093022208), Fin 600)"
    by (simp_all add: getCanvasCoordinates_def example_state_700_def example_canvas_700_def
        example_canvas_def dsub_def drag_700_1 drag_700_2 drag_700_3 drag_700_4 drag_700_5 drag_700_6 drag_700_7 drag_700_8 drag_700_9 drag_700_10 drag_700_11 drag_700_12 drag_700_13 drag_700_14 drag_700_15 drag_700_16 drag_700_17 drag_700_18)
  have hit: "isPointInCharacter example_state_700 (fst (Fin (4523704982849829 / 17592186044416), Fin 600)) (snd (Fin (4523704982849829 / 17592186044416), Fin 600))"
    by (simp add: isPointInCharacter_iff li ce hit_box_example in_hit_box_def dge_def)
  have h: "canvas_sized example_state_700" "clientPoint ?e1 = Inr (Fin 200, Fin 600)"
    "getCanvasCoordinates example_state_700 (fst (Fin 200, Fin 600)) (snd (Fin 200, Fin 600)) = (Fin (4523704982849829 / 17592186044416), Fin 600)"
    "isPointInCharacter example_state_700 (fst (Fin (4523704982849829 / 17592186044416), Fin 600)) (snd (Fin (4523704982849829 / 17592186044416), Fin 600))"
    "clientPoint ?e2 = Inr (Fin 523, Fin 600)"
    "getCanvasCoordinates example_state_700 (fst (Fin 523, Fin 600)) (snd (Fin 523, Fin 600)) = (Fin (5914744265076151 / 8796093022208), Fin 600)"
    using ge hit
    by (simp_all add: canvas_sized_def example_state_700_def example_canvas_700_def example_canvas_def)
  note o = drag_once [OF h]
  have c2: "config ?st2 = (config example_state_700)\<lparr>characterTransform := \<lparr>t_x = Fin (1133125268968009 / 2199023255552), t_y = Fin 0, t_scale = Fin 1, t_rotation = Fin 0\<rparr>\<rparr>"
    using o(1) by (simp add: ce dsub_def drag_700_1 drag_700_2 drag_700_3 drag_700_4 drag_700_5 drag_700_6 drag_700_7 drag_700_8 drag_700_9 drag_700_10 drag_700_11 drag_700_12 drag_700_13 drag_700_14 drag_700_15 drag_700_16 drag_700_17 drag_700_18)
  have st3: "?st3 = ?st2\<lparr>isDragging := False\<rparr>" by (rule dispatch_up)
  have g3: "\<And>cx cy. getCanvasCoordinates ?st3 cx cy = getCanvasCoordinates example_state_700 cx cy"
    using o(7) by (simp add: st3 getCanvasCoordinates_def)
  have s3: "canvas_sized ?st3" using o(6) by (simp add: st3 canvas_sized_def)
  let ?moved = "example_state_700\<lparr>config := (config example_state_700)\<lparr>characterTransform := \<lparr>t_x = Fin (1133125268968009 / 2199023255552), t_y = Fin 0, t_scale = Fin 1, t_rotation = Fin 0\<rparr>\<rparr>\<rparr>"
  have "isPointInCharacter ?st3 (fst (Fin (5914744265076151 / 8796093022208), Fin 600)) (snd (Fin (5914744265076151 / 8796093022208), Fin 600)) = isPointInCharacter ?moved (fst (Fin (5914744265076151 / 8796093022208), Fin 600)) (snd (Fin (5914744265076151 / 8796093022208), Fin 600))"
    by (rule isPointInCharacter_cong) (simp_all add: st3 c2 o(5))
  moreover have "isPointInCharacter ?moved (fst (Fin (5914744265076151 / 8796093022208), Fin 600)) (snd (Fin (5914744265076151 / 8796093022208), Fin 600))"
    by (simp add: isPointInCharacter_iff li hit_box_moved in_hit_box_def dge_def)
  ultimately have p3: "isPointInCharacter ?st3 (fst (Fin (5914744265076151 / 8796093022208), Fin 600)) (snd (Fin (5914744265076151 / 8796093022208), Fin 600))" by simp
  have k: "clientPoint ?e2 = Inr (Fin 523, Fin 600)"
    "getCanvasCoordinates ?st3 (fst (Fin 523, Fin 600)) (snd (Fin 523, Fin 600)) = (Fin (5914744265076151 / 8796093022208), Fin 600)"
    "isPointInCharacter ?st3 (fst (Fin (5914744265076151 / 8796093022208), Fin 600)) (snd (Fin (5914744265076151 / 8796093022208), Fin 600))"
    "clientPoint ?e1 = Inr (Fin 200, Fin 600)"
    "getCanvasCoordinates ?st3 (fst (Fin 200, Fin 600)) (snd (Fin 200, Fin 600)) = (Fin (4523704982849829 / 17592186044416), Fin 600)"
    using p3 by (simp_all add: g3 ge)
  have c3: "config ?st3 = config ?st2" by (simp add: st3)
  have "config (dispatch (MouseMove ?e1) (dispatch (MouseDown ?e2) ?st3))
          = (config example_state_700)\<lparr>characterTransform := \<lparr>t_x = Fin (1759218604441599 / 17592186044416), t_y = Fin 0, t_scale = Fin 1, t_rotation = Fin 0\<rparr>\<rparr>"
    using drag_once(1) [OF s3 k] by (simp add: c3 c2 dsub_def drag_700_1 drag_700_2 drag_700_3 drag_700_4 drag_700_5 drag_700_6 drag_700_7 drag_700_8 drag_700_9 drag_700_10 drag_700_11 drag_700_12 drag_700_13 drag_700_14 drag_700_15 drag_700_16 drag_700_17 drag_700_18)
  then have r: "characterTransform (config (dispatch (MouseMove ?e1) (dispatch (MouseDown ?e2) ?st3))) = \<lparr>t_x = Fin (1759218604441599 / 17592186044416), t_y = Fin 0, t_scale = Fin 1, t_rotation = Fin 0\<rparr>"
    by simp
  have c2t: "characterTransform (config ?st2) = \<lparr>t_x = Fin (1133125268968009 / 2199023255552), t_y = Fin 0, t_scale = Fin 1, t_rotation = Fin 0\<rparr>" by (simp add: c2)
  have i3: "\<not> isDragging ?st3" by (simp add: st3)
  have n: "(1133125268968009 / 2199023255552 :: real) \<noteq> 100 + ((5914744265076151 / 8796093022208) - (4523704982849829 / 17592186044416))" "(1759218604441599 / 17592186044416 :: real) \<noteq> 100"
    by simp_all
  show ?thesis
    using ge hit ce c2t i3 p3 r n by simp
qed

text \<open>The operations of the hit test on the 200 by 300 image at the offset \<open>(5100, 0)\<close>.\<close>

lemma drag_example_1: "round_d (37 / 10) = Fin (4165829655317709 / 1125899906842624)"
  by (subst round_d_fin, simp, subst fl_eval [of 1]) (simp_all add: rnd_def power_int_minus)

lemma drag_example_2: "round_d (52 / 15) = Fin (1951559838527215 / 562949953421312)"
  by (subst round_d_fin, simp, subst fl_eval [of 1]) (simp_all add: rnd_def power_int_minus)

lemma drag_example_3: "round_d (48788995963180375 / 70368744177664) = Fin (6098624495397547 / 8796093022208)"
  by (subst round_d_fin, simp, subst fl_eval [of 9]) (simp_all add: rnd_def power_int_minus)

lemma drag_example_4: "round_d (6098624495397547 / 8796093022208) = Fin (6098624495397547 / 8796093022208)"
  by (subst round_d_fin, simp, subst fl_eval [of 9]) (simp_all add: rnd_def power_int_minus)

lemma drag_example_5: "round_d (146366987889541125 / 140737488355328) = Fin 1040"
  by (subst round_d_fin, simp, subst fl_eval [of 10]) (simp_all add: rnd_def power_int_minus)

lemma drag_example_6: "round_d (6098624495397547 / 17592186044416) = Fin (6098624495397547 / 17592186044416)"
  by (subst round_d_fin, simp, subst fl_eval [of 8]) (simp_all add: rnd_def power_int_minus)

lemma drag_example_7: "round_d (3577077829031253 / 17592186044416) = Fin (3577077829031253 / 17592186044416)"
  by (subst round_d_fin, simp, subst fl_eval [of 7]) (simp_all add: rnd_def power_int_minus)

lemma drag_example_8: "round_d (15774326819826347 / 17592186044416) = Fin (3943581704956587 / 4398046511104)"
  by (subst round_d_fin, simp, subst fl_eval [of 9]) (simp_all add: rnd_def power_int_minus)

lemma drag_example_9: "round_d (91538008051111253 / 17592186044416) = Fin (5721125503194453 / 1099511627776)"
  by (subst round_d_fin, simp, subst fl_eval [of 12]) (simp_all add: rnd_def power_int_minus)

lemma drag_example_10: "round_d (103735257041906347 / 17592186044416) = Fin (6483453565119147 / 1099511627776)"
  by (subst round_d_fin, simp, subst fl_eval [of 12]) (simp_all add: rnd_def power_int_minus)

lemma hit_box_far:
  "hit_box \<lparr>t_x = Fin 5100, t_y = Fin 0, t_scale = Fin 1, t_rotation = Fin 0\<rparr> example_image = (Fin (5721125503194453 / 1099511627776), Fin (6483453565119147 / 1099511627776), Fin 80, Fin 1120)"
  by (simp add: hit_box_def baseScale_of_def Let_def example_image_def dmin_def dsub_def drag_example_1 drag_example_2 drag_example_3 drag_example_4 drag_example_5 drag_example_6 drag_example_7 drag_example_8 drag_example_9 drag_example_10)

theorem drag_session_witness:
  "canvas_sized example_state
   \<and> clientPoint (MouseEvent (Fin 285) (Fin 320)) = Inr (Fin 285, Fin 320)
   \<and> getCanvasCoordinates example_state (Fin 285) (Fin 320) = (Fin 550, Fin 600)
   \<and> isPointInCharacter example_state (Fin 550) (Fin 600)
   \<and> clientPoint (TouchEvent [(Fin 2785, Fin 320), (Fin 0, Fin 0)]) = Inr (Fin 2785, Fin 320)
   \<and> getCanvasCoordinates example_state (Fin 2785) (Fin 320) = (Fin 5550, Fin 600)
   \<and> isDragging (dispatch (MouseDown (MouseEvent (Fin 285) (Fin 320))) example_state)
   \<and> characterTransform (config (run [MouseDown (MouseEvent (Fin 285) (Fin 320)),
                                         MouseMove (TouchEvent [(Fin 2785, Fin 320), (Fin 0, Fin 0)])]
                                    example_state))
       = \<lparr>t_x = Fin 5100, t_y = Fin 0, t_scale = Fin 1, t_rotation = Fin 0\<rparr>
   \<and> \<not> isDragging (run [MouseDown (MouseEvent (Fin 285) (Fin 320)),
                          MouseMove (TouchEvent [(Fin 2785, Fin 320), (Fin 0, Fin 0)]), MouseUp]
                     example_state)
   \<and> getCanvasCoordinates (run [MouseDown (MouseEvent (Fin 285) (Fin 320)),
                          MouseMove (TouchEvent [(Fin 2785, Fin 320), (Fin 0, Fin 0)]), MouseUp]
                     example_state) (Fin 2785) (Fin 320)
       = (Fin 5550, Fin 600)
   \<and> isPointInCharacter (run [MouseDown (MouseEvent (Fin 285) (Fin 320)),
                          MouseMove (TouchEvent [(Fin 2785, Fin 320), (Fin 0, Fin 0)]), MouseUp]
                     example_state) (Fin 5550) (Fin 600)
   \<and> getCanvasCoordinates (run [MouseDown (MouseEvent (Fin 285) (Fin 320)),
                          MouseMove (TouchEvent [(Fin 2785, Fin 320), (Fin 0, Fin 0)]), MouseUp]
                     example_state) (Fin 285) (Fin 340)
       = (Fin 550, Fin 640)
   \<and> characterTransform (config (run [MouseDown (MouseEvent (Fin 285) (Fin 320)),
                          MouseMove (TouchEvent [(Fin 2785, Fin 320), (Fin 0, Fin 0)]), MouseUp,
                          MouseDown (MouseEvent (Fin 2785) (Fin 320)),
                          MouseMove (MouseEvent (Fin 285) (Fin 340))] example_state))
       = \<lparr>t_x = Fin 100, t_y = Fin 40, t_scale = Fin 1, t_rotation = Fin 0\<rparr>"
proof -
  let ?e1 = "MouseEvent (Fin 285) (Fin 320)" and ?e2 = "TouchEvent [(Fin 2785, Fin 320), (Fin 0, Fin 0)]"
  let ?st2 = "dispatch (MouseMove ?e2) (dispatch (MouseDown ?e1) example_state)"
  let ?st3 = "dispatch MouseUp ?st2"
  have ce: "characterTransform (config example_state)
              = \<lparr>t_x = Fin 100, t_y = Fin 0, t_scale = Fin 1, t_rotation = Fin 0\<rparr>"
    by (simp add: example_state_def)
  have li: "char (loadedImages example_state) = Some example_image"
    by (simp add: example_state_def)
  have ge: "getCanvasCoordinates example_state (Fin 285) (Fin 320) = (Fin 550, Fin 600)"
    "getCanvasCoordinates example_state (Fin 2785) (Fin 320) = (Fin 5550, Fin 600)"
    "getCanvasCoordinates example_state (Fin 285) (Fin 340) = (Fin 550, Fin 640)"
    by (simp_all add: getCanvasCoordinates_def example_state_def example_canvas_def dsub_def)
  have hit: "isPointInCharacter example_state (Fin 550) (Fin 600)"
    by (simp add: isPointInCharacter_iff li ce hit_box_example in_hit_box_def dge_def)
  have h: "canvas_sized example_state" "clientPoint ?e1 = Inr (Fin 285, Fin 320)"
    "getCanvasCoordinates example_state (fst (Fin 285, Fin 320)) (snd (Fin 285, Fin 320)) = (Fin 550, Fin 600)"
    "isPointInCharacter example_state (fst (Fin 550, Fin 600)) (snd (Fin 550, Fin 600))"
    "clientPoint ?e2 = Inr (Fin 2785, Fin 320)"
    "getCanvasCoordinates example_state (fst (Fin 2785, Fin 320)) (snd (Fin 2785, Fin 320)) = (Fin 5550, Fin 600)"
    using ge hit by (simp_all add: canvas_sized_def example_state_def example_canvas_def)
  note S = drag_session [OF h]
  note S5 = S [THEN conjunct2, THEN conjunct2, THEN conjunct2, THEN conjunct2]
  note S9 = S5 [THEN conjunct2, THEN conjunct2, THEN conjunct2, THEN conjunct2]
  note S14 = S9 [THEN conjunct2, THEN conjunct2, THEN conjunct2, THEN conjunct2, THEN conjunct2]
  have st3: "?st3 = ?st2\<lparr>isDragging := False\<rparr>" by (rule S9 [THEN conjunct1])
  have "config ?st2 = (config example_state)\<lparr>characterTransform :=
           (characterTransform (config example_state))
             \<lparr>t_x := dadd (t_x (characterTransform (config example_state)))
                        (dsub (fst (Fin 5550, Fin 600)) (fst (Fin 550, Fin 600))),
              t_y := dadd (t_y (characterTransform (config example_state)))
                        (dsub (snd (Fin 5550, Fin 600)) (snd (Fin 550, Fin 600)))\<rparr>\<rparr>"
    by (rule S5 [THEN conjunct1])
  then have c2: "config ?st2 = (config example_state)\<lparr>characterTransform :=
              \<lparr>t_x = Fin 5100, t_y = Fin 0, t_scale = Fin 1, t_rotation = Fin 0\<rparr>\<rparr>"
    by (simp add: ce dsub_def)
  have l2: "loadedImages ?st2 = loadedImages example_state"
    by (rule S5 [THEN conjunct2, THEN conjunct1])
  have g2: "\<And>cx cy. getCanvasCoordinates ?st2 cx cy = getCanvasCoordinates example_state cx cy"
    using S5 [THEN conjunct2, THEN conjunct2, THEN conjunct1] by blast
  have g3: "\<And>cx cy. getCanvasCoordinates ?st3 cx cy = getCanvasCoordinates example_state cx cy"
    using g2 by (simp add: st3 getCanvasCoordinates_def)
  let ?moved = "example_state\<lparr>config := (config example_state)\<lparr>characterTransform :=
              \<lparr>t_x = Fin 5100, t_y = Fin 0, t_scale = Fin 1, t_rotation = Fin 0\<rparr>\<rparr>\<rparr>"
  have "isPointInCharacter ?st3 (Fin 5550) (Fin 600) = isPointInCharacter ?moved (Fin 5550) (Fin 600)"
    by (rule isPointInCharacter_cong) (simp_all add: st3 c2 l2)
  moreover have "isPointInCharacter ?moved (Fin 5550) (Fin 600)"
    by (simp add: isPointInCharacter_iff li hit_box_far in_hit_box_def dge_def)
  ultimately have p3: "isPointInCharacter ?st3 (Fin 5550) (Fin 600)" by simp
  have k: "clientPoint (MouseEvent (Fin 2785) (Fin 320)) = Inr (Fin 2785, Fin 320)
    \<and> getCanvasCoordinates ?st3 (fst (Fin 2785, Fin 320)) (snd (Fin 2785, Fin 320)) = (Fin 5550, Fin 600)
    \<and> isPointInCharacter ?st3 (fst (Fin 5550, Fin 600)) (snd (Fin 5550, Fin 600))
    \<and> clientPoint (MouseEvent (Fin 285) (Fin 340)) = Inr (Fin 285, Fin 340)
    \<and> getCanvasCoordinates ?st3 (fst (Fin 285, Fin 340)) (snd (Fin 285, Fin 340)) = (Fin 550, Fin 640)"
    using p3 by (simp add: g3 ge)
  have "\<forall>e3 c3 p' e4 c4 q'.
             clientPoint e3 = Inr c3 \<and> getCanvasCoordinates ?st3 (fst c3) (snd c3) = p'
             \<and> isPointInCharacter ?st3 (fst p') (snd p')
             \<and> clientPoint e4 = Inr c4 \<and> getCanvasCoordinates ?st3 (fst c4) (snd c4) = q' \<longrightarrow>
             config (dispatch (MouseMove e4) (dispatch (MouseDown e3) ?st3))
               = (config example_state)\<lparr>characterTransform := (characterTransform (config example_state))
                    \<lparr>t_x := dadd (dadd (t_x (characterTransform (config example_state)))
                                     (dsub (fst (Fin 5550, Fin 600)) (fst (Fin 550, Fin 600))))
                                (dsub (fst q') (fst p')),
                     t_y := dadd (dadd (t_y (characterTransform (config example_state)))
                                     (dsub (snd (Fin 5550, Fin 600)) (snd (Fin 550, Fin 600))))
                                (dsub (snd q') (snd p'))\<rparr>\<rparr>"
    by (rule S14 [THEN conjunct1])
  from this k have "config (dispatch (MouseMove (MouseEvent (Fin 285) (Fin 340)))
                       (dispatch (MouseDown (MouseEvent (Fin 2785) (Fin 320))) ?st3))
      = (config example_state)\<lparr>characterTransform := (characterTransform (config example_state))
                    \<lparr>t_x := dadd (dadd (t_x (characterTransform (config example_state)))
                                     (dsub (fst (Fin 5550, Fin 600)) (fst (Fin 550, Fin 600))))
                                (dsub (fst (Fin 550, Fin 640)) (fst (Fin 5550, Fin 600))),
                     t_y := dadd (dadd (t_y (characterTransform (config example_state)))
                                     (dsub (snd (Fin 5550, Fin 600)) (snd (Fin 550, Fin 600))))
                                (dsub (snd (Fin 550, Fin 640)) (snd (Fin 5550, Fin 600)))\<rparr>\<rparr>"
    by blast
  then have r: "characterTransform (config (dispatch (MouseMove (MouseEvent (Fin 285) (Fin 340)))
                   (dispatch (MouseDown (MouseEvent (Fin 2785) (Fin 320))) ?st3)))
      = \<lparr>t_x = Fin 100, t_y = Fin 40, t_scale = Fin 1, t_rotation = Fin 0\<rparr>"
    by (simp add: ce dsub_def)
  have d1: "isDragging (dispatch (MouseDown ?e1) example_state)"
    using S [THEN conjunct1] by simp
  have i3: "\<not> isDragging ?st3" by (simp add: st3)
  have c2t: "characterTransform (config ?st2)
               = \<lparr>t_x = Fin 5100, t_y = Fin 0, t_scale = Fin 1, t_rotation = Fin 0\<rparr>"
    by (simp add: c2)
  show ?thesis
    using h k r d1 c2t i3 by simp
qed

text \<open>
  C10.  While no decoded character image is present, the hit test is false at every point
  and a pointer-down (mouse or touch) changes nothing at all; if moreover no drag is in
  progress, every pointer event leaves the controller idle, the configuration unchanged
  and the image absent.  That a drag is in progress only over a decoded character image
  holds after mounting, is preserved by every event, and so holds after every sequence
  of events: in every reachable state without a decoded character image the controller
  is idle.
\<close>

theorem no_image_no_drag:
  "(char (loadedImages st) = None \<longrightarrow>
       (\<forall>px py. \<not> isPointInCharacter st px py)
     \<and> (\<forall>e. handleMouseDown e st = Inr st)
     \<and> (\<forall>e. dispatch (MouseDown e) st = st \<and> dispatch (TouchStart e) st = st))
   \<and> (char (loadedImages st) = None \<and> \<not> isDragging st \<and> is_pointer_event ev \<longrightarrow>
        \<not> isDragging (dispatch ev st) \<and> config (dispatch ev st) = config st
        \<and> char (loadedImages (dispatch ev st)) = None)
   \<and> drag_inv (initial_state c0)
   \<and> (drag_inv st \<longrightarrow> drag_inv (dispatch ev st))
   \<and> drag_inv (run evs (initial_state c0))
   \<and> (char (loadedImages (run evs (initial_state c0))) = None \<longrightarrow>
        \<not> isDragging (run evs (initial_state c0)))"
proof -
  have "drag_inv (run evs (initial_state c0))"
    by (simp add: drag_inv_run drag_inv_initial)
  moreover from this have "char (loadedImages (run evs (initial_state c0))) = None \<longrightarrow>
        \<not> isDragging (run evs (initial_state c0))"
    by (auto simp add: drag_inv_def)
  moreover have "char (loadedImages st) = None \<and> \<not> isDragging st \<and> is_pointer_event ev \<longrightarrow>
        \<not> isDragging (dispatch ev st) \<and> config (dispatch ev st) = config st
        \<and> char (loadedImages (dispatch ev st)) = None"
    using dispatch_pointer_idle [of st ev] by auto
  ultimately show ?thesis
    by (simp add: isPointInCharacter_no_image handleMouseDown_no_image dispatch_down_no_image
        dispatch_touch drag_inv_initial drag_inv_dispatch)
qed

theorem no_image_no_drag_witness:
  "char (loadedImages example_state_no_image) = None
   \<and> \<not> isDragging example_state_no_image
   \<and> is_pointer_event (MouseMove (MouseEvent (Fin 285) (Fin 320)))
   \<and> drag_inv example_state_no_image
   \<and> \<not> isPointInCharacter example_state_no_image (Fin 550) (Fin 600)
   \<and> handleMouseDown (MouseEvent (Fin 285) (Fin 320)) example_state_no_image = Inr example_state_no_image
   \<and> dispatch (TouchStart (TouchEvent [(Fin 285, Fin 320)])) example_state_no_image = example_state_no_image
   \<and> \<not> isDragging (dispatch (MouseMove (MouseEvent (Fin 285) (Fin 320))) example_state_no_image)
   \<and> config (dispatch (MouseMove (MouseEvent (Fin 285) (Fin 320))) example_state_no_image)
       = config example_state_no_image
   \<and> drag_inv (dispatch (MouseMove (MouseEvent (Fin 285) (Fin 320))) example_state_no_image)
   \<and> char (loadedImages (run [MouseDown (MouseEvent (Fin 285) (Fin 320)), MouseUp] (initial_state example_canvas))) = None
   \<and> \<not> isDragging (run [MouseDown (MouseEvent (Fin 285) (Fin 320)), MouseUp] (initial_state example_canvas))"
proof -
  have a: "char (loadedImages example_state_no_image) = None" "\<not> isDragging example_state_no_image"
    "drag_inv example_state_no_image"
    by (simp_all add: example_state_no_image_def example_state_def drag_inv_def)
  have b: "char (loadedImages (run [MouseDown (MouseEvent (Fin 285) (Fin 320)), MouseUp] (initial_state example_canvas))) = None"
    by (simp add: dispatch_down_no_image dispatch_up initial_state_def drawCanvas_frame)
  show ?thesis
    using a b
      no_image_no_drag [of example_state_no_image "MouseMove (MouseEvent (Fin 285) (Fin 320))" example_canvas
         "[MouseDown (MouseEvent (Fin 285) (Fin 320)), MouseUp]"]
    by simp
qed

end
